(* ===== verification/Satip_Prelude.thy ===== *)
theory Satip_Prelude
  imports Main "HOL-Library.Word" "HOL-Library.AList" "HOL-Library.Monad_Syntax"
    "HOL-Library.Signed_Division"
begin

text \<open>
  Shared vocabulary of the development: the machine types of the C++ sources, checked memory
  reads, the C integer conversions, decimal and hexadecimal printing as the iostreams and
  printf do it, and the generic lemmas on lists and sets that the component theories use.
  A function that reads or writes memory returns an option: \<open>None\<close> is an access outside
  the object (undefined behaviour of the C++ program), so a theorem that the result is
  \<open>Some\<close> is a memory-safety theorem.
\<close>

unbundle bit_operations_syntax

named_theorems byte_simps \<open>arithmetic readings of the bit-field extractions\<close>
named_theorems mem_simps \<open>checked reads whose index is in range\<close>
named_theorems frame_simps \<open>fields an operation leaves alone\<close>

type_synonym u8 = "8 word"
type_synonym u16 = "16 word"
type_synonym u32 = "32 word"
type_synonym u64 = "64 word"
type_synonym pid = int
type_synonym pids = "int set"

section \<open>Checked memory reads\<close>

definition rd :: "'a list \<Rightarrow> nat \<Rightarrow> 'a option" where
  "rd m i = (if i < length m then Some (m ! i) else None)"

definition rd_range :: "'a list \<Rightarrow> nat \<Rightarrow> nat \<Rightarrow> 'a list option" where
  "rd_range m i n = (if i + n \<le> length m then Some (take n (drop i m)) else None)"

lemma rd_Some [mem_simps]: "i < length m \<Longrightarrow> rd m i = Some (m ! i)"
  by (simp add: rd_def)

lemma rd_eq_Some_iff: "rd m i = Some x \<longleftrightarrow> i < length m \<and> m ! i = x"
  by (auto simp: rd_def)

lemma rd_None_iff: "rd m i = None \<longleftrightarrow> length m \<le> i"
  by (auto simp: rd_def)

lemma rd_append_left [mem_simps]: "i < length xs \<Longrightarrow> rd (xs @ ys) i = rd xs i"
  by (simp add: rd_def nth_append)

lemma rd_append_right [simp]: "rd (xs @ ys) (length xs + i) = rd ys i"
  by (simp add: rd_def)

lemma rd_range_Some [mem_simps]: "i + n \<le> length m \<Longrightarrow> rd_range m i n = Some (take n (drop i m))"
  by (simp add: rd_range_def)

text \<open>
  A successful run taken apart, one bind and one branch at a time: \<open>elim run_elims\<close> leaves one
  goal per path through a monadic definition.
\<close>

lemma bind_SomeE: "Option.bind f g = Some x \<Longrightarrow> (\<And>y. f = Some y \<Longrightarrow> g y = Some x \<Longrightarrow> P) \<Longrightarrow> P"
  by (auto simp: bind_eq_Some_conv)

lemma ite_SomeE:
  "(if c then a else b) = Some x \<Longrightarrow> (c \<Longrightarrow> a = Some x \<Longrightarrow> P) \<Longrightarrow> (\<not> c \<Longrightarrow> b = Some x \<Longrightarrow> P) \<Longrightarrow> P"
  by (simp split: if_splits)

lemma ret_SomeE: "Some a = Some x \<Longrightarrow> (x = a \<Longrightarrow> P) \<Longrightarrow> P"
  by simp

lemmas run_elims = bind_SomeE ite_SomeE ret_SomeE

text \<open>The same for results taken apart by a case distinction.\<close>

lemma option_case_SomeE:
  "(case x of None \<Rightarrow> a | Some p \<Rightarrow> f p) = Some y \<Longrightarrow> (x = None \<Longrightarrow> a = Some y \<Longrightarrow> P) \<Longrightarrow>
    (\<And>p. x = Some p \<Longrightarrow> f p = Some y \<Longrightarrow> P) \<Longrightarrow> P"
  by (cases x) auto

lemma prod_case_SomeE:
  "(case x of (a, b) \<Rightarrow> f a b) = Some y \<Longrightarrow> (\<And>a b. x = (a, b) \<Longrightarrow> f a b = Some y \<Longrightarrow> P) \<Longrightarrow> P"
  by (cases x) auto

lemmas case_elims = option_case_SomeE prod_case_SomeE

section \<open>C integers\<close>

text \<open>Assignment to a 32-bit \<open>int\<close>: two's complement wrap-around.\<close>

definition s32 :: "int \<Rightarrow> int" where
  "s32 x = (x + 2 ^ 31) mod 2 ^ 32 - 2 ^ 31"

lemma s32_id: "- (2 ^ 31) \<le> x \<Longrightarrow> x < 2 ^ 31 \<Longrightarrow> s32 x = x"
  by (simp add: s32_def)

lemma s32_range: "- (2 ^ 31) \<le> s32 x \<and> s32 x < 2 ^ 31"
  by (auto simp: s32_def)

text \<open>C division truncates towards zero: \<open>sdiv\<close> and \<open>smod\<close>.\<close>

lemma sdiv_nonneg: "0 \<le> a \<Longrightarrow> 0 < b \<Longrightarrow> a sdiv b = a div (b :: int)"
  by (auto simp: signed_divide_int_def sgn_if)

lemma smod_nonneg: "0 \<le> a \<Longrightarrow> 0 < b \<Longrightarrow> a smod b = a mod (b :: int)"
  by (auto simp: smod_int_alt_def sgn_if)

section \<open>Bit fields of bytes\<close>

text \<open>
  Bytes are promoted to \<open>int\<close> before the bit operations, so fields are computed on the
  unsigned reading of the byte. The three combinations below are the ones the parsers use:
  \<open>(hi << 8) | lo\<close>, and the same with the upper byte masked to 5 bits (pids) or 4 bits
  (lengths).
\<close>

abbreviation byte :: "u8 \<Rightarrow> int" where
  "byte b \<equiv> uint b"

definition be16 :: "u8 \<Rightarrow> u8 \<Rightarrow> int" where
  "be16 hi lo = push_bit 8 (byte hi) OR byte lo"

definition pid13 :: "u8 \<Rightarrow> u8 \<Rightarrow> pid" where
  "pid13 hi lo = push_bit 8 (byte hi AND 0x1f) OR byte lo"

definition len12 :: "u8 \<Rightarrow> u8 \<Rightarrow> int" where
  "len12 hi lo = push_bit 8 (byte hi AND 0x0f) OR byte lo"

lemma byte_range [simp]: "0 \<le> byte b" "byte b < 256"
  using uint_lt2p [of b] by simp_all

lemma unat_byte_less [simp]: "unat (b :: u8) < 256"
  using unsigned_less [of b, where ?'a = nat] by simp

lemma int_unat_byte: "int (unat (b :: u8)) = byte b"
  by simp

lemma nat_byte: "nat (byte b) = unat b"
  by simp

lemma and_low_mask: "(x :: int) AND (2 ^ n - 1) = x mod 2 ^ n"
  by (simp flip: take_bit_eq_mod add: take_bit_eq_mask mask_eq_exp_minus_1)

lemma and_low_masks [byte_simps]:
  "(x :: int) AND 0x1f = x mod 32" "(x :: int) AND 0x0f = x mod 16"
  "(x :: int) AND 0xff = x mod 256" "(x :: int) AND 0x03 = x mod 4" "(x :: int) AND 1 = x mod 2"
  using and_low_mask [of x 5] and_low_mask [of x 4] and_low_mask [of x 8] and_low_mask [of x 2]
    and_low_mask [of x 1]
  by simp_all

lemma shifted_or_plus:
  assumes "0 \<le> l" "l < 2 ^ n"
  shows "push_bit n h OR l = h * 2 ^ n + (l :: int)"
proof -
  have l: "take_bit n l = l"
    using assms by (simp add: take_bit_int_eq_self)
  have "\<And>m. m \<ge> n \<Longrightarrow> \<not> bit l m"
    by (metis l bit_take_bit_iff linorder_not_le)
  then have "push_bit n h AND l = 0"
    by (intro bit_eqI) (auto simp: bit_and_iff bit_push_bit_iff)
  then have "push_bit n h + l = push_bit n h OR l"
    by (rule disjunctive_add_eq_or)
  then show ?thesis
    by (simp add: push_bit_eq_mult)
qed

lemma be16_arith [byte_simps]: "be16 hi lo = byte hi * 256 + byte lo"
  unfolding be16_def using shifted_or_plus [of "byte lo" 8] by simp

lemma pid13_arith [byte_simps]: "pid13 hi lo = byte hi mod 32 * 256 + byte lo"
  unfolding pid13_def using shifted_or_plus [of "byte lo" 8] by (simp add: and_low_masks)

lemma len12_arith [byte_simps]: "len12 hi lo = byte hi mod 16 * 256 + byte lo"
  unfolding len12_def using shifted_or_plus [of "byte lo" 8] by (simp add: and_low_masks)

lemma pid13_range: "0 \<le> pid13 hi lo \<and> pid13 hi lo < 0x2000"
  unfolding pid13_arith
  using pos_mod_bound [of 32 "byte hi"] pos_mod_sign [of 32 "byte hi"] byte_range [of lo]
  by linarith

lemma len12_range: "0 \<le> len12 hi lo \<and> len12 hi lo < 0x1000"
  unfolding len12_arith
  using pos_mod_bound [of 16 "byte hi"] pos_mod_sign [of 16 "byte hi"] byte_range [of lo]
  by linarith

lemma be16_range: "0 \<le> be16 hi lo \<and> be16 hi lo < 0x10000"
  unfolding be16_arith using byte_range [of hi] byte_range [of lo] by linarith

text \<open>The bytes of a 16-bit field, for building packets; the field accessors invert them.\<close>

definition hi8 :: "int \<Rightarrow> u8" where
  "hi8 n = word_of_int (n div 256)"

definition lo8 :: "int \<Rightarrow> u8" where
  "lo8 n = word_of_int n"

lemma byte_hi8: "byte (hi8 n) = n div 256 mod 256"
  by (simp add: hi8_def uint_word_of_int)

lemma byte_lo8: "byte (lo8 n) = n mod 256"
  by (simp add: lo8_def uint_word_of_int)

lemma be16_bytes: "0 \<le> n \<Longrightarrow> n < 0x10000 \<Longrightarrow> be16 (hi8 n) (lo8 n) = n"
  by (simp add: be16_arith byte_hi8 byte_lo8)

lemma pid13_bytes: "0 \<le> n \<Longrightarrow> n < 0x2000 \<Longrightarrow> pid13 (hi8 n) (lo8 n) = n"
  by (simp add: pid13_arith byte_hi8 byte_lo8)

lemma len12_bytes: "0 \<le> n \<Longrightarrow> n < 0x1000 \<Longrightarrow> len12 (hi8 n) (lo8 n) = n"
  by (simp add: len12_arith byte_hi8 byte_lo8)

section \<open>Sorted enumeration of integer sets\<close>

text \<open>
  A \<^verbatim>\<open>std::set<int>\<close> is a finite set; iterating over it visits \<open>sorted_list_of_set\<close>.
\<close>

definition first_n :: "nat \<Rightarrow> int set \<Rightarrow> int set" where
  "first_n n A = set (take n (sorted_list_of_set A))"

lemma first_n_subset: "finite A \<Longrightarrow> first_n n A \<subseteq> A"
  unfolding first_n_def using set_take_subset by fastforce

lemma card_first_n: "finite A \<Longrightarrow> card (first_n n A) = min n (card A)"
  by (simp add: first_n_def distinct_card)

lemma first_n_all: "finite A \<Longrightarrow> card A \<le> n \<Longrightarrow> first_n n A = A"
  by (simp add: first_n_def)

lemma finite_first_n [simp]: "finite (first_n n A)"
  by (simp add: first_n_def)

text \<open>Truncation keeps the smallest members.\<close>

lemma first_n_least:
  assumes "finite A" "x \<in> first_n n A" "y \<in> A" "y \<notin> first_n n A"
  shows "x < y"
proof -
  let ?L = "sorted_list_of_set A"
  have L: "sorted (take n ?L @ drop n ?L)" "distinct (take n ?L @ drop n ?L)"
    by simp_all
  have "set ?L = set (take n ?L) \<union> set (drop n ?L)"
    by (metis append_take_drop_id set_append)
  then have y: "y \<in> set (drop n ?L)"
    using assms by (auto simp: first_n_def)
  have x: "x \<in> set (take n ?L)"
    using assms(2) by (simp add: first_n_def)
  have "x \<le> y"
    using L(1) x y unfolding sorted_append by blast
  moreover have "x \<noteq> y"
    using L(2) x y unfolding distinct_append by blast
  ultimately show ?thesis by simp
qed

lemma first_n_Min:
  assumes "finite A" "x \<in> A" "\<forall>y \<in> A. x \<le> y" "0 < n"
  shows "x \<in> first_n n A"
proof (rule ccontr)
  assume x: "x \<notin> first_n n A"
  have "card (first_n n A) > 0"
    using assms card_gt_0_iff [of A] by (auto simp: card_first_n)
  then obtain z where z: "z \<in> first_n n A" by (auto simp: card_gt_0_iff)
  then show False
    using first_n_least [OF assms(1) z assms(2) x] assms(3) first_n_subset [OF assms(1), of n] by force
qed

section \<open>Folding insertions over a list\<close>

lemma fold_insert_if:
  "fold (\<lambda>x A. if P x then insert (f x) A else A) xs A = A \<union> f ` {x \<in> set xs. P x}"
  by (induction xs arbitrary: A) auto

lemma fold_idle: "(\<And>x. x \<in> set xs \<Longrightarrow> f x s = s) \<Longrightarrow> fold f xs s = s"
  by (induction xs) auto

lemma fold_union: "fold (\<lambda>x A. A \<union> f x) xs A = A \<union> (\<Union>x \<in> set xs. f x)"
  by (induction xs arbitrary: A) auto

end
