(* ===== verification/Psi_Crc.thy ===== *)
theory Psi_Crc
  imports Satip_Prelude
begin

text \<open>
  The checksum of \<^verbatim>\<open>src/psi.cpp\<close>: the table filled by \<^verbatim>\<open>crc32_init\<close> and the byte-wise loop of
  \<^verbatim>\<open>crc32_calc\<close> on 32-bit words. The table-driven loop is proved equal to the bit-serial
  CRC of the MPEG-2 systems standard, a section followed by its checksum is proved to give 0
  (the test \<^verbatim>\<open>handleSection\<close> relies on), and a section with one corrupted byte never does.
\<close>

section \<open>The table and the loop\<close>

text \<open>The body of the inner loop of \<^verbatim>\<open>crc32_init\<close>.\<close>

definition crc_shift :: "u32 \<Rightarrow> u32" where
  "crc_shift k = (if k AND 0x80000000 \<noteq> 0 then push_bit 1 k XOR 0x04c11db7 else push_bit 1 k)"

definition crc32_init :: "u32 list" where
  "crc32_init = map (\<lambda>i. (crc_shift ^^ 8) (push_bit 24 (word_of_nat i))) [0..<256]"

definition crc32_index :: "u32 \<Rightarrow> u8 \<Rightarrow> nat" where
  "crc32_index crc b = unat ((drop_bit 24 crc XOR ucast b) AND 0xff)"

fun crc32_loop :: "u32 \<Rightarrow> u8 list \<Rightarrow> u32" where
  "crc32_loop crc [] = crc"
| "crc32_loop crc (b # bs) = crc32_loop (push_bit 8 crc XOR crc32_init ! crc32_index crc b) bs"

definition crc32_calc :: "u8 list \<Rightarrow> u32" where
  "crc32_calc data = crc32_loop 0xffffffff data"

section \<open>The bit-serial reference\<close>

text \<open>
  Reference: every message bit, most significant first, is added to the top of the register,
  which is then shifted, subtracting the generator polynomial when a one falls out.
\<close>

fun crc_bits :: "u32 \<Rightarrow> bool list \<Rightarrow> u32" where
  "crc_bits r [] = r"
| "crc_bits r (x # xs) =
     crc_bits (if bit r 31 \<noteq> x then push_bit 1 r XOR 0x04c11db7 else push_bit 1 r) xs"

definition bits_of_byte :: "u8 \<Rightarrow> bool list" where
  "bits_of_byte b = map (bit b) [7, 6, 5, 4, 3, 2, 1, 0]"

definition crc_reference :: "u8 list \<Rightarrow> u32" where
  "crc_reference data = crc_bits 0xffffffff (concat (map bits_of_byte data))"

section \<open>Linearity of the shift step\<close>

lemma msb_test: "(k AND 0x80000000 \<noteq> 0) \<longleftrightarrow> bit (k :: u32) 31"
proof -
  have "(0x80000000 :: u32) = push_bit 31 1" by simp
  then show ?thesis
    using and_exp_eq_0_iff_not_bit [of k 31] by simp
qed

lemma crc_shift_bit: "crc_shift k = (if bit k 31 then push_bit 1 k XOR 0x04c11db7 else push_bit 1 k)"
  by (simp add: crc_shift_def msb_test)

lemma push_bit_xor_word: "push_bit n (a XOR b) = push_bit n a XOR push_bit n (b :: 'a::len word)"
  by (rule bit_word_eqI) (auto simp: bit_simps)

lemma crc_shift_xor: "crc_shift (a XOR b) = crc_shift a XOR crc_shift b"
  by (auto simp: crc_shift_bit push_bit_xor_word bit_xor_iff xor.assoc xor.left_commute xor.commute)

lemma crc_shift_0 [simp]: "crc_shift 0 = 0"
  by (simp add: crc_shift_def)

lemma crc_shift_pow_xor: "(crc_shift ^^ n) (a XOR b) = (crc_shift ^^ n) a XOR (crc_shift ^^ n) b"
  by (induction n) (simp_all add: crc_shift_xor)

lemma crc_shift_pow_0 [simp]: "(crc_shift ^^ n) 0 = 0"
  by (induction n) simp_all

text \<open>Shifting a value whose top bits are zero only moves it.\<close>

lemma crc_shift_pow_low:
  "\<forall>i. 32 - n \<le> i \<and> i < 32 \<longrightarrow> \<not> bit k i \<Longrightarrow> n \<le> 32 \<Longrightarrow> (crc_shift ^^ n) k = push_bit n k"
proof (induction n)
  case 0
  then show ?case by simp
next
  case (Suc n)
  have "\<forall>i. 32 - n \<le> i \<and> i < 32 \<longrightarrow> \<not> bit k i" using Suc.prems by auto
  then have "(crc_shift ^^ n) k = push_bit n k" using Suc by simp
  moreover have "\<not> bit (push_bit n k) 31"
    using Suc.prems by (simp add: bit_push_bit_iff)
  then have "crc_shift (push_bit n k) = push_bit (Suc n) k"
    using crc_shift_bit [of "push_bit n k"] by (simp add: push_bit_push_bit)
  ultimately show ?case by simp
qed

lemma crc_shift_inj: "crc_shift k = 0 \<Longrightarrow> k = 0"
proof (rule bit_word_eqI)
  fix i :: nat
  assume k: "crc_shift k = 0" and i: "i < LENGTH(32)"
  have "bit (crc_shift k) 0 = bit k 31"
    by (simp add: crc_shift_bit bit_0 even_xor_iff)
  then have "\<not> bit k 31" using k by simp
  then have "push_bit 1 k = 0" using k by (simp add: crc_shift_bit)
  then have "\<not> bit (push_bit 1 k) (Suc i)" by simp
  then have "\<not> bit k i" if "i < 31" using that unfolding bit_push_bit_iff by simp
  then show "bit k i = bit 0 i"
    using i \<open>\<not> bit k 31\<close> by (cases "i = 31") auto
qed

lemma crc_shift_pow_inj: "(crc_shift ^^ n) k = 0 \<Longrightarrow> k = 0"
  by (induction n) (auto dest: crc_shift_inj)


section \<open>Table-driven and bit-serial computation agree\<close>

definition crc_byte :: "u32 \<Rightarrow> u8 \<Rightarrow> u32" where
  "crc_byte crc b = push_bit 8 crc XOR crc32_init ! crc32_index crc b"

lemma crc32_loop_step: "crc32_loop crc (b # bs) = crc32_loop (crc_byte crc b) bs"
  by (simp add: crc_byte_def)

lemma crc32_loop_append: "crc32_loop crc (xs @ ys) = crc32_loop (crc32_loop crc xs) ys"
  by (induction xs arbitrary: crc) simp_all

lemma crc32_index_less: "crc32_index crc b < 256"
proof -
  have "unat ((drop_bit 24 crc XOR ucast b) AND (0xff :: u32)) \<le> unat (0xff :: u32)"
    by (intro word_le_nat_alt [THEN iffD1] word_and_le1)
  then show ?thesis by (simp add: crc32_index_def)
qed

lemma crc32_table_entry:
  "crc32_init ! crc32_index crc b = (crc_shift ^^ 8) (push_bit 24 (drop_bit 24 crc XOR ucast b))"
proof -
  have low: "x AND 0xff = take_bit 8 x" for x :: u32
    by (simp add: take_bit_eq_mask mask_eq_exp_minus_1)
  have *: "push_bit 24 (x AND 0xff) = push_bit 24 x" for x :: u32
    unfolding low by (rule bit_word_eqI) (auto simp: bit_push_bit_iff bit_take_bit_iff)
  have "crc32_init ! crc32_index crc b =
    (crc_shift ^^ 8) (push_bit 24 ((drop_bit 24 crc XOR ucast b) AND 0xff))"
    using crc32_index_less [of crc b] by (simp add: crc32_init_def crc32_index_def)
  then show ?thesis by (simp only: *)
qed

lemma crc_byte_shift: "crc_byte crc b = (crc_shift ^^ 8) (crc XOR push_bit 24 (ucast b))"
proof -
  let ?t = "push_bit 24 (drop_bit 24 crc XOR ucast b) :: u32"
  have split: "crc XOR push_bit 24 (ucast b) = ?t XOR (crc AND mask 24)"
    by (rule bit_word_eqI) (auto simp: bit_simps)
  have low: "(crc_shift ^^ 8) (crc AND mask 24) = push_bit 8 (crc AND mask 24)"
    by (rule crc_shift_pow_low) (auto simp: bit_simps)
  have same: "push_bit 8 (crc AND mask 24) = push_bit 8 crc"
    by (rule bit_word_eqI) (auto simp: bit_simps)
  show ?thesis
    unfolding crc_byte_def crc32_table_entry split crc_shift_pow_xor low same
    by (simp only: xor.commute)
qed

lemma crc_bits_append: "crc_bits r (xs @ ys) = crc_bits (crc_bits r xs) ys"
  by (induction xs arbitrary: r) simp_all

text \<open>Adding a bit to the top of the register and shifting is one step of the serial loop.\<close>

lemma crc_bits_step:
  "crc_bits r [x] = crc_shift (r XOR (if x then push_bit 31 1 else 0))"
proof (cases x)
  case True
  have "crc_shift (push_bit 31 1) = 0x04c11db7"
    by (simp add: crc_shift_def)
  then show ?thesis
    using True by (simp add: crc_shift_xor crc_shift_bit [of r] xor.assoc)
qed (simp add: crc_shift_bit)

lemma crc_bits_prefix:
  assumes "n \<le> 8"
  shows "crc_bits r (map (\<lambda>j. bit b (7 - j)) [0..<n]) =
    (crc_shift ^^ n) (r XOR (push_bit 24 (ucast b) AND push_bit (32 - n) (mask n)))"
  using assms
proof (induction n)
  case 0
  then show ?case by simp
next
  case (Suc n)
  let ?m = "\<lambda>n. push_bit 24 (ucast b) AND push_bit (32 - n) (mask n) :: u32"
  let ?x = "if bit b (7 - n) then push_bit (31 - n) 1 else 0 :: u32"
  have grow: "?m (Suc n) = ?m n XOR ?x"
  proof (rule bit_word_eqI)
    fix i :: nat assume i: "i < LENGTH(32)"
    have m: "bit (?m k) i \<longleftrightarrow> 24 \<le> i \<and> bit b (i - 24) \<and> 32 - k \<le> i" if "k \<le> 8" for k
      using i that by (auto simp: bit_simps)
    have x: "bit ?x i \<longleftrightarrow> bit b (7 - n) \<and> i = 31 - n"
      using i Suc.prems by (auto simp: bit_simps)
    show "bit (?m (Suc n)) i = bit (?m n XOR ?x) i"
      using m [of n] m [of "Suc n"] Suc.prems unfolding bit_xor_iff x
      by (cases "i = 31 - n") auto
  qed
  have "\<not> bit ?x i" if "32 - n \<le> i" "i < 32" for i
    using that Suc.prems by (auto simp: bit_simps)
  then have "(crc_shift ^^ n) ?x = push_bit n ?x"
    using Suc.prems by (intro crc_shift_pow_low) auto
  then have top: "(crc_shift ^^ n) ?x = (if bit b (7 - n) then push_bit 31 1 else 0)"
  proof -
    have "push_bit n (push_bit (31 - n) (1 :: u32)) = push_bit 31 1"
      using Suc.prems unfolding push_bit_push_bit by simp
    then show ?thesis
      using \<open>(crc_shift ^^ n) ?x = push_bit n ?x\<close> by (cases "bit b (7 - n)") simp_all
  qed
  have "crc_bits r (map (\<lambda>j. bit b (7 - j)) [0..<Suc n]) =
    crc_shift ((crc_shift ^^ n) (r XOR ?m n) XOR (crc_shift ^^ n) ?x)"
    using Suc by (simp add: crc_bits_append crc_bits_step top del: crc_bits.simps)
  also have "\<dots> = (crc_shift ^^ Suc n) (r XOR ?m (Suc n))"
    by (simp only: grow funpow.simps comp_apply xor.assoc crc_shift_pow_xor)
  finally show ?case .
qed

lemma crc_bits_byte: "crc_bits r (bits_of_byte b) = crc_byte r b"
proof -
  have "bits_of_byte b = map (\<lambda>j. bit b (7 - j)) [0..<8]"
    by (simp add: bits_of_byte_def upt_rec)
  moreover have "push_bit 24 (ucast b) AND push_bit 24 (mask 8) = (push_bit 24 (ucast b) :: u32)"
    by (rule bit_word_eqI) (auto simp: bit_simps)
  ultimately show ?thesis
    using crc_bits_prefix [of 8 r b] by (simp add: crc_byte_shift)
qed

lemma crc32_loop_bits: "crc32_loop crc data = crc_bits crc (concat (map bits_of_byte data))"
  by (induction data arbitrary: crc)
    (simp_all add: crc32_loop_step crc_bits_append crc_bits_byte del: crc32_loop.simps(2))

text \<open>
  C21. The table-driven checksum computes the bit-serial MPEG-2 CRC-32 (polynomial 0x04c11db7,
  all-ones start value, most significant bit first) on every input.
\<close>

theorem crc32_calc_reference: "crc32_calc data = crc_reference data"
  by (simp add: crc32_calc_def crc_reference_def crc32_loop_bits)


section \<open>What the checksum guarantees\<close>

text \<open>The four checksum bytes a section ends with, most significant first.\<close>

definition crc_bytes :: "u32 \<Rightarrow> u8 list" where
  "crc_bytes c = [ucast (drop_bit 24 c), ucast (drop_bit 16 c), ucast (drop_bit 8 c), ucast c]"

lemma crc_byte_own_top: "b = ucast (drop_bit 24 c) \<Longrightarrow> crc_byte c b = push_bit 8 c"
proof -
  assume b: "b = ucast (drop_bit 24 c)"
  have "c XOR push_bit 24 (ucast b) = c AND mask 24"
    unfolding b by (rule bit_word_eqI) (auto simp: bit_simps)
  moreover have "(crc_shift ^^ 8) (c AND mask 24) = push_bit 8 (c AND mask 24)"
    by (rule crc_shift_pow_low) (auto simp: bit_simps)
  moreover have "push_bit 8 (c AND mask 24) = push_bit 8 c"
    by (rule bit_word_eqI) (auto simp: bit_simps)
  ultimately show ?thesis by (simp add: crc_byte_shift)
qed

lemma crc32_loop_own_bytes: "crc32_loop c (crc_bytes c) = 0"
proof -
  have t: "ucast (drop_bit 16 c) = (ucast (drop_bit 24 (push_bit 8 c)) :: u8)"
    "ucast (drop_bit 8 c) = (ucast (drop_bit 24 (push_bit 8 (push_bit 8 c))) :: u8)"
    "ucast c = (ucast (drop_bit 24 (push_bit 8 (push_bit 8 (push_bit 8 c)))) :: u8)"
    by (rule bit_word_eqI; auto simp: bit_simps)+
  have "push_bit 8 (push_bit 8 (push_bit 8 (push_bit 8 c))) = 0"
    by (rule bit_word_eqI) (auto simp: bit_simps)
  then show ?thesis
    unfolding crc_bytes_def crc32_loop_step t crc_byte_own_top [OF refl] by simp
qed

text \<open>
  A section followed by its checksum, most significant byte first, has checksum 0: the
  acceptance test of \<^verbatim>\<open>handleSection\<close> accepts every intact section.
\<close>

theorem crc32_residue: "crc32_calc (data @ crc_bytes (crc32_calc data)) = 0"
  by (simp add: crc32_calc_def crc32_loop_append crc32_loop_own_bytes)

lemma crc_byte_xor: "crc_byte (a XOR c) b = crc_byte a b XOR (crc_shift ^^ 8) c"
  unfolding crc_byte_shift crc_shift_pow_xor by (simp only: xor.assoc xor.commute xor.left_commute)

lemma crc32_loop_xor:
  "crc32_loop (a XOR c) data = crc32_loop a data XOR (crc_shift ^^ (8 * length data)) c"
proof (induction data arbitrary: a c)
  case (Cons b data)
  have "8 * length (b # data) = 8 * length data + 8" by simp
  then have "(crc_shift ^^ (8 * length (b # data))) c =
    (crc_shift ^^ (8 * length data)) ((crc_shift ^^ 8) c)"
    by (simp only: funpow_add comp_apply)
  with Cons show ?case by (simp only: crc32_loop_step crc_byte_xor)
qed simp

lemma crc_byte_diff:
  assumes "b \<noteq> b'"
  obtains d where "d \<noteq> 0" "crc_byte a b' = crc_byte a b XOR d"
proof -
  define e :: u32 where "e = push_bit 24 (ucast b XOR ucast b')"
  have "bit b i = bit b' i" if "e = 0" "i < LENGTH(8)" for i
  proof -
    have "\<not> bit e (i + 24)" using that by simp
    then show ?thesis
      using that(2) unfolding e_def bit_push_bit_iff bit_xor_iff by (simp add: bit_simps)
  qed
  then have "e \<noteq> 0"
    using assms bit_word_eqI [of b b'] by auto
  then have "(crc_shift ^^ 8) e \<noteq> 0"
    using crc_shift_pow_inj by blast
  moreover have "a XOR push_bit 24 (ucast b') = (a XOR push_bit 24 (ucast b)) XOR e"
    unfolding e_def push_bit_xor_word
    by (simp add: xor.assoc)
  then have "crc_byte a b' = crc_byte a b XOR (crc_shift ^^ 8) e"
    unfolding crc_byte_shift by (simp only: crc_shift_pow_xor)
  ultimately show ?thesis using that by blast
qed

text \<open>
  C22. One corrupted byte is always detected: if a byte string has checksum 0, then replacing
  any single byte of it by a different value gives a non-zero checksum.
\<close>

theorem crc32_detects_byte_error:
  assumes "crc32_calc data = 0" "i < length data" "b \<noteq> data ! i"
  shows "crc32_calc (data[i := b]) \<noteq> 0"
proof -
  let ?a = "crc32_loop 0xffffffff (take i data)"
  obtain d where d: "d \<noteq> 0" "crc_byte ?a b = crc_byte ?a (data ! i) XOR d"
    using crc_byte_diff [of "data ! i" b ?a] assms(3) by metis
  have "data = take i data @ data ! i # drop (Suc i) data"
    using assms(2) by (rule id_take_nth_drop)
  then have old: "crc32_calc data = crc32_loop (crc_byte ?a (data ! i)) (drop (Suc i) data)"
    by (metis crc32_calc_def crc32_loop_append crc32_loop_step)
  have "data[i := b] = take i data @ b # drop (Suc i) data"
    using assms(2) by (rule upd_conv_take_nth_drop)
  then have "crc32_calc (data[i := b]) = crc32_loop (crc_byte ?a b) (drop (Suc i) data)"
    by (simp only: crc32_calc_def crc32_loop_append crc32_loop_step)
  also have "\<dots> = (crc_shift ^^ (8 * length (drop (Suc i) data))) d"
    using old assms(1) by (simp only: d(2) crc32_loop_xor xor.left_neutral)
  finally show ?thesis using crc_shift_pow_inj d(1) by metis
qed

text \<open>
  The witness corrupts one byte of the 12-byte section of a program association table that
  lists no program.
\<close>

definition empty_pat_section :: "u8 list" where
  "empty_pat_section = [0x00, 0xb0, 0x09, 0x00, 0x01, 0xc1, 0x00, 0x00]"

theorem crc32_detects_byte_error_witness:
  "crc32_calc ((empty_pat_section @ crc_bytes (crc32_calc empty_pat_section))[4 := 0x21]) \<noteq> 0"
  by (rule crc32_detects_byte_error)
    (simp_all add: crc32_calc_def crc32_loop_append crc32_loop_own_bytes,
     simp_all add: empty_pat_section_def crc_bytes_def)

end
