(* ===== verification/Psi_Sections.thy ===== *)
theory Psi_Sections
  imports Satip_Prelude
begin

text \<open>
  Section reassembly: \<^verbatim>\<open>section_assembler\<close> of \<^verbatim>\<open>src/psi.h\<close> and the loop of
  \<^verbatim>\<open>satipPSI::feed\<close> in \<^verbatim>\<open>src/psi.cpp\<close>. The loop hands every completed section to a sink; the
  locale \<open>section_sink\<close> is what the loop needs of it, and the parser interprets it with
  \<^verbatim>\<open>handleSection\<close>. Shown: no write leaves the 4096 byte buffer and the loop keeps the
  assembler's invariant, and a section cut into any packet payloads reaches the sink exactly
  once and intact.
\<close>

section \<open>The assembler and its loop\<close>

definition PSI_MAX_SECTION_LEN :: nat where
  "PSI_MAX_SECTION_LEN = 4096"

text \<open>
  \<open>sa_data\<close> is the part \<^verbatim>\<open>data[0] .. data[len-1]\<close> of the buffer that has been written, so
  \<^verbatim>\<open>len\<close> is its length.
\<close>

record section_assembler =
  sa_data :: "u8 list"
  sa_expected :: nat

definition sa_init :: section_assembler where
  "sa_init = \<lparr>sa_data = [], sa_expected = 0\<rparr>"

text \<open>A store behind the collected bytes; \<open>None\<close> when it would leave the array.\<close>

definition sa_store :: "section_assembler \<Rightarrow> u8 list \<Rightarrow> section_assembler option" where
  "sa_store sa bs =
     (if length (sa_data sa) + length bs \<le> PSI_MAX_SECTION_LEN
      then Some (sa\<lparr>sa_data := sa_data sa @ bs\<rparr>) else None)"

text \<open>
  The while loop of \<^verbatim>\<open>feed\<close>; \<open>buf\<close> is what is left of the payload, \<open>sa\<close> the assembler
  reference. A \<^verbatim>\<open>memcpy\<close> with a negative size is a fault.
\<close>

function feed_loop ::
  "(u8 list \<Rightarrow> 's \<Rightarrow> 's option) \<Rightarrow> bool \<Rightarrow> u8 list \<Rightarrow> section_assembler \<Rightarrow> 's \<Rightarrow>
   (section_assembler \<times> 's) option" where
  "feed_loop handle allow_start buf sa s =
     (if buf = [] then Some (sa, s)
      else if sa_expected sa = 0 then
        if sa_data sa = [] \<and> (\<not> allow_start \<or> hd buf = 0xff) then Some (sa, s)
        else
          (case sa_store sa [hd buf] of None \<Rightarrow> None
           | Some sa1 \<Rightarrow>
               if length (sa_data sa1) < 3 then feed_loop handle allow_start (tl buf) sa1 s
               else
                 (let section_length = len12 (sa_data sa1 ! 1) (sa_data sa1 ! 2) in
                  if section_length < 9 \<or> section_length + 3 > int PSI_MAX_SECTION_LEN
                  then Some (sa1\<lparr>sa_data := []\<rparr>, s)
                  else feed_loop handle allow_start (tl buf)
                         (sa1\<lparr>sa_expected := nat section_length + 3\<rparr>) s))
      else
        (let need = int (sa_expected sa) - int (length (sa_data sa));
             n = (if int (length buf) < need then int (length buf) else need) in
         if n < 0 then None
         else
           (case sa_store sa (take (nat n) buf) of None \<Rightarrow> None
            | Some sa1 \<Rightarrow>
                if length (sa_data sa1) = sa_expected sa1
                then (case handle (sa_data sa1) s of None \<Rightarrow> None
                      | Some s1 \<Rightarrow>
                          feed_loop handle allow_start (drop (nat n) buf)
                            (sa1\<lparr>sa_data := [], sa_expected := 0\<rparr>) s1)
                else feed_loop handle allow_start (drop (nat n) buf) sa1 s)))"
  by pat_completeness auto
termination
proof (relation "measure (\<lambda>(handle, allow_start, buf, sa, s).
    2 * length buf + (if sa_expected sa = 0 then 0 else 1))", goal_cases)
  case 1
  then show ?case by simp
next
  case (2 handle allow_start buf sa s sa1)
  then show ?case by (cases buf) (auto simp: sa_store_def split: if_splits)
next
  case (3 handle allow_start buf sa s sa1 section_length)
  then show ?case by (cases buf) (auto simp: sa_store_def split: if_splits)
next
  case (4 handle allow_start buf sa s need n sa1 s1)
  then show ?case by (auto simp: sa_store_def split: if_splits)
next
  case (5 handle allow_start buf sa s need n sa1)
  then show ?case by (cases buf) (auto simp: sa_store_def split: if_splits)
qed

declare feed_loop.simps [simp del]

section \<open>The assembler's invariant\<close>

definition sa_ok :: "section_assembler \<Rightarrow> bool" where
  "sa_ok sa \<longleftrightarrow>
     (if sa_expected sa = 0 then length (sa_data sa) < 3
      else 12 \<le> sa_expected sa \<and> sa_expected sa \<le> PSI_MAX_SECTION_LEN \<and>
           3 \<le> length (sa_data sa) \<and> length (sa_data sa) < sa_expected sa)"

lemma sa_ok_init [simp]: "sa_ok sa_init"
  by (simp add: sa_ok_def sa_init_def)

text \<open>
  What the loop needs of the receiver of completed sections: on every section the assembler
  can produce it succeeds and keeps its own state in order.
\<close>

locale section_sink =
  fixes handle :: "u8 list \<Rightarrow> 's \<Rightarrow> 's option"
    and ok :: "'s \<Rightarrow> bool"
  assumes handle_ok: "ok s \<Longrightarrow> 12 \<le> length sec \<Longrightarrow> length sec \<le> PSI_MAX_SECTION_LEN \<Longrightarrow>
    \<exists>s'. handle sec s = Some s' \<and> ok s'"
begin

lemma feed_loop_safe:
  "sa_ok sa \<Longrightarrow> ok s \<Longrightarrow>
   \<exists>sa' s'. feed_loop handle allow_start buf sa s = Some (sa', s') \<and> sa_ok sa' \<and> ok s'"
proof (induction h \<equiv> handle allow_start buf sa s rule: feed_loop.induct)
  case (1 allow_start buf sa s)
  note step = feed_loop.simps [of handle allow_start buf sa s]
  consider (idle) "buf = [] \<or> sa_expected sa = 0 \<and> sa_data sa = [] \<and> (\<not> allow_start \<or> hd buf = 0xff)"
    | (header) "buf \<noteq> []" "sa_expected sa = 0" "\<not> (sa_data sa = [] \<and> (\<not> allow_start \<or> hd buf = 0xff))"
    | (body) "buf \<noteq> []" "sa_expected sa \<noteq> 0"
    by blast
  then show ?case
  proof cases
    case idle
    then show ?thesis using 1 by (auto simp: step)
  next
    case header
    define sa1 where "sa1 = sa\<lparr>sa_data := sa_data sa @ [hd buf]\<rparr>"
    have store: "sa_store sa [hd buf] = Some sa1"
      using header 1 by (auto simp: sa_store_def sa1_def sa_ok_def PSI_MAX_SECTION_LEN_def)
    have sa1: "sa_expected sa1 = 0" "length (sa_data sa1) = Suc (length (sa_data sa))"
      "length (sa_data sa) < 3"
      using header 1 by (auto simp: sa1_def sa_ok_def)
    show ?thesis
    proof (cases "length (sa_data sa1) < 3")
      case True
      then show ?thesis
        using 1 header store sa1 by (simp add: step sa_ok_def)
    next
      case False
      let ?l = "len12 (sa_data sa1 ! 1) (sa_data sa1 ! 2)"
      have drop: "sa_ok (sa1\<lparr>sa_data := []\<rparr>)" using sa1 by (simp add: sa_ok_def)
      have go: "sa_ok (sa1\<lparr>sa_expected := nat ?l + 3\<rparr>)"
        if "\<not> (?l < 9 \<or> ?l + 3 > int PSI_MAX_SECTION_LEN)"
        using that sa1 False by (auto simp: sa_ok_def)
      show ?thesis
        using 1 header store False drop go by (auto simp: step Let_def)
    qed
  next
    case body
    let ?need = "int (sa_expected sa) - int (length (sa_data sa))"
    let ?n = "if int (length buf) < ?need then int (length buf) else ?need"
    define sa1 where "sa1 = sa\<lparr>sa_data := sa_data sa @ take (nat ?n) buf\<rparr>"
    have n: "\<not> ?n < 0" "?n \<le> ?need" "nat ?n \<le> length buf"
      using body 1 by (auto simp: sa_ok_def)
    have len: "length (sa_data sa1) \<le> sa_expected sa" "3 \<le> length (sa_data sa1)"
      using n body 1 by (auto simp: sa1_def sa_ok_def)
    have store: "sa_store sa (take (nat ?n) buf) = Some sa1"
      using body 1 len by (auto simp: sa_store_def sa1_def sa_ok_def)
    have e: "sa_expected sa1 = sa_expected sa" by (simp add: sa1_def)
    show ?thesis
    proof (cases "length (sa_data sa1) = sa_expected sa1")
      case True
      then obtain s1 where s1: "handle (sa_data sa1) s = Some s1" "ok s1"
        using handle_ok [of s "sa_data sa1"] 1 body e by (auto simp: sa_ok_def)
      have "sa_ok (sa1\<lparr>sa_data := [], sa_expected := 0\<rparr>)" by (simp add: sa_ok_def)
      then show ?thesis
        using "1.hyps"(3) [OF body refl refl n(1) store True s1(1)] s1(2) body n(1) store True s1(1)
        by (simp only: step Let_def if_False option.case if_True simp_thms)
    next
      case False
      then have "sa_ok sa1" using len e 1 body by (auto simp: sa_ok_def)
      then show ?thesis
        using "1.hyps"(4) [OF body refl refl n(1) store False] "1.prems"(2) body n(1) store False
        by (simp only: step Let_def if_False option.case if_True simp_thms)
    qed
  qed
qed

end

section \<open>Reassembly\<close>

text \<open>
  A section on the wire: long enough, its length field consistent with its size, and not
  starting with the stuffing byte.
\<close>

definition wf_section :: "u8 list \<Rightarrow> bool" where
  "wf_section sec \<longleftrightarrow> 12 \<le> length sec \<and> length sec \<le> PSI_MAX_SECTION_LEN \<and>
     sec ! 0 \<noteq> 0xff \<and> len12 (sec ! 1) (sec ! 2) + 3 = int (length sec)"

text \<open>The assembler after it has collected the prefix \<open>p\<close> of the section \<open>sec\<close>.\<close>

definition collected :: "u8 list \<Rightarrow> u8 list \<Rightarrow> section_assembler" where
  "collected sec p = \<lparr>sa_data = p, sa_expected = (if length p < 3 then 0 else length sec)\<rparr>"

lemma collected_Nil [simp]: "collected sec [] = sa_init"
  by (simp add: collected_def sa_init_def)

text \<open>One byte of the three byte header.\<close>

lemma feed_header_byte:
  assumes "wf_section sec" "sec = p @ b # q" "length p < 3" "p \<noteq> [] \<or> allow_start"
  shows "feed_loop handle allow_start (b # rest) (collected sec p) s =
    feed_loop handle allow_start rest (collected sec (p @ [b])) s"
proof -
  have b: "b \<noteq> 0xff" if "p = []"
    using assms that by (simp add: wf_section_def)
  have store: "sa_store (collected sec p) [b] = Some \<lparr>sa_data = p @ [b], sa_expected = 0\<rparr>"
    using assms(3) by (simp add: sa_store_def collected_def PSI_MAX_SECTION_LEN_def)
  show ?thesis
  proof (cases "length p = 2")
    case True
    have "(p @ [b]) ! 1 = sec ! 1" "(p @ [b]) ! 2 = sec ! 2"
      using True assms(2) by (simp_all add: nth_append)
    then have l: "len12 ((p @ [b]) ! 1) ((p @ [b]) ! 2) + 3 = int (length sec)"
      using assms(1) by (simp add: wf_section_def)
    then have "nat (len12 ((p @ [b]) ! 1) ((p @ [b]) ! 2)) + 3 = length sec"
      using len12_range [of "(p @ [b]) ! 1" "(p @ [b]) ! 2"] by linarith
    with l show ?thesis
      using True assms(1,3,4) b store
      by (subst feed_loop.simps)
        (auto simp: collected_def wf_section_def Let_def)
  next
    case False
    then show ?thesis
      using assms(3,4) b store by (subst feed_loop.simps) (auto simp: collected_def)
  qed
qed

text \<open>The body is taken in one piece per payload.\<close>

lemma feed_body:
  assumes "wf_section sec" "sec = p @ q @ r" "3 \<le> length p" "q \<noteq> []"
  shows "feed_loop handle allow_start (q @ rest) (collected sec p) s =
    (if r = [] then
       (case handle sec s of None \<Rightarrow> None | Some s1 \<Rightarrow> feed_loop handle allow_start rest sa_init s1)
     else if rest = [] then Some (collected sec (p @ q), s)
     else feed_loop handle allow_start (q @ rest) (collected sec p) s)"
proof -
  have data: "sa_store (collected sec p) q = Some (collected sec (p @ q))"
    using assms by (auto simp: sa_store_def collected_def wf_section_def)
  have pos: "sa_expected (collected sec p) \<noteq> 0"
    using assms by (auto simp: collected_def wf_section_def)
  show ?thesis
  proof (cases "r = []")
    case True
    then have "int (length sec) - int (length p) = int (length q)"
      using assms(2) by simp
    then show ?thesis
      using True assms(2-4) data pos
      by (subst feed_loop.simps)
        (auto simp: collected_def sa_init_def Let_def split: option.splits)
  next
    case False
    have "feed_loop handle allow_start q (collected sec p) s = Some (collected sec (p @ q), s)"
      using False assms(2-4) data pos
      by (subst feed_loop.simps)
        (auto simp: collected_def Let_def feed_loop.simps [of _ _ "[]"])
    with False show ?thesis by simp
  qed
qed

text \<open>A payload that ends inside the section is collected, one that completes it delivers it.\<close>

lemma feed_partial:
  assumes "wf_section sec" "sec = p @ q @ r" "r \<noteq> []" "p \<noteq> [] \<or> allow_start"
  shows "feed_loop handle allow_start q (collected sec p) s = Some (collected sec (p @ q), s)"
  using assms(2,4)
proof (induction q arbitrary: p)
  case Nil
  then show ?case by (simp add: feed_loop.simps)
next
  case (Cons b q)
  show ?case
  proof (cases "length p < 3")
    case True
    then show ?thesis
      using feed_header_byte [OF assms(1) _ True, of b "q @ r" allow_start handle q s]
        Cons.IH [of "p @ [b]"] Cons.prems
      by simp
  next
    case False
    then show ?thesis
      using feed_body [OF assms(1), of p "b # q" r handle allow_start "[]" s] Cons.prems assms(3)
      by simp
  qed
qed

lemma feed_complete:
  assumes "wf_section sec" "sec = p @ q" "q \<noteq> []" "p \<noteq> [] \<or> allow_start"
  shows "feed_loop handle allow_start (q @ rest) (collected sec p) s =
    (case handle sec s of None \<Rightarrow> None | Some s1 \<Rightarrow> feed_loop handle allow_start rest sa_init s1)"
  using assms(2-4)
proof (induction q arbitrary: p)
  case (Cons b q)
  show ?case
  proof (cases "length p < 3")
    case True
    then have "q \<noteq> []"
      using assms(1) Cons.prems(1) by (auto simp: wf_section_def)
    then show ?thesis
      using feed_header_byte [OF assms(1) _ True, of b q allow_start handle "q @ rest" s]
        Cons.IH [of "p @ [b]"] Cons.prems by simp
  next
    case False
    then show ?thesis
      using feed_body [OF assms(1), of p "b # q" "[]" handle allow_start rest s] Cons.prems by simp
  qed
qed simp

lemma feed_loop_idle:
  "rest = [] \<or> \<not> allow_start \<or> hd rest = 0xff \<Longrightarrow>
   feed_loop handle allow_start rest sa_init s = Some (sa_init, s)"
  by (subst feed_loop.simps) (auto simp: sa_init_def)

text \<open>A complete section, the smallest a service announces.\<close>

definition empty_new_section :: "u8 list" where
  "empty_new_section = [0x00, 0xb0, 0x09, 0x00, 0x01, 0xc1, 0x00, 0x00, 0x11, 0x22, 0x33, 0x44]"

text \<open>Payloads of consecutive packets: the first starts a unit, the others continue it.\<close>

fun feed_payloads ::
  "(u8 list \<Rightarrow> 's \<Rightarrow> 's option) \<Rightarrow> bool \<Rightarrow> u8 list list \<Rightarrow> section_assembler \<Rightarrow> 's \<Rightarrow>
   (section_assembler \<times> 's) option" where
  "feed_payloads handle start [] sa s = Some (sa, s)"
| "feed_payloads handle start (c # cs) sa s =
     (case feed_loop handle start c sa s of None \<Rightarrow> None
      | Some (sa1, s1) \<Rightarrow> feed_payloads handle False cs sa1 s1)"

lemma feed_payloads_collect:
  assumes "wf_section sec" "sec = p @ concat cs @ last_part" "last_part \<noteq> []" "p \<noteq> []"
    and "stuffing = [] \<or> hd stuffing = 0xff"
  shows "feed_payloads handle False (cs @ [last_part @ stuffing]) (collected sec p) s =
    (case handle sec s of None \<Rightarrow> None | Some s1 \<Rightarrow> Some (sa_init, s1))"
  using assms(2,4)
proof (induction cs arbitrary: p)
  case Nil
  then show ?case
    using feed_complete [OF assms(1), of p last_part False handle stuffing s] assms(3,5)
    by (auto simp: feed_loop_idle split: option.splits)
next
  case (Cons c cs)
  then show ?case
    using feed_partial [OF assms(1), of p c "concat cs @ last_part" False handle s] assms(3)
    by simp
qed

text \<open>
  C20. Reassembly: a section cut into the payloads of any number of packets (the first of them
  starting the unit and not empty, the last one padded with stuffing) is delivered to the
  section handler exactly once, complete and in order, and leaves the assembler idle.
\<close>

theorem feed_reassembles:
  assumes "wf_section sec" "sec = concat cs @ last_part" "last_part \<noteq> []"
    and "cs \<noteq> [] \<longrightarrow> hd cs \<noteq> []" "stuffing = [] \<or> hd stuffing = 0xff"
  shows "feed_payloads handle True (cs @ [last_part @ stuffing]) sa_init s =
    (case handle sec s of None \<Rightarrow> None | Some s1 \<Rightarrow> Some (sa_init, s1))"
proof (cases cs)
  case Nil
  then show ?thesis
    using feed_complete [OF assms(1), of "[]" last_part True handle stuffing s] assms(2,3,5)
    by (auto simp: feed_loop_idle split: option.splits)
next
  case (Cons c cs')
  then have c: "c \<noteq> []" "sec = c @ concat cs' @ last_part"
    using assms(2,4) by simp_all
  then show ?thesis
    using Cons feed_partial [OF assms(1), of "[]" c "concat cs' @ last_part" True handle s]
      feed_payloads_collect [OF assms(1) c(2) assms(3) c(1) assms(5), of handle s] assms(3)
    by simp
qed

theorem feed_reassembles_witness:
  "feed_payloads (\<lambda>sec l. Some (sec # l)) True
     ([[0x00, 0xb0], [0x09, 0x00, 0x01, 0xc1, 0x00]] @ [[0x00, 0x11, 0x22, 0x33, 0x44] @ [0xff, 0xff]])
     sa_init [] =
   Some (sa_init, [[0x00, 0xb0, 0x09, 0x00, 0x01, 0xc1, 0x00, 0x00, 0x11, 0x22, 0x33, 0x44]])"
proof -
  let ?sec = "[0x00, 0xb0, 0x09, 0x00, 0x01, 0xc1, 0x00, 0x00, 0x11, 0x22, 0x33, 0x44] :: u8 list"
  have wf: "wf_section ?sec"
    by (simp add: wf_section_def PSI_MAX_SECTION_LEN_def len12_arith)
  show ?thesis
    by (subst feed_reassembles [OF wf]) simp_all
qed

text \<open>
  A new unit does not resynchronise the assembler: while a section is incomplete (packets of
  it were lost), the bytes behind a pointer field, which start a new section, are appended to the old one
  as long as they do not fill it, and the handler sees none of them.
\<close>

theorem feed_start_not_resynchronised:
  assumes "sa_ok sa" "sa_expected sa \<noteq> 0" "length (sa_data sa) + length buf < sa_expected sa"
  shows "feed_loop handle True buf sa s = Some (sa\<lparr>sa_data := sa_data sa @ buf\<rparr>, s)"
proof (cases "buf = []")
  case True
  then show ?thesis by (simp add: feed_loop.simps)
next
  case False
  have "sa_store sa (take (length buf) buf) = Some (sa\<lparr>sa_data := sa_data sa @ buf\<rparr>)"
    using assms by (auto simp: sa_store_def sa_ok_def)
  then show ?thesis
    using assms False
    by (subst feed_loop.simps) (auto simp: Let_def feed_loop.simps [of _ _ "[]"])
qed

theorem feed_start_not_resynchronised_witness:
  "feed_loop (\<lambda>sec l. Some (sec # l)) True
     (empty_new_section @ replicate 171 0xff) \<lparr>sa_data = [0x00, 0xb3, 0x00], sa_expected = 0x303\<rparr> [] =
   Some (\<lparr>sa_data = [0x00, 0xb3, 0x00] @ empty_new_section @ replicate 171 0xff, sa_expected = 0x303\<rparr>, [])"
proof -
  have "sa_ok \<lparr>sa_data = [0x00, 0xb3, 0x00], sa_expected = 0x303\<rparr>"
    by (simp add: sa_ok_def PSI_MAX_SECTION_LEN_def)
  from feed_start_not_resynchronised [OF this, of "empty_new_section @ replicate 171 0xff"]
  show ?thesis by (simp add: empty_new_section_def)
qed

end
