(* ===== verification/Psi_Tables.thy ===== *)
theory Psi_Tables
  imports Psi_Crc Psi_Sections
begin

text \<open>
  The table parsers of \<^verbatim>\<open>src/psi.cpp\<close>: \<^verbatim>\<open>collectCaDescriptors\<close>, \<^verbatim>\<open>parsePAT\<close>, \<^verbatim>\<open>parseCAT\<close>,
  \<^verbatim>\<open>parsePMT\<close> and \<^verbatim>\<open>handleSection\<close> on the state of a \<^verbatim>\<open>satipPSI\<close> object. A section is the
  list of its bytes; every read is checked, so \<open>None\<close> stands for a read behind the section.
  Shown: the parsers never read outside a section, keep the invariant of the tables, and set
  the dirty flag whenever the services, the EMM pids or the ECM pids of a service change.
\<close>

section \<open>State\<close>

definition PSI_MAX_DERIVED_PIDS :: nat where "PSI_MAX_DERIVED_PIDS = 32"
definition PSI_PID_PAT :: pid where "PSI_PID_PAT = 0x0000"
definition PSI_PID_CAT :: pid where "PSI_PID_CAT = 0x0001"
definition PSI_PID_NULL :: pid where "PSI_PID_NULL = 0x1fff"

record pmt_info =
  pi_version :: int
  pi_ecm_pids :: pids
  pi_es_pids :: pids

definition pmt_info_init :: pmt_info where
  "pmt_info_init = \<lparr>pi_version = -1, pi_ecm_pids = {}, pi_es_pids = {}\<rparr>"

text \<open>
  The members of \<^verbatim>\<open>satipPSI\<close>; \<open>m_cfg\<close> says whether the pointer to the configuration is set.
  The two section tables are association lists because the code iterates over them.
\<close>

record psi =
  m_cfg :: bool
  m_emm_enabled :: bool
  m_tuner_id :: int
  m_caid_filter :: "int set"
  m_dirty :: bool
  m_joined_pids :: pids
  m_watched_pids :: pids
  m_derived_pids :: pids
  m_pat_version :: int
  m_cat_version :: int
  m_pat_sections :: "(int \<times> pids) list"
  m_cat_sections :: "(int \<times> pids) list"
  m_pat_pmt_pids :: pids
  m_emm_pids :: pids
  m_pmt :: "pid \<rightharpoonup> pmt_info"
  m_assembler :: "pid \<rightharpoonup> section_assembler"
  m_ts_packets :: u64
  m_sections :: u64
  m_crc_errors :: u64
  m_last_stats :: int
  m_saw_data :: bool

text \<open>The members as the constructor's initialisers set them; the containers start empty.\<close>

definition psi_init :: "bool \<Rightarrow> bool \<Rightarrow> int set \<Rightarrow> int \<Rightarrow> psi" where
  "psi_init cfg emm_enabled caid_filter tuner_id =
     \<lparr>m_cfg = cfg, m_emm_enabled = emm_enabled, m_tuner_id = tuner_id, m_caid_filter = caid_filter,
      m_dirty = False, m_joined_pids = {}, m_watched_pids = {}, m_derived_pids = {},
      m_pat_version = -1, m_cat_version = -1, m_pat_sections = [], m_cat_sections = [],
      m_pat_pmt_pids = {}, m_emm_pids = {}, m_pmt = Map.empty, m_assembler = Map.empty,
      m_ts_packets = 0, m_sections = 0, m_crc_errors = 0, m_last_stats = 0, m_saw_data = False\<rparr>"

section \<open>Parsers\<close>

definition caidAllowed :: "psi \<Rightarrow> int \<Rightarrow> bool" where
  "caidAllowed s caid = (if m_caid_filter s = {} then True else caid \<in> m_caid_filter s)"

definition valid_pid :: "pid \<Rightarrow> bool" where
  "valid_pid p \<longleftrightarrow> p > 0 \<and> p < PSI_PID_NULL"

function collectCaDescriptors ::
  "(int \<Rightarrow> bool) \<Rightarrow> u8 list \<Rightarrow> nat \<Rightarrow> nat \<Rightarrow> pids \<Rightarrow> pids option" where
  "collectCaDescriptors allowed p len pos out =
     (if pos + 2 \<le> len then do {
        tag \<leftarrow> rd p pos;
        dl \<leftarrow> rd p (pos + 1);
        let dlen = unat dl;
        if pos + 2 + dlen > len then Some out
        else if tag = 0x09 \<and> dlen \<ge> 4 then do {
          c1 \<leftarrow> rd p (pos + 2);
          c0 \<leftarrow> rd p (pos + 3);
          p1 \<leftarrow> rd p (pos + 4);
          p0 \<leftarrow> rd p (pos + 5);
          let caid = be16 c1 c0;
          let ca_pid = pid13 p1 p0;
          collectCaDescriptors allowed p len (pos + 2 + dlen)
            (if valid_pid ca_pid \<and> allowed caid then insert ca_pid out else out)
        }
        else collectCaDescriptors allowed p len (pos + 2 + dlen) out
      }
      else Some out)"
  by pat_completeness auto
termination
  by (relation "measure (\<lambda>(allowed, p, len, pos, out). len - pos)") auto

function pat_loop :: "u8 list \<Rightarrow> nat \<Rightarrow> nat \<Rightarrow> pids \<Rightarrow> pids option" where
  "pat_loop sec len i pmt_pids =
     (if i + 4 \<le> len - 4 then do {
        a \<leftarrow> rd sec i;
        b \<leftarrow> rd sec (i + 1);
        c \<leftarrow> rd sec (i + 2);
        d \<leftarrow> rd sec (i + 3);
        let program_number = be16 a b;
        let pmt_pid = pid13 c d;
        if program_number = 0 then pat_loop sec len (i + 4) pmt_pids
        else if pmt_pid = 0 \<or> pmt_pid \<ge> PSI_PID_NULL then pat_loop sec len (i + 4) pmt_pids
        else pat_loop sec len (i + 4) (insert pmt_pid pmt_pids)
      }
      else Some pmt_pids)"
  by pat_completeness auto
termination
  by (relation "measure (\<lambda>(sec, len, i, pmt_pids). len - i)") auto

function pmt_es_loop ::
  "(int \<Rightarrow> bool) \<Rightarrow> u8 list \<Rightarrow> nat \<Rightarrow> nat \<Rightarrow> pids \<Rightarrow> pids \<Rightarrow> (pids \<times> pids) option" where
  "pmt_es_loop allowed sec stop pos ecm es =
     (if pos + 5 \<le> stop then do {
        b1 \<leftarrow> rd sec (pos + 1);
        b2 \<leftarrow> rd sec (pos + 2);
        let es_pid = pid13 b1 b2;
        let es' = (if valid_pid es_pid then insert es_pid es else es);
        b3 \<leftarrow> rd sec (pos + 3);
        b4 \<leftarrow> rd sec (pos + 4);
        let es_info_length = nat (len12 b3 b4);
        if pos + 5 + es_info_length > stop then Some (ecm, es')
        else do {
          ecm' \<leftarrow> collectCaDescriptors allowed (drop (pos + 5) sec) es_info_length 0 ecm;
          pmt_es_loop allowed sec stop (pos + 5 + es_info_length) ecm' es'
        }
      }
      else Some (ecm, es))"
  by pat_completeness auto
termination
  by (relation "measure (\<lambda>(allowed, sec, stop, pos, ecm, es). stop - pos)") auto

declare collectCaDescriptors.simps [simp del] pat_loop.simps [simp del] pmt_es_loop.simps [simp del]

text \<open>The version field of a table header.\<close>

definition version5 :: "u8 \<Rightarrow> int" where
  "version5 b = drop_bit 1 (byte b) AND 0x1f"

text \<open>The loop that joins the pid sets of all sections of a table.\<close>

definition all_section_pids :: "(int \<times> pids) list \<Rightarrow> pids" where
  "all_section_pids secs = fold (\<lambda>e acc. acc \<union> snd e) secs {}"

definition eraseUnlisted :: "(pid \<rightharpoonup> 'a) \<Rightarrow> pids \<Rightarrow> (pid \<rightharpoonup> 'a)" where
  "eraseUnlisted container keep = (\<lambda>k. if k \<notin> keep then None else container k)"

definition parsePAT :: "u8 list \<Rightarrow> psi \<Rightarrow> psi option" where
  "parsePAT sec s = do {
     b5 \<leftarrow> rd sec 5;
     b6 \<leftarrow> rd sec 6;
     let version = version5 b5;
     let section_number = byte b6;
     let s1 = (if version \<noteq> m_pat_version s
               then s\<lparr>m_pat_sections := [], m_pat_version := version\<rparr> else s);
     pmt_pids \<leftarrow> pat_loop sec (length sec) 8 {};
     let s2 = s1\<lparr>m_pat_sections := AList.update section_number pmt_pids (m_pat_sections s1)\<rparr>;
     let all_pids = all_section_pids (m_pat_sections s2);
     if all_pids \<noteq> m_pat_pmt_pids s2
     then Some (s2\<lparr>m_pat_pmt_pids := all_pids, m_pmt := eraseUnlisted (m_pmt s2) all_pids,
                   m_dirty := True\<rparr>)
     else Some s2
   }"

definition parseCAT :: "u8 list \<Rightarrow> psi \<Rightarrow> psi option" where
  "parseCAT sec s = do {
     b5 \<leftarrow> rd sec 5;
     b6 \<leftarrow> rd sec 6;
     let version = version5 b5;
     let section_number = byte b6;
     let s1 = (if version \<noteq> m_cat_version s
               then s\<lparr>m_cat_sections := [], m_cat_version := version\<rparr> else s);
     emm_pids \<leftarrow> collectCaDescriptors (caidAllowed s) (drop 8 sec) ((length sec - 4) - 8) 0 {};
     let s2 = s1\<lparr>m_cat_sections := AList.update section_number emm_pids (m_cat_sections s1)\<rparr>;
     let all_pids = all_section_pids (m_cat_sections s2);
     if all_pids \<noteq> m_emm_pids s2
     then Some (s2\<lparr>m_emm_pids := all_pids, m_dirty := True\<rparr>)
     else Some s2
   }"

text \<open>
  \<^verbatim>\<open>m_pmt[pid]\<close> creates a default entry, also on the early returns. The program number is
  read for the log only.
\<close>

definition parsePMT :: "pid \<Rightarrow> u8 list \<Rightarrow> psi \<Rightarrow> psi option" where
  "parsePMT pid sec s = do {
     _ \<leftarrow> rd sec 3;
     _ \<leftarrow> rd sec 4;
     b5 \<leftarrow> rd sec 5;
     let version = version5 b5;
     let info = (case m_pmt s pid of None \<Rightarrow> pmt_info_init | Some i \<Rightarrow> i);
     let s1 = s\<lparr>m_pmt := (m_pmt s)(pid \<mapsto> info)\<rparr>;
     let stop = length sec - 4;
     if pi_version info = version then Some s1
     else if stop < 12 then Some s1
     else do {
       b10 \<leftarrow> rd sec 10;
       b11 \<leftarrow> rd sec 11;
       let program_info_length = nat (len12 b10 b11);
       if 12 + program_info_length > stop then Some s1
       else do {
         ecm0 \<leftarrow> collectCaDescriptors (caidAllowed s) (drop 12 sec) program_info_length 0 {};
         r \<leftarrow> pmt_es_loop (caidAllowed s) sec stop (12 + program_info_length) ecm0 {};
         let info' = info\<lparr>pi_version := version, pi_es_pids := snd r\<rparr>;
         if pi_ecm_pids info' \<noteq> fst r
         then Some (s1\<lparr>m_pmt := (m_pmt s1)(pid \<mapsto> info'\<lparr>pi_ecm_pids := fst r\<rparr>), m_dirty := True\<rparr>)
         else Some (s1\<lparr>m_pmt := (m_pmt s1)(pid \<mapsto> info')\<rparr>)
       }
     }
   }"

definition handleSection :: "pid \<Rightarrow> u8 list \<Rightarrow> psi \<Rightarrow> psi option" where
  "handleSection pid sec s = do {
     b1 \<leftarrow> rd sec 1;
     if byte b1 AND 0x80 = 0 then Some s
     else if crc32_calc sec \<noteq> 0 then Some (s\<lparr>m_crc_errors := m_crc_errors s + 1\<rparr>)
     else do {
       let s1 = s\<lparr>m_sections := m_sections s + 1\<rparr>;
       b5 \<leftarrow> rd sec 5;
       if byte b5 AND 0x01 = 0 then Some s1
       else do {
         table_id \<leftarrow> rd sec 0;
         if pid = PSI_PID_PAT then (if table_id = 0x00 then parsePAT sec s1 else Some s1)
         else if pid = PSI_PID_CAT then (if table_id = 0x01 then parseCAT sec s1 else Some s1)
         else if table_id = 0x02 then parsePMT pid sec s1
         else Some s1
       }
     }
   }"

lemma eraseUnlisted_empty [simp]: "eraseUnlisted Map.empty keep = Map.empty"
  by (auto simp: eraseUnlisted_def)

section \<open>No read leaves the section\<close>

definition valid_pids :: pids where
  "valid_pids = {p. valid_pid p}"

lemma valid_pids_eq: "valid_pids = {0<..<PSI_PID_NULL}"
  by (auto simp: valid_pids_def valid_pid_def)

lemma finite_valid_pids [simp]: "finite valid_pids"
  by (simp add: valid_pids_eq)

text \<open>One turn of each loop, for positions inside the section.\<close>

definition ca_pid_at :: "(int \<Rightarrow> bool) \<Rightarrow> u8 list \<Rightarrow> nat \<Rightarrow> pids" where
  "ca_pid_at allowed p pos =
     (if p ! pos = 0x09 \<and> 4 \<le> unat (p ! (pos + 1)) \<and>
         valid_pid (pid13 (p ! (pos + 4)) (p ! (pos + 5))) \<and>
         allowed (be16 (p ! (pos + 2)) (p ! (pos + 3)))
      then {pid13 (p ! (pos + 4)) (p ! (pos + 5))} else {})"

lemma collectCaDescriptors_step:
  assumes "pos + 2 \<le> len" "len \<le> length p"
  shows "collectCaDescriptors allowed p len pos out =
    (if pos + 2 + unat (p ! (pos + 1)) > len then Some out
     else collectCaDescriptors allowed p len (pos + 2 + unat (p ! (pos + 1)))
            (out \<union> ca_pid_at allowed p pos))"
  using assms by (subst collectCaDescriptors.simps) (auto simp: rd_def Let_def ca_pid_at_def)

lemma pat_loop_step:
  assumes "i + 4 \<le> len - 4" "len \<le> length sec"
  shows "pat_loop sec len i acc =
    pat_loop sec len (i + 4)
      (if be16 (sec ! i) (sec ! (i + 1)) \<noteq> 0 \<and> valid_pid (pid13 (sec ! (i + 2)) (sec ! (i + 3)))
       then insert (pid13 (sec ! (i + 2)) (sec ! (i + 3))) acc else acc)"
  using assms pid13_range [of "sec ! (i + 2)" "sec ! (i + 3)"]
  by (subst pat_loop.simps) (auto simp: rd_def Let_def valid_pid_def)

lemma pmt_es_loop_step:
  assumes "pos + 5 \<le> stop" "stop \<le> length sec"
    and "es_pid = pid13 (sec ! (pos + 1)) (sec ! (pos + 2))"
    and "n = nat (len12 (sec ! (pos + 3)) (sec ! (pos + 4)))"
  shows "pmt_es_loop allowed sec stop pos ecm es =
    (if pos + 5 + n > stop then Some (ecm, if valid_pid es_pid then insert es_pid es else es)
     else do {
       ecm' \<leftarrow> collectCaDescriptors allowed (drop (pos + 5) sec) n 0 ecm;
       pmt_es_loop allowed sec stop (pos + 5 + n) ecm'
         (if valid_pid es_pid then insert es_pid es else es)
     })"
proof -
  have r: "rd sec (pos + 1) = Some (sec ! (pos + 1))" "rd sec (pos + 2) = Some (sec ! (pos + 2))"
    "rd sec (pos + 3) = Some (sec ! (pos + 3))" "rd sec (pos + 4) = Some (sec ! (pos + 4))"
    using assms(1,2) by (simp_all add: rd_def)
  show ?thesis
    unfolding pmt_es_loop.simps [of allowed sec stop pos ecm es] r assms(3,4)
    using assms(1) by (simp only: Let_def if_True Option.bind.bind_lunit)
qed

lemma collectCaDescriptors_safe:
  "len \<le> length p \<Longrightarrow> out \<subseteq> valid_pids \<Longrightarrow>
   \<exists>r. collectCaDescriptors allowed p len pos out = Some r \<and> r \<subseteq> valid_pids"
proof (induction "len - pos" arbitrary: pos out rule: less_induct)
  case less
  have "ca_pid_at allowed p pos \<subseteq> valid_pids"
    by (simp add: ca_pid_at_def valid_pids_def)
  then show ?case
    using less collectCaDescriptors_step [of pos len p allowed out]
    by (cases "pos + 2 \<le> len") (auto simp: collectCaDescriptors.simps [of _ _ _ pos])
qed

lemma pat_loop_safe:
  "len \<le> length sec \<Longrightarrow> acc \<subseteq> valid_pids \<Longrightarrow>
   \<exists>r. pat_loop sec len i acc = Some r \<and> r \<subseteq> valid_pids"
proof (induction "len - i" arbitrary: i acc rule: less_induct)
  case less
  show ?case
  proof (cases "i + 4 \<le> len - 4")
    case False
    then show ?thesis using less by (subst pat_loop.simps) auto
  next
    case True
    show ?thesis
      unfolding pat_loop_step [OF True less(2)]
      by (rule less(1)) (use True less(2,3) in \<open>auto simp: valid_pids_def\<close>)
  qed
qed

lemma pmt_es_loop_safe:
  "stop \<le> length sec \<Longrightarrow> ecm \<subseteq> valid_pids \<Longrightarrow> es \<subseteq> valid_pids \<Longrightarrow>
   \<exists>ecm' es'. pmt_es_loop allowed sec stop pos ecm es = Some (ecm', es') \<and>
     ecm' \<subseteq> valid_pids \<and> es' \<subseteq> valid_pids"
proof (induction "stop - pos" arbitrary: pos ecm es rule: less_induct)
  case less
  define es_pid where "es_pid = pid13 (sec ! (pos + 1)) (sec ! (pos + 2))"
  define n where "n = nat (len12 (sec ! (pos + 3)) (sec ! (pos + 4)))"
  define es1 where "es1 = (if valid_pid es_pid then insert es_pid es else es)"
  have es1: "es1 \<subseteq> valid_pids" using less(4) by (auto simp: es1_def valid_pids_def)
  show ?case
  proof (cases "pos + 5 \<le> stop")
    case False
    then show ?thesis using less by (subst pmt_es_loop.simps) auto
  next
    case True
    note step = pmt_es_loop_step [OF True less(2) es_pid_def n_def, of allowed ecm es,
        folded es1_def]
    show ?thesis
    proof (cases "pos + 5 + n > stop")
      case True
      then show ?thesis using less(3) es1 by (simp add: step)
    next
      case False
      have le: "n \<le> length (drop (pos + 5) sec)" using False less(2) by simp
      obtain ecm' where ecm': "ecm' \<subseteq> valid_pids"
        "collectCaDescriptors allowed (drop (pos + 5) sec) n 0 ecm = Some ecm'"
        using collectCaDescriptors_safe [OF le less(3), of allowed 0] by blast
      show ?thesis
        using less(1) [of "pos + 5 + n" ecm' es1] True False less(2) ecm' es1 by (simp add: step)
    qed
  qed
qed

section \<open>The invariant of the parsed tables\<close>

definition secs_ok :: "(int \<times> pids) list \<Rightarrow> bool" where
  "secs_ok secs \<longleftrightarrow> distinct (map fst secs) \<and> (\<forall>e \<in> set secs. snd e \<subseteq> valid_pids)"

definition tables_ok :: "psi \<Rightarrow> bool" where
  "tables_ok s \<longleftrightarrow>
     secs_ok (m_pat_sections s) \<and> secs_ok (m_cat_sections s) \<and>
     m_pat_pmt_pids s = all_section_pids (m_pat_sections s) \<and>
     m_emm_pids s = all_section_pids (m_cat_sections s) \<and>
     (\<forall>pid i. m_pmt s pid = Some i \<longrightarrow> pi_ecm_pids i \<subseteq> valid_pids \<and> pi_es_pids i \<subseteq> valid_pids)"

lemma all_section_pids_Union: "all_section_pids secs = (\<Union>e \<in> set secs. snd e)"
  by (simp add: all_section_pids_def fold_union)

lemma tables_ok_pmt_pids: "tables_ok s \<Longrightarrow> m_pat_pmt_pids s \<subseteq> valid_pids"
  by (auto simp: tables_ok_def secs_ok_def all_section_pids_Union)

lemma tables_ok_emm_pids: "tables_ok s \<Longrightarrow> m_emm_pids s \<subseteq> valid_pids"
  by (auto simp: tables_ok_def secs_ok_def all_section_pids_Union)

lemma secs_ok_Nil [simp]: "secs_ok []"
  by (simp add: secs_ok_def)

lemma secs_ok_update [simp]:
  "secs_ok secs \<Longrightarrow> v \<subseteq> valid_pids \<Longrightarrow> secs_ok (AList.update k v secs)"
proof -
  assume "secs_ok secs" "v \<subseteq> valid_pids"
  moreover from this have "\<forall>e \<in> set (AList.update k v secs). snd e \<subseteq> valid_pids"
    unfolding secs_ok_def by (induction secs) auto
  ultimately show ?thesis by (simp add: secs_ok_def distinct_update)
qed

text \<open>What the parsers leave alone: everything but the tables, the counters and the dirty flag.\<close>

definition same_setup :: "psi \<Rightarrow> psi \<Rightarrow> bool" where
  "same_setup s s' \<longleftrightarrow>
     m_cfg s' = m_cfg s \<and> m_emm_enabled s' = m_emm_enabled s \<and>
     m_caid_filter s' = m_caid_filter s \<and> m_joined_pids s' = m_joined_pids s \<and>
     m_watched_pids s' = m_watched_pids s \<and> m_derived_pids s' = m_derived_pids s \<and>
     m_assembler s' = m_assembler s"

lemma same_setup_refl [simp]: "same_setup s s"
  by (simp add: same_setup_def)

lemma same_setup_trans: "same_setup a b \<Longrightarrow> same_setup b c \<Longrightarrow> same_setup a c"
  by (simp add: same_setup_def)

lemma parsePAT_safe:
  assumes "12 \<le> length sec" "tables_ok s"
  shows "\<exists>s'. parsePAT sec s = Some s' \<and> tables_ok s' \<and> same_setup s s'"
proof -
  obtain r where r: "pat_loop sec (length sec) 8 {} = Some r" "r \<subseteq> valid_pids"
    using pat_loop_safe [of "length sec" sec "{}" 8] by auto
  have rds: "rd sec 5 = Some (sec ! 5)" "rd sec 6 = Some (sec ! 6)"
    using assms(1) by (simp_all add: rd_def)
  show ?thesis
    using assms(2) r(2)
    by (auto simp: parsePAT_def rds r(1) Let_def tables_ok_def same_setup_def eraseUnlisted_def
        split: if_splits)
qed

lemma parseCAT_safe:
  assumes "12 \<le> length sec" "tables_ok s"
  shows "\<exists>s'. parseCAT sec s = Some s' \<and> tables_ok s' \<and> same_setup s s'"
proof -
  have le: "length sec - 4 - 8 \<le> length (drop 8 sec)" by simp
  obtain r where r: "r \<subseteq> valid_pids"
    "collectCaDescriptors (caidAllowed s) (drop 8 sec) (length sec - 4 - 8) 0 {} = Some r"
    using collectCaDescriptors_safe [OF le empty_subsetI, of "caidAllowed s" 0] by blast
  have rds: "rd sec 5 = Some (sec ! 5)" "rd sec 6 = Some (sec ! 6)"
    using assms(1) by (simp_all add: rd_def)
  show ?thesis
    using assms(2) r(1)
    by (auto simp: parseCAT_def rds r(2) [simplified] Let_def tables_ok_def same_setup_def
        split: if_splits)
qed

lemma parsePMT_safe:
  assumes "12 \<le> length sec" "tables_ok s"
  shows "\<exists>s'. parsePMT pid sec s = Some s' \<and> tables_ok s' \<and> same_setup s s'"
proof -
  let ?n = "nat (len12 (sec ! 10) (sec ! 11))"
  let ?stop = "length sec - 4"
  have rds: "rd sec 3 = Some (sec ! 3)" "rd sec 4 = Some (sec ! 4)" "rd sec 5 = Some (sec ! 5)"
    "rd sec 10 = Some (sec ! 10)" "rd sec 11 = Some (sec ! 11)"
    using assms(1) by (simp_all add: rd_def)
  let ?info = "case m_pmt s pid of None \<Rightarrow> pmt_info_init | Some i \<Rightarrow> i"
  have info: "pi_ecm_pids ?info \<subseteq> valid_pids" "pi_es_pids ?info \<subseteq> valid_pids"
    using assms(2) by (auto simp: tables_ok_def pmt_info_init_def split: option.splits)
  show ?thesis
  proof (cases "pi_version ?info = version5 (sec ! 5) \<or> ?stop < 12 \<or> 12 + ?n > ?stop")
    case True
    then show ?thesis
      using assms(2) info by (auto simp: parsePMT_def rds Let_def tables_ok_def same_setup_def)
  next
    case False
    then have "?n \<le> length (drop 12 sec)" by auto
    then obtain ecm0 where ecm0: "ecm0 \<subseteq> valid_pids"
      "collectCaDescriptors (caidAllowed s) (drop 12 sec) ?n 0 {} = Some ecm0"
      using collectCaDescriptors_safe [of ?n "drop 12 sec" "{}" "caidAllowed s" 0] by auto
    obtain ecm es where es: "ecm \<subseteq> valid_pids" "es \<subseteq> valid_pids"
      "pmt_es_loop (caidAllowed s) sec ?stop (12 + ?n) ecm0 {} = Some (ecm, es)"
      using pmt_es_loop_safe [of ?stop sec ecm0 "{}" "caidAllowed s" "12 + ?n"] ecm0(1) by auto
    show ?thesis
      using False assms(2) info es(1,2) ecm0(2) es(3)
      by (auto simp: parsePMT_def rds Let_def tables_ok_def same_setup_def)
  qed
qed

lemma handleSection_safe:
  assumes "12 \<le> length sec" "tables_ok s"
  shows "\<exists>s'. handleSection pid sec s = Some s' \<and> tables_ok s' \<and> same_setup s s'"
proof -
  let ?s1 = "s\<lparr>m_sections := m_sections s + 1\<rparr>"
  let ?s2 = "s\<lparr>m_crc_errors := m_crc_errors s + 1\<rparr>"
  have keep: "tables_ok ?s1" "tables_ok ?s2" "same_setup s ?s1" "same_setup s ?s2"
    using assms(2) by (auto simp: tables_ok_def same_setup_def)
  have parsers: "\<exists>s'. parsePAT sec ?s1 = Some s' \<and> tables_ok s' \<and> same_setup s s'"
    "\<exists>s'. parseCAT sec ?s1 = Some s' \<and> tables_ok s' \<and> same_setup s s'"
    "\<exists>s'. parsePMT pid sec ?s1 = Some s' \<and> tables_ok s' \<and> same_setup s s'"
    using parsePAT_safe [OF assms(1) keep(1)] parseCAT_safe [OF assms(1) keep(1)]
      parsePMT_safe [OF assms(1) keep(1)] same_setup_trans [OF keep(3)] by blast+
  have "0 < length sec" using assms(1) by linarith
  then show ?thesis
    using parsers keep assms by (simp add: handleSection_def rd_Some Let_def)
qed

text \<open>
  The inputs of the recomputation that the dirty flag guards: the services, the EMM pids and
  the ECM pids of every service.
\<close>

definition pmt_of :: "psi \<Rightarrow> pid \<Rightarrow> pmt_info" where
  "pmt_of s pid = (case m_pmt s pid of None \<Rightarrow> pmt_info_init | Some i \<Rightarrow> i)"

definition same_inputs :: "psi \<Rightarrow> psi \<Rightarrow> bool" where
  "same_inputs s s' \<longleftrightarrow> m_pat_pmt_pids s' = m_pat_pmt_pids s \<and> m_emm_pids s' = m_emm_pids s \<and>
     (\<forall>p. pi_ecm_pids (pmt_of s' p) = pi_ecm_pids (pmt_of s p))"

definition tracked :: "psi \<Rightarrow> psi \<Rightarrow> bool" where
  "tracked s s' \<longleftrightarrow> (\<not> m_dirty s' \<longrightarrow> \<not> m_dirty s \<and> same_inputs s s')"

lemma same_inputs_refl [simp]: "same_inputs s s"
  by (simp add: same_inputs_def)

lemma tracked_refl [simp]: "tracked s s"
  by (simp add: tracked_def)

lemma tracked_trans: "tracked a b \<Longrightarrow> tracked b c \<Longrightarrow> tracked a c"
  by (simp add: tracked_def same_inputs_def)

lemma pmt_of_eq: "m_pmt s' = m_pmt s \<Longrightarrow> pmt_of s' = pmt_of s"
  by (simp add: pmt_of_def fun_eq_iff)

lemma parsePAT_tracked: "parsePAT sec s = Some s' \<Longrightarrow> tracked s s'"
  unfolding parsePAT_def Let_def
  by (elim run_elims) (simp_all add: tracked_def same_inputs_def pmt_of_def)

lemma parseCAT_tracked: "parseCAT sec s = Some s' \<Longrightarrow> tracked s s'"
  unfolding parseCAT_def Let_def
  by (elim run_elims) (simp_all add: tracked_def same_inputs_def pmt_of_def)

lemma parsePMT_tracked: "parsePMT pid sec s = Some s' \<Longrightarrow> tracked s s'"
  unfolding parsePMT_def Let_def tracked_def same_inputs_def pmt_of_def
  by (elim run_elims) (auto split: if_splits)

lemma handleSection_tracked:
  assumes "handleSection pid sec s = Some s'"
  shows "tracked s s'"
proof -
  let ?s1 = "s\<lparr>m_sections := m_sections s + 1\<rparr>"
  have keep: "tracked s ?s1" "tracked s (s\<lparr>m_crc_errors := n\<rparr>)" for n
    by (simp_all add: tracked_def same_inputs_def pmt_of_def)
  then show ?thesis
    using assms parsePAT_tracked [of sec ?s1 s'] parseCAT_tracked [of sec ?s1 s']
      parsePMT_tracked [of pid sec ?s1 s'] tracked_trans [OF keep(1)]
    unfolding handleSection_def Let_def by (elim run_elims) auto
qed

text \<open>What holds between the state before a payload and any state while it is fed.\<close>

definition parse_inv :: "psi \<Rightarrow> psi \<Rightarrow> bool" where
  "parse_inv s0 s \<longleftrightarrow> tables_ok s \<and> same_setup s0 s \<and> tracked s0 s"

lemma parse_inv_refl: "tables_ok s \<Longrightarrow> parse_inv s s"
  by (simp add: parse_inv_def)

lemma handleSection_parse_inv:
  assumes "12 \<le> length sec" "parse_inv s0 s"
  shows "\<exists>s'. handleSection pid sec s = Some s' \<and> parse_inv s0 s'"
proof -
  obtain s' where "handleSection pid sec s = Some s'" "tables_ok s'" "same_setup s s'"
    using handleSection_safe [OF assms(1), of s pid] assms(2) by (auto simp: parse_inv_def)
  then show ?thesis
    using assms(2) handleSection_tracked [of pid sec s s'] same_setup_trans tracked_trans
    by (auto simp: parse_inv_def)
qed

text \<open>The parser is a section sink for every pid.\<close>

interpretation psi_sink: section_sink "handleSection pid" "parse_inv s0" for pid s0
  by unfold_locales (rule handleSection_parse_inv)

end
