(* ===== verification/Psi_Wire.thy ===== *)
theory Psi_Wire
  imports Psi_Tables
begin

text \<open>
  The wire format of the tables, as the MPEG-2 systems standard lays them out, and the proof
  that the parsers of \<^verbatim>\<open>src/psi.cpp\<close> invert it: a descriptor list, a PAT, a CAT and a PMT
  encoded to bytes are read back as the pids they announce.
\<close>

section \<open>Descriptors\<close>

type_synonym descriptor = "u8 \<times> u8 list"

definition enc_desc :: "descriptor \<Rightarrow> u8 list" where
  "enc_desc d = fst d # word_of_nat (length (snd d)) # snd d"

definition enc_descs :: "descriptor list \<Rightarrow> u8 list" where
  "enc_descs ds = concat (map enc_desc ds)"

definition desc_ok :: "descriptor \<Rightarrow> bool" where
  "desc_ok d \<longleftrightarrow> length (snd d) < 256"

text \<open>The pid a descriptor contributes: CA descriptors of an allowed CA system with a valid pid.\<close>

definition ca_pid_of :: "(int \<Rightarrow> bool) \<Rightarrow> descriptor \<Rightarrow> pids" where
  "ca_pid_of allowed d =
     (let p = pid13 (snd d ! 2) (snd d ! 3) in
      if fst d = 0x09 \<and> length (snd d) \<ge> 4 \<and> valid_pid p \<and> allowed (be16 (snd d ! 0) (snd d ! 1))
      then {p} else {})"

lemma length_enc_desc: "length (enc_desc d) = 2 + length (snd d)"
  by (simp add: enc_desc_def)

lemma enc_descs_Cons: "enc_descs (d # ds) = enc_desc d @ enc_descs ds"
  by (simp add: enc_descs_def)

lemma enc_descs_Nil [simp]: "enc_descs [] = []"
  by (simp add: enc_descs_def)

lemma collectCaDescriptors_enc:
  assumes "\<forall>d \<in> set ds. desc_ok d" "p = pre @ enc_descs ds @ post"
  shows "collectCaDescriptors allowed p (length pre + length (enc_descs ds)) (length pre) out =
    Some (out \<union> (\<Union>d \<in> set ds. ca_pid_of allowed d))"
  using assms
proof (induction ds arbitrary: pre out)
  case Nil
  then show ?case by (subst collectCaDescriptors.simps) simp
next
  case (Cons d ds)
  obtain tag body where d: "d = (tag, body)" by fastforce
  let ?len = "length pre + length (enc_descs (d # ds))"
  have "length body < 256" using Cons.prems by (simp add: d desc_ok_def)
  then have dl: "unat (word_of_nat (length body) :: u8) = length body"
    by (simp add: unat_of_nat)
  have nth: "p ! length pre = tag" "p ! (length pre + 1) = word_of_nat (length body)"
    "\<And>i. i < length body \<Longrightarrow> p ! (length pre + 2 + i) = body ! i"
    by (simp_all add: Cons.prems(2) enc_descs_Cons enc_desc_def d nth_append)
  have pid: "ca_pid_at allowed p (length pre) = ca_pid_of allowed d"
  proof (cases "4 \<le> length body")
    case True
    then have "0 < length body" by linarith
    with True have b: "p ! (length pre + 2) = body ! 0" "p ! (length pre + 3) = body ! 1"
      "p ! (length pre + 4) = body ! 2" "p ! (length pre + 5) = body ! 3"
      using nth(3) [of 0] nth(3) [of 1] nth(3) [of 2] nth(3) [of 3] by (simp_all add: numeral_eq_Suc)
    show ?thesis
      by (simp only: ca_pid_at_def ca_pid_of_def Let_def nth(1,2) dl d b fst_conv snd_conv)
  next
    case False
    then show ?thesis
      unfolding ca_pid_at_def ca_pid_of_def Let_def nth(1,2) dl d by simp
  qed
  have le: "length pre + 2 \<le> ?len" "?len \<le> length p" "\<not> length pre + 2 + length body > ?len"
    using Cons.prems(2) by (simp_all add: enc_descs_Cons length_enc_desc d)
  have "collectCaDescriptors allowed p ?len (length pre) out =
    collectCaDescriptors allowed p ?len (length pre + 2 + length body) (out \<union> ca_pid_of allowed d)"
    unfolding collectCaDescriptors_step [OF le(1,2)] nth(2) dl pid using le(3) by (simp only: if_False)
  also have "\<dots> = Some (out \<union> ca_pid_of allowed d \<union> (\<Union>d \<in> set ds. ca_pid_of allowed d))"
    using Cons.IH [of "pre @ enc_desc d" "out \<union> ca_pid_of allowed d"] Cons.prems
    by (simp add: enc_descs_Cons length_enc_desc d add.assoc)
  finally show ?case by (simp add: Un_assoc)
qed

section \<open>Program association entries\<close>

text \<open>Program number and pid, the three reserved bits set.\<close>

definition enc_program :: "int \<times> pid \<Rightarrow> u8 list" where
  "enc_program e = [hi8 (fst e), lo8 (fst e), hi8 (0xe000 + snd e), lo8 (snd e)]"

lemma length_enc_program: "length (enc_program e) = 4"
  by (simp add: enc_program_def)

definition program_ok :: "int \<times> pid \<Rightarrow> bool" where
  "program_ok e \<longleftrightarrow> 0 \<le> fst e \<and> fst e < 0x10000 \<and> 0 \<le> snd e \<and> snd e < 0x2000"

text \<open>The pids of the services: program 0 announces the network table, not a service.\<close>

definition service_pids :: "(int \<times> pid) list \<Rightarrow> pids" where
  "service_pids es = {p. \<exists>n. (n, p) \<in> set es \<and> n \<noteq> 0 \<and> valid_pid p}"

lemma pid13_reserved:
  assumes "0 \<le> n" "n < 0x2000"
  shows "pid13 (hi8 (0xe000 + n)) (lo8 n) = n"
proof -
  have "(0xe000 + n) div 256 = 0xe0 + n div 256" by simp
  moreover have "0 \<le> n div 256" "n div 256 < 32" using assms by auto
  then have "(0xe0 + n div 256) mod 256 mod 32 = n div 256"
    using mod_mult_self3 [of 7 32 "n div 256"] by simp
  ultimately have "(0xe000 + n) div 256 mod 256 mod 32 = n div 256" by (simp only:)
  then show ?thesis unfolding pid13_arith byte_hi8 byte_lo8 by (simp only: div_mult_mod_eq)
qed

lemma len12_reserved:
  assumes "0 \<le> n" "n < 0x1000"
  shows "len12 (hi8 (0xf000 + n)) (lo8 n) = n"
proof -
  have "(0xf000 + n) div 256 = 0xf0 + n div 256" by simp
  moreover have "0 \<le> n div 256" "n div 256 < 16" using assms by auto
  then have "(0xf0 + n div 256) mod 256 mod 16 = n div 256"
    using mod_mult_self3 [of 15 16 "n div 256"] by simp
  ultimately have "(0xf000 + n) div 256 mod 256 mod 16 = n div 256" by (simp only:)
  then show ?thesis unfolding len12_arith byte_hi8 byte_lo8 by (simp only: div_mult_mod_eq)
qed

lemma pat_loop_enc:
  assumes "\<forall>e \<in> set es. program_ok e" "sec = pre @ concat (map enc_program es) @ crc"
    and "length crc = 4"
  shows "pat_loop sec (length sec) (length pre) acc = Some (acc \<union> service_pids es)"
  using assms(1,2)
proof (induction es arbitrary: pre acc)
  case Nil
  then show ?case using assms(3) by (subst pat_loop.simps) (simp add: service_pids_def)
next
  case (Cons e es)
  obtain n p where e: "e = (n, p)" by fastforce
  have ok: "0 \<le> n" "n < 0x10000" "0 \<le> p" "p < 0x2000"
    using Cons.prems(1) by (simp_all add: e program_ok_def)
  have b: "sec ! length pre = hi8 n" "sec ! (length pre + 1) = lo8 n"
    "sec ! (length pre + 2) = hi8 (0xe000 + p)" "sec ! (length pre + 3) = lo8 p"
    by (simp_all add: Cons.prems(2) enc_program_def e nth_append)
  have le: "length pre + 4 \<le> length sec - 4"
    by (simp add: Cons.prems(2) enc_program_def assms(3))
  have "pat_loop sec (length sec) (length pre) acc = pat_loop sec (length sec) (length pre + 4)
      (if n \<noteq> 0 \<and> valid_pid p then insert p acc else acc)"
    unfolding pat_loop_step [OF le order_refl] b be16_bytes [OF ok(1,2)] pid13_reserved [OF ok(3,4)]
    ..
  also have "\<dots> = Some ((if n \<noteq> 0 \<and> valid_pid p then insert p acc else acc) \<union> service_pids es)"
    using Cons.IH [of "pre @ enc_program e" "if n \<noteq> 0 \<and> valid_pid p then insert p acc else acc"]
      Cons.prems
    by (simp add: length_enc_program)
  also have "(if n \<noteq> 0 \<and> valid_pid p then insert p acc else acc) \<union> service_pids es =
    acc \<union> service_pids (e # es)"
    by (auto simp: service_pids_def e)
  finally show ?case .
qed

section \<open>Elementary streams\<close>

record es_entry =
  es_type :: u8
  es_pid_of :: pid
  es_descs :: "descriptor list"

definition enc_es :: "es_entry \<Rightarrow> u8 list" where
  "enc_es e =
     (let n = int (length (enc_descs (es_descs e))) in
      [es_type e, hi8 (0xe000 + es_pid_of e), lo8 (es_pid_of e), hi8 (0xf000 + n), lo8 n] @
      enc_descs (es_descs e))"

definition es_ok :: "es_entry \<Rightarrow> bool" where
  "es_ok e \<longleftrightarrow> 0 \<le> es_pid_of e \<and> es_pid_of e < 0x2000 \<and>
     (\<forall>d \<in> set (es_descs e). desc_ok d) \<and> length (enc_descs (es_descs e)) < 0x1000"

definition stream_pids :: "es_entry list \<Rightarrow> pids" where
  "stream_pids es = {p \<in> es_pid_of ` set es. valid_pid p}"

definition stream_ecm_pids :: "(int \<Rightarrow> bool) \<Rightarrow> es_entry list \<Rightarrow> pids" where
  "stream_ecm_pids allowed es = (\<Union>e \<in> set es. \<Union>d \<in> set (es_descs e). ca_pid_of allowed d)"

lemma length_enc_es: "length (enc_es e) = 5 + length (enc_descs (es_descs e))"
  by (simp add: enc_es_def Let_def)

lemma pmt_es_loop_enc:
  assumes "\<forall>e \<in> set es. es_ok e" "sec = pre @ concat (map enc_es es) @ crc"
    and "stop = length pre + length (concat (map enc_es es))"
  shows "pmt_es_loop allowed sec stop (length pre) ecm acc =
    Some (ecm \<union> stream_ecm_pids allowed es, acc \<union> stream_pids es)"
  using assms
proof (induction es arbitrary: pre ecm acc)
  case Nil
  then show ?case
    by (subst pmt_es_loop.simps) (simp add: stream_ecm_pids_def stream_pids_def)
next
  case (Cons e es)
  let ?n = "length (enc_descs (es_descs e))"
  let ?acc = "if valid_pid (es_pid_of e) then insert (es_pid_of e) acc else acc"
  let ?ecm = "ecm \<union> (\<Union>d \<in> set (es_descs e). ca_pid_of allowed d)"
  have ok: "0 \<le> es_pid_of e" "es_pid_of e < 0x2000" "\<forall>d \<in> set (es_descs e). desc_ok d"
    "int ?n < 0x1000"
    using Cons.prems(1) by (simp_all add: es_ok_def)
  have b: "sec ! (length pre + 1) = hi8 (0xe000 + es_pid_of e)" "sec ! (length pre + 2) = lo8 (es_pid_of e)"
    "sec ! (length pre + 3) = hi8 (0xf000 + int ?n)" "sec ! (length pre + 4) = lo8 (int ?n)"
    by (simp_all add: Cons.prems(2) enc_es_def Let_def nth_append)
  have "drop (length pre + 5) sec = [] @ enc_descs (es_descs e) @ (concat (map enc_es es) @ crc)"
    by (simp add: Cons.prems(2) enc_es_def [of e] Let_def)
  then have descs: "collectCaDescriptors allowed (drop (length pre + 5) sec) ?n 0 ecm = Some ?ecm"
    using collectCaDescriptors_enc [OF ok(3), of "drop (length pre + 5) sec" "[]" _ allowed ecm]
    by simp
  have le: "length pre + 5 \<le> stop" "stop \<le> length sec" "\<not> length pre + 5 + ?n > stop"
    using Cons.prems(2,3) by (simp_all add: length_enc_es)
  have fields: "es_pid_of e = pid13 (sec ! (length pre + 1)) (sec ! (length pre + 2))"
    "?n = nat (len12 (sec ! (length pre + 3)) (sec ! (length pre + 4)))"
    using ok(4) unfolding b pid13_reserved [OF ok(1,2)] by (simp_all add: len12_reserved)
  have "pmt_es_loop allowed sec stop (length pre) ecm acc =
    pmt_es_loop allowed sec stop (length pre + 5 + ?n) ?ecm ?acc"
    using pmt_es_loop_step [OF le(1,2) fields, of allowed ecm acc] le(3) descs
    by (simp only: if_False Option.bind.bind_lunit)
  also have "\<dots> = Some (?ecm \<union> stream_ecm_pids allowed es, ?acc \<union> stream_pids es)"
    using Cons.IH [of "pre @ enc_es e" ?ecm ?acc] Cons.prems by (simp add: length_enc_es add.assoc)
  finally show ?case by (auto simp: stream_ecm_pids_def stream_pids_def)
qed

section \<open>Sections\<close>

text \<open>
  A table section: the header with the section syntax indicator and the current/next indicator
  set, the payload, and the checksum.
\<close>

record section_hdr =
  sh_table :: u8
  sh_ext :: int
  sh_version :: int
  sh_number :: int
  sh_last :: int

definition sec_body :: "section_hdr \<Rightarrow> u8 list \<Rightarrow> u8 list" where
  "sec_body h payload =
     (let n = int (length payload) + 9 in
      [sh_table h, hi8 (0xb000 + n), lo8 n, hi8 (sh_ext h), lo8 (sh_ext h),
       word_of_int (0xc1 + 2 * sh_version h), word_of_int (sh_number h), word_of_int (sh_last h)] @
      payload)"

definition mk_section :: "section_hdr \<Rightarrow> u8 list \<Rightarrow> u8 list" where
  "mk_section h payload = sec_body h payload @ crc_bytes (crc32_calc (sec_body h payload))"

definition hdr_ok :: "section_hdr \<Rightarrow> u8 list \<Rightarrow> bool" where
  "hdr_ok h payload \<longleftrightarrow> 0 \<le> sh_version h \<and> sh_version h < 32 \<and> 0 \<le> sh_number h \<and> sh_number h < 256 \<and>
     length payload + 12 \<le> PSI_MAX_SECTION_LEN"

lemma crc32_mk_section: "crc32_calc (mk_section h payload) = 0"
  by (simp add: mk_section_def crc32_calc_def crc32_loop_append crc32_loop_own_bytes)

lemma length_crc_bytes [simp]: "length (crc_bytes c) = 4"
  by (simp add: crc_bytes_def)

lemma mk_section_bytes:
  "mk_section h payload ! 0 = sh_table h"
  "mk_section h payload ! 1 = hi8 (0xb000 + (int (length payload) + 9))"
  "mk_section h payload ! 2 = lo8 (int (length payload) + 9)"
  "mk_section h payload ! 5 = word_of_int (0xc1 + 2 * sh_version h)"
  "mk_section h payload ! 6 = word_of_int (sh_number h)"
  by (simp_all add: mk_section_def sec_body_def Let_def)

lemma mk_section_split:
  "mk_section h payload = take 8 (sec_body h payload) @ payload @ crc_bytes (crc32_calc (sec_body h payload))"
  "length (take 8 (sec_body h payload)) = 8"
  by (simp_all add: mk_section_def sec_body_def Let_def)

lemma length_mk_section [simp]: "length (mk_section h payload) = length payload + 12"
  by (simp add: mk_section_def sec_body_def Let_def)

lemma byte_version:
  assumes "0 \<le> v" "v < 32"
  shows "version5 (word_of_int (0xc1 + 2 * v)) = v" "byte (word_of_int (0xc1 + 2 * v)) AND 0x01 \<noteq> 0"
proof -
  have b: "byte (word_of_int (0xc1 + 2 * v)) = 0xc1 + 2 * v"
    unfolding uint_word_of_int using assms by simp
  have "(0xc1 + 2 * v) div 2 = 0x60 + v" by simp
  then show "version5 (word_of_int (0xc1 + 2 * v)) = v"
    unfolding version5_def b and_low_masks drop_bit_eq_div
    using assms mod_mult_self3 [of 3 32 v] by (simp add: add.commute)
  show "byte (word_of_int (0xc1 + 2 * v)) AND 0x01 \<noteq> 0"
    unfolding b and_low_masks by presburger
qed

lemma syntax_indicator:
  assumes "0 \<le> n" "n < 0x1000"
  shows "byte (hi8 (0xb000 + n)) AND 0x80 \<noteq> 0"
proof -
  have "(0xb000 + n) div 256 = 0xb0 + n div 256" by simp
  moreover have "0 \<le> n div 256" "n div 256 < 16" using assms by auto
  ultimately have "byte (hi8 (0xb000 + n)) = 0xb0 + n div 256" by (simp add: byte_hi8)
  moreover have "bit (0xb0 + n div 256) 7"
    using int_div_pos_eq [of "0xb0 + n div 256" 128 1 "0x30 + n div 256"]
      \<open>0 \<le> n div 256\<close> \<open>n div 256 < 16\<close> by (simp add: bit_iff_odd)
  moreover have "bit (0x80 :: int) 7" by (simp add: bit_iff_odd)
  ultimately show ?thesis
    by (metis bit_and_iff bit_0_eq bot_apply bot_bool_def)
qed

text \<open>The section handler passes an intact section on to the parser of its table.\<close>

lemma handleSection_mk:
  assumes "hdr_ok h payload"
  shows "handleSection pid (mk_section h payload) s =
    (let s1 = s\<lparr>m_sections := m_sections s + 1\<rparr>; sec = mk_section h payload in
     if pid = PSI_PID_PAT then (if sh_table h = 0x00 then parsePAT sec s1 else Some s1)
     else if pid = PSI_PID_CAT then (if sh_table h = 0x01 then parseCAT sec s1 else Some s1)
     else if sh_table h = 0x02 then parsePMT pid sec s1
     else Some s1)"
proof -
  let ?sec = "mk_section h payload"
  have r: "rd ?sec 0 = Some (sh_table h)" "rd ?sec 1 = Some (hi8 (0xb000 + (int (length payload) + 9)))"
    "rd ?sec 5 = Some (word_of_int (0xc1 + 2 * sh_version h))"
    by (simp_all add: rd_def mk_section_def sec_body_def Let_def)
  have i: "byte (hi8 (0xb000 + (int (length payload) + 9))) AND 0x80 \<noteq> 0"
    using assms by (intro syntax_indicator) (auto simp: hdr_ok_def PSI_MAX_SECTION_LEN_def)
  have v: "byte (word_of_int (0xc1 + 2 * sh_version h)) AND 0x01 \<noteq> 0"
    using assms by (intro byte_version) (auto simp: hdr_ok_def PSI_MAX_SECTION_LEN_def)
  show ?thesis
    unfolding handleSection_def r Let_def Option.bind.bind_lunit crc32_mk_section
    using i v by (simp only: if_False simp_thms)
qed

lemma mk_section_version:
  assumes "hdr_ok h payload"
  shows "rd (mk_section h payload) 5 = Some (word_of_int (0xc1 + 2 * sh_version h))"
    "rd (mk_section h payload) 6 = Some (word_of_int (sh_number h))"
    "version5 (word_of_int (0xc1 + 2 * sh_version h)) = sh_version h"
    "byte (word_of_int (sh_number h)) = sh_number h"
proof -
  show "rd (mk_section h payload) 5 = Some (word_of_int (0xc1 + 2 * sh_version h))"
    "rd (mk_section h payload) 6 = Some (word_of_int (sh_number h))"
    by (simp_all add: rd_def mk_section_def sec_body_def Let_def)
  show "version5 (word_of_int (0xc1 + 2 * sh_version h)) = sh_version h"
    using assms by (intro byte_version) (auto simp: hdr_ok_def PSI_MAX_SECTION_LEN_def)
  show "byte (word_of_int (sh_number h)) = sh_number h"
    unfolding uint_word_of_int using assms by (simp add: hdr_ok_def)
qed

section \<open>Round trips\<close>

text \<open>
  What the tables should become: the section's pids replace those of the same section number,
  after a change of version those of all sections.
\<close>

definition kept_sections :: "bool \<Rightarrow> int \<Rightarrow> (int \<times> pids) list \<Rightarrow> (int \<rightharpoonup> pids)" where
  "kept_sections same n secs = (if same then (map_of secs)(n := None) else Map.empty)"

definition joined_sections :: "(int \<rightharpoonup> pids) \<Rightarrow> pids" where
  "joined_sections m = \<Union> (ran m)"

lemma all_section_pids_map: "distinct (map fst secs) \<Longrightarrow> all_section_pids secs = \<Union> (ran (map_of secs))"
  by (auto simp: all_section_pids_def fold_union ran_distinct)

lemma all_section_pids_update:
  assumes "distinct (map fst secs)"
  shows "all_section_pids (AList.update n ps (if same then secs else [])) =
    ps \<union> joined_sections (kept_sections same n secs)"
proof -
  let ?secs = "if same then secs else []"
  have "distinct (map fst (AList.update n ps ?secs))"
    using assms by (simp add: distinct_update)
  then have "all_section_pids (AList.update n ps ?secs) = \<Union> (ran ((map_of ?secs)(n \<mapsto> ps)))"
    by (simp only: all_section_pids_map update_conv')
  also have "\<dots> = ps \<union> \<Union> (ran ((map_of ?secs)(n := None)))"
    by (auto simp: ran_def split: if_splits)
  finally show ?thesis by (auto simp: joined_sections_def kept_sections_def)
qed

lemma handleSection_PAT_run:
  assumes "hdr_ok h (concat (map enc_program es))" "sh_table h = 0x00" "\<forall>e \<in> set es. program_ok e"
    and "distinct (map fst (m_pat_sections s))"
  defines "all \<equiv> service_pids es \<union> joined_sections
      (kept_sections (sh_version h = m_pat_version s) (sh_number h) (m_pat_sections s))"
  shows "handleSection PSI_PID_PAT (mk_section h (concat (map enc_program es))) s =
    (let s2 = s\<lparr>m_sections := m_sections s + 1, m_pat_version := sh_version h,
          m_pat_sections := AList.update (sh_number h) (service_pids es)
            (if sh_version h = m_pat_version s then m_pat_sections s else [])\<rparr> in
     if all \<noteq> m_pat_pmt_pids s
     then Some (s2\<lparr>m_pat_pmt_pids := all, m_pmt := eraseUnlisted (m_pmt s2) all, m_dirty := True\<rparr>)
     else Some s2)"
proof -
  let ?sec = "mk_section h (concat (map enc_program es))"
  let ?same = "sh_version h = m_pat_version s"
  have secs: "all_section_pids (AList.update (sh_number h) (service_pids es)
    (if ?same then m_pat_sections s else [])) = all"
    unfolding all_def by (rule all_section_pids_update [OF assms(4)])
  have loop: "pat_loop ?sec (length ?sec) 8 {} = Some (service_pids es)"
    using pat_loop_enc [OF assms(3) mk_section_split(1) length_crc_bytes, of h "{}"]
    unfolding mk_section_split(2) by simp
  have "handleSection PSI_PID_PAT ?sec s = parsePAT ?sec (s\<lparr>m_sections := m_sections s + 1\<rparr>)"
    unfolding handleSection_mk [OF assms(1)] Let_def using assms(2) by simp
  also have "\<dots> = (let s2 = s\<lparr>m_sections := m_sections s + 1, m_pat_version := sh_version h,
          m_pat_sections := AList.update (sh_number h) (service_pids es)
            (if ?same then m_pat_sections s else [])\<rparr> in
    if all \<noteq> m_pat_pmt_pids s
    then Some (s2\<lparr>m_pat_pmt_pids := all, m_pmt := eraseUnlisted (m_pmt s2) all, m_dirty := True\<rparr>)
    else Some s2)"
    unfolding parsePAT_def mk_section_version [OF assms(1)] loop Let_def Option.bind.bind_lunit
    using secs by (cases ?same) auto
  finally show ?thesis .
qed

text \<open>
  C18. Round trip of the program association table: an intact PAT section on the wire makes the
  services' pids (program 0 and unusable pids left out) known, joined with those of the other
  sections of the same version and with nothing else, forgets the program map tables of
  services that disappeared, and asks for a recomputation exactly when the set changed.
\<close>

theorem handleSection_PAT:
  assumes "hdr_ok h (concat (map enc_program es))" "sh_table h = 0x00" "\<forall>e \<in> set es. program_ok e"
    and "distinct (map fst (m_pat_sections s))"
  defines "all \<equiv> service_pids es \<union> joined_sections
      (kept_sections (sh_version h = m_pat_version s) (sh_number h) (m_pat_sections s))"
  shows "\<exists>s'. handleSection PSI_PID_PAT (mk_section h (concat (map enc_program es))) s = Some s' \<and>
    m_pat_version s' = sh_version h \<and> m_pat_pmt_pids s' = all \<and>
    map_of (m_pat_sections s') = (kept_sections (sh_version h = m_pat_version s) (sh_number h)
      (m_pat_sections s))(sh_number h \<mapsto> service_pids es) \<and>
    m_pmt s' = (if all = m_pat_pmt_pids s then m_pmt s else m_pmt s |` all) \<and>
    m_dirty s' = (m_dirty s \<or> all \<noteq> m_pat_pmt_pids s)"
  using handleSection_PAT_run [OF assms(1-4), folded all_def]
  by (cases "all = m_pat_pmt_pids s")
    (auto simp: Let_def update_conv' kept_sections_def eraseUnlisted_def restrict_map_def fun_eq_iff)

theorem handleSection_PAT_witness:
  "\<exists>s'. handleSection PSI_PID_PAT (mk_section \<lparr>sh_table = 0x00, sh_ext = 1, sh_version = 3,
      sh_number = 0, sh_last = 0\<rparr> (concat (map enc_program [(0, 16), (7, 0x100), (8, 0x1fff)])))
      (psi_init True True {} 0) = Some s' \<and> m_pat_pmt_pids s' = {0x100} \<and> m_dirty s'"
proof -
  let ?h = "\<lparr>sh_table = 0x00, sh_ext = 1, sh_version = 3, sh_number = 0, sh_last = 0\<rparr>"
  let ?es = "[(0, 16), (7, 0x100), (8, 0x1fff)]"
  have "service_pids ?es = {0x100}"
    by (auto simp: service_pids_def valid_pid_def PSI_PID_NULL_def)
  then show ?thesis
    using handleSection_PAT [of ?h ?es "psi_init True True {} 0"]
    by (auto simp: hdr_ok_def PSI_MAX_SECTION_LEN_def length_enc_program program_ok_def psi_init_def
        joined_sections_def kept_sections_def)
qed

text \<open>
  C19. Round trip of the conditional access table: an intact CAT section makes the pids of the
  CA descriptors of allowed CA systems known as EMM pids, joined with the other sections of the
  same version, and asks for a recomputation exactly when the set changed.
\<close>

theorem handleSection_CAT:
  assumes "hdr_ok h (enc_descs ds)" "sh_table h = 0x01" "\<forall>d \<in> set ds. desc_ok d"
    and "distinct (map fst (m_cat_sections s))"
  defines "emm \<equiv> (\<Union>d \<in> set ds. ca_pid_of (caidAllowed s) d)"
  defines "all \<equiv> emm \<union> joined_sections
      (kept_sections (sh_version h = m_cat_version s) (sh_number h) (m_cat_sections s))"
  shows "\<exists>s'. handleSection PSI_PID_CAT (mk_section h (enc_descs ds)) s = Some s' \<and>
    m_cat_version s' = sh_version h \<and> m_emm_pids s' = all \<and>
    map_of (m_cat_sections s') = (kept_sections (sh_version h = m_cat_version s) (sh_number h)
      (m_cat_sections s))(sh_number h \<mapsto> emm) \<and>
    m_dirty s' = (m_dirty s \<or> all \<noteq> m_emm_pids s)"
proof -
  let ?sec = "mk_section h (enc_descs ds)"
  let ?same = "sh_version h = m_cat_version s"
  define secs where "secs = AList.update (sh_number h) emm (if ?same then m_cat_sections s else [])"
  have secs: "all_section_pids secs = all"
    unfolding secs_def all_def by (rule all_section_pids_update [OF assms(4)])
  have "drop 8 ?sec = [] @ enc_descs ds @ crc_bytes (crc32_calc (sec_body h (enc_descs ds)))"
    by (simp add: mk_section_def sec_body_def Let_def)
  then have loop: "collectCaDescriptors (caidAllowed s) (drop 8 ?sec) (length ?sec - 4 - 8) 0 {} =
      Some emm"
    using collectCaDescriptors_enc [OF assms(3), of "drop 8 ?sec" "[]" _ "caidAllowed s" "{}"]
    by (simp add: emm_def)
  have allow: "caidAllowed (s\<lparr>m_sections := n\<rparr>) = caidAllowed s" for n
    by (simp add: caidAllowed_def fun_eq_iff)
  have "handleSection PSI_PID_CAT ?sec s = parseCAT ?sec (s\<lparr>m_sections := m_sections s + 1\<rparr>)"
    unfolding handleSection_mk [OF assms(1)] Let_def
    using assms(2) by (simp add: PSI_PID_CAT_def PSI_PID_PAT_def)
  also have "\<dots> = (let s2 = s\<lparr>m_sections := m_sections s + 1, m_cat_version := sh_version h,
      m_cat_sections := secs\<rparr> in
    if all \<noteq> m_emm_pids s then Some (s2\<lparr>m_emm_pids := all, m_dirty := True\<rparr>) else Some s2)"
    unfolding parseCAT_def mk_section_version [OF assms(1)] allow loop Let_def Option.bind.bind_lunit
    using secs by (cases ?same) (auto simp: secs_def)
  finally show ?thesis
    by (cases "all = m_emm_pids s")
      (auto simp: Let_def secs_def update_conv' kept_sections_def)
qed

theorem handleSection_CAT_witness:
  "\<exists>s'. handleSection PSI_PID_CAT (mk_section \<lparr>sh_table = 0x01, sh_ext = 0xffff, sh_version = 0,
      sh_number = 0, sh_last = 0\<rparr> (enc_descs [(0x09, [0x06, 0x04, 0xe0, 0x65]), (0x09, [0x18, 0x30, 0xe0, 0x66])]))
      (psi_init True True {0x604} 0) = Some s' \<and> m_emm_pids s' = {0x65} \<and> m_dirty s'"
proof -
  let ?h = "\<lparr>sh_table = 0x01, sh_ext = 0xffff, sh_version = 0, sh_number = 0, sh_last = 0\<rparr>"
  let ?ds = "[(0x09, [0x06, 0x04, 0xe0, 0x65]), (0x09, [0x18, 0x30, 0xe0, 0x66])] :: descriptor list"
  let ?s = "psi_init True True {0x604} 0"
  have "(\<Union>d \<in> set ?ds. ca_pid_of (caidAllowed ?s) d) = {0x65}"
    by (simp add: ca_pid_of_def caidAllowed_def psi_init_def pid13_arith be16_arith valid_pid_def
        PSI_PID_NULL_def)
  moreover have "hdr_ok ?h (enc_descs ?ds)" "\<forall>d \<in> set ?ds. desc_ok d"
    by (simp_all add: hdr_ok_def PSI_MAX_SECTION_LEN_def enc_descs_def enc_desc_def desc_ok_def)
  ultimately show ?thesis
    using handleSection_CAT [of ?h ?ds ?s]
    by (auto simp: psi_init_def joined_sections_def kept_sections_def)
qed

text \<open>The payload of a program map table: clock pid, program descriptors, elementary streams.\<close>

definition enc_pmt :: "pid \<Rightarrow> descriptor list \<Rightarrow> es_entry list \<Rightarrow> u8 list" where
  "enc_pmt pcr ds es =
     (let n = int (length (enc_descs ds)) in
      [hi8 (0xe000 + pcr), lo8 pcr, hi8 (0xf000 + n), lo8 n] @ enc_descs ds @ concat (map enc_es es))"

lemma parsePMT_enc:
  fixes h pcr ds es
  defines "sec \<equiv> mk_section h (enc_pmt pcr ds es)"
  assumes "hdr_ok h (enc_pmt pcr ds es)" "\<forall>d \<in> set ds. desc_ok d" "\<forall>e \<in> set es. es_ok e"
    and "pi_version (pmt_of s pid) \<noteq> sh_version h"
  defines "ecm \<equiv> (\<Union>d \<in> set ds. ca_pid_of (caidAllowed s) d) \<union> stream_ecm_pids (caidAllowed s) es"
  shows "parsePMT pid sec s =
    Some (s\<lparr>m_pmt := (m_pmt s)(pid \<mapsto> \<lparr>pi_version = sh_version h, pi_ecm_pids = ecm,
                                         pi_es_pids = stream_pids es\<rparr>),
            m_dirty := m_dirty s \<or> pi_ecm_pids (pmt_of s pid) \<noteq> ecm\<rparr>)"
proof -
  let ?n = "length (enc_descs ds)" and ?crc = "crc_bytes (crc32_calc (sec_body h (enc_pmt pcr ds es)))"
  let ?stop = "length sec - 4" and ?pre = "take (12 + length (enc_descs ds)) sec"
  have len: "length sec = 16 + ?n + length (concat (map enc_es es))"
    by (simp add: sec_def enc_pmt_def Let_def)
  have n: "int ?n < 0x1000" "nat (int ?n) = ?n"
    using assms(2) by (simp_all add: hdr_ok_def enc_pmt_def Let_def PSI_MAX_SECTION_LEN_def)
  have r: "rd sec 10 = Some (hi8 (0xf000 + int ?n))" "rd sec 11 = Some (lo8 (int ?n))"
    by (simp_all add: rd_def sec_def mk_section_def sec_body_def enc_pmt_def Let_def)
  have rs: "rd sec 3 = Some (sec ! 3)" "rd sec 4 = Some (sec ! 4)"
    "rd sec 5 = Some (word_of_int (0xc1 + 2 * sh_version h))"
    using len mk_section_version(1) [OF assms(2)] unfolding sec_def [symmetric]
    by (simp_all add: rd_Some)
  have split: "drop 12 sec = [] @ enc_descs ds @ (concat (map enc_es es) @ ?crc)"
    by (simp add: sec_def mk_section_def sec_body_def enc_pmt_def Let_def)
  have descs: "collectCaDescriptors (caidAllowed s) (drop 12 sec) ?n 0 {} =
      Some (\<Union>d \<in> set ds. ca_pid_of (caidAllowed s) d)"
    using collectCaDescriptors_enc [OF assms(3) split, of "caidAllowed s" "{}"] by simp
  have pre: "sec = ?pre @ concat (map enc_es es) @ ?crc" "length ?pre = 12 + ?n"
    using len arg_cong [OF split, of "drop ?n"] append_take_drop_id [of "12 + ?n" sec]
    by (simp_all add: add.commute)
  have "?stop = length ?pre + length (concat (map enc_es es))"
    unfolding pre(2) using len by simp
  then have streams: "pmt_es_loop (caidAllowed s) sec ?stop (12 + ?n)
      (\<Union>d \<in> set ds. ca_pid_of (caidAllowed s) d) {} = Some (ecm, stream_pids es)"
    using pmt_es_loop_enc [OF assms(4) pre(1), of ?stop "caidAllowed s" _ "{}"]
    unfolding pre(2) ecm_def by simp
  have le: "\<not> ?stop < 12" "\<not> 12 + ?n > ?stop" using len by auto
  show ?thesis
    unfolding parsePMT_def rs r Let_def Option.bind.bind_lunit mk_section_version(3) [OF assms(2)]
      len12_reserved [OF of_nat_0_le_iff n(1)] n(2) descs streams pmt_of_def [symmetric]
    using le assms(5)
    by (cases "pmt_of s pid"; cases "pi_ecm_pids (pmt_of s pid) = ecm") simp_all
qed

lemma handleSection_PMT_run:
  assumes "hdr_ok h (enc_pmt pcr ds es)" "sh_table h = 0x02" "PSI_PID_CAT < pid"
    and "\<forall>d \<in> set ds. desc_ok d" "\<forall>e \<in> set es. es_ok e"
    and "pi_version (pmt_of s pid) \<noteq> sh_version h"
  defines "ecm \<equiv> (\<Union>d \<in> set ds. ca_pid_of (caidAllowed s) d) \<union> stream_ecm_pids (caidAllowed s) es"
  shows "handleSection pid (mk_section h (enc_pmt pcr ds es)) s =
    Some (s\<lparr>m_sections := m_sections s + 1,
            m_pmt := (m_pmt s)(pid \<mapsto> \<lparr>pi_version = sh_version h, pi_ecm_pids = ecm,
                                         pi_es_pids = stream_pids es\<rparr>),
            m_dirty := m_dirty s \<or> pi_ecm_pids (pmt_of s pid) \<noteq> ecm\<rparr>)"
proof -
  let ?s = "s\<lparr>m_sections := m_sections s + 1\<rparr>"
  have same: "caidAllowed ?s = caidAllowed s" "pmt_of ?s = pmt_of s"
    by (simp_all add: caidAllowed_def pmt_of_def fun_eq_iff)
  have "handleSection pid (mk_section h (enc_pmt pcr ds es)) s =
    parsePMT pid (mk_section h (enc_pmt pcr ds es)) ?s"
    unfolding handleSection_mk [OF assms(1)] Let_def
    using assms(2,3) by (simp add: PSI_PID_CAT_def PSI_PID_PAT_def)
  then show ?thesis
    using parsePMT_enc [OF assms(1,4,5), where s = ?s and pid = pid] assms(6)
    by (simp add: same ecm_def)
qed

text \<open>
  C17. Round trip of the program map table: a new version of a service's PMT on the wire makes
  its elementary stream pids and the ECM pids of the allowed CA systems, from the program level
  and from every stream, known for that service; a recomputation is asked for exactly when the
  ECM pids changed.
\<close>

theorem handleSection_PMT:
  assumes "hdr_ok h (enc_pmt pcr ds es)" "sh_table h = 0x02" "PSI_PID_CAT < pid"
    and "\<forall>d \<in> set ds. desc_ok d" "\<forall>e \<in> set es. es_ok e"
    and "pi_version (pmt_of s pid) \<noteq> sh_version h"
  defines "ecm \<equiv> (\<Union>d \<in> set ds. ca_pid_of (caidAllowed s) d) \<union> stream_ecm_pids (caidAllowed s) es"
  shows "handleSection pid (mk_section h (enc_pmt pcr ds es)) s =
    Some (s\<lparr>m_sections := m_sections s + 1,
            m_pmt := (m_pmt s)(pid \<mapsto> \<lparr>pi_version = sh_version h, pi_ecm_pids = ecm,
                                         pi_es_pids = stream_pids es\<rparr>),
            m_dirty := m_dirty s \<or> pi_ecm_pids (pmt_of s pid) \<noteq> ecm\<rparr>)"
  unfolding ecm_def by (rule handleSection_PMT_run [OF assms(1-6)])

theorem handleSection_PMT_witness:
  "\<exists>s'. handleSection 0x100 (mk_section \<lparr>sh_table = 0x02, sh_ext = 7, sh_version = 1, sh_number = 0,
      sh_last = 0\<rparr> (enc_pmt 0x101 [(0x09, [0x06, 0x04, 0xe0, 0x65])]
        [\<lparr>es_type = 0x02, es_pid_of = 0x101, es_descs = [(0x09, [0x06, 0x04, 0xe0, 0x66])]\<rparr>]))
      (psi_init True True {} 0) = Some s' \<and>
    m_pmt s' 0x100 = Some \<lparr>pi_version = 1, pi_ecm_pids = {0x65, 0x66}, pi_es_pids = {0x101}\<rparr> \<and> m_dirty s'"
proof -
  let ?h = "\<lparr>sh_table = 0x02, sh_ext = 7, sh_version = 1, sh_number = 0, sh_last = 0\<rparr>"
  let ?ds = "[(0x09, [0x06, 0x04, 0xe0, 0x65])] :: descriptor list"
  let ?es = "[\<lparr>es_type = 0x02, es_pid_of = 0x101, es_descs = [(0x09, [0x06, 0x04, 0xe0, 0x66])]\<rparr>]"
  let ?s = "psi_init True True {} 0"
  have pids: "(\<Union>d \<in> set ?ds. ca_pid_of (caidAllowed ?s) d) \<union> stream_ecm_pids (caidAllowed ?s) ?es =
      {0x65, 0x66}" "stream_pids ?es = {0x101}"
    by (auto simp: stream_ecm_pids_def stream_pids_def ca_pid_of_def caidAllowed_def psi_init_def
        pid13_arith be16_arith valid_pid_def PSI_PID_NULL_def)
  have "hdr_ok ?h (enc_pmt 0x101 ?ds ?es)" "\<forall>d \<in> set ?ds. desc_ok d" "\<forall>e \<in> set ?es. es_ok e"
    by (simp_all add: hdr_ok_def PSI_MAX_SECTION_LEN_def enc_pmt_def enc_es_def enc_descs_def
        enc_desc_def desc_ok_def es_ok_def Let_def)
  moreover have "pmt_of ?s 0x100 = pmt_info_init"
    by (simp add: pmt_of_def psi_init_def)
  ultimately show ?thesis
    using handleSection_PMT [of ?h "0x101" ?ds ?es "0x100" ?s] unfolding pids
    by (simp add: pmt_info_init_def PSI_PID_CAT_def)
qed

end
