(* ===== verification/Psi.thy ===== *)
theory Psi
  imports Psi_Wire
begin

text \<open>
  The public operations of \<^verbatim>\<open>satipPSI\<close> (\<^verbatim>\<open>src/psi.cpp\<close>): \<^verbatim>\<open>recompute\<close>, \<^verbatim>\<open>reset\<close>,
  \<^verbatim>\<open>setJoinedPids\<close>, \<^verbatim>\<open>feed\<close> and \<^verbatim>\<open>processTS\<close>. Each holds the object's lock from beginning to
  end, so an operation is one step. The calls of \<^verbatim>\<open>satipConfig::setCaPids\<close> an operation makes
  are returned as a list of reported sets, in order; the configuration theory applies them.
\<close>

definition TS_PACKET_SIZE :: nat where "TS_PACKET_SIZE = 188"

section \<open>Operations\<close>

definition clearState :: "psi \<Rightarrow> psi" where
  "clearState s = s\<lparr>m_watched_pids := {}, m_pat_version := -1, m_cat_version := -1,
     m_pat_sections := [], m_cat_sections := [], m_pat_pmt_pids := {}, m_emm_pids := {},
     m_pmt := Map.empty, m_assembler := Map.empty, m_dirty := False\<rparr>"

text \<open>The body of the loop over the services; the set of active services is for the log only.\<close>

definition recompute_service :: "psi \<Rightarrow> pid \<Rightarrow> pids \<times> pids \<Rightarrow> pids \<times> pids" where
  "recompute_service s pmt_pid acc =
     (let derived = fst acc; watched = snd acc;
          is_active = (case m_pmt s pmt_pid of None \<Rightarrow> False
             | Some pmt \<Rightarrow> list_ex (\<lambda>es. es \<in> m_joined_pids s) (sorted_list_of_set (pi_es_pids pmt)));
          watched = insert pmt_pid watched in
      if \<not> is_active then (derived, watched)
      else
        (let derived = insert pmt_pid derived;
             derived = (case m_pmt s pmt_pid of None \<Rightarrow> derived
               | Some pmt \<Rightarrow> derived \<union> pi_ecm_pids pmt) in
         (derived, watched)))"

definition recompute :: "psi \<Rightarrow> psi \<times> pids list" where
  "recompute s =
     (let derived = {PSI_PID_PAT}; watched = {PSI_PID_PAT};
          derived = (if m_emm_enabled s then insert PSI_PID_CAT derived \<union> m_emm_pids s else derived);
          watched = (if m_emm_enabled s then insert PSI_PID_CAT watched else watched);
          acc = fold (recompute_service s) (sorted_list_of_set (m_pat_pmt_pids s)) (derived, watched);
          derived = fst acc; watched = snd acc;
          derived = (if card derived > PSI_MAX_DERIVED_PIDS
                     then first_n PSI_MAX_DERIVED_PIDS derived else derived);
          s1 = s\<lparr>m_assembler := eraseUnlisted (m_assembler s) watched, m_watched_pids := watched\<rparr> in
      if derived = m_derived_pids s1 then (s1, [])
      else (s1\<lparr>m_derived_pids := derived\<rparr>, if m_cfg s1 then [derived] else []))"

definition reset :: "psi \<Rightarrow> psi \<times> pids list" where
  "reset s = recompute ((clearState s)\<lparr>m_joined_pids := {}\<rparr>)"

definition satipPSI :: "bool \<Rightarrow> bool \<Rightarrow> int set \<Rightarrow> int \<Rightarrow> psi \<times> pids list" where
  "satipPSI cfg emm_enabled caid_filter tuner_id = reset (psi_init cfg emm_enabled caid_filter tuner_id)"

definition setJoinedPids :: "pids \<Rightarrow> psi \<Rightarrow> psi \<times> pids list" where
  "setJoinedPids pids s =
     (if pids \<noteq> m_joined_pids s then recompute (s\<lparr>m_joined_pids := pids\<rparr>) else (s, []))"

text \<open>\<^verbatim>\<open>sa\<close> is a reference to the map's entry, created when missing and written back here.\<close>

definition feed :: "pid \<Rightarrow> u8 list \<Rightarrow> bool \<Rightarrow> psi \<Rightarrow> psi option" where
  "feed pid buf allow_start s = do {
     let sa = (case m_assembler s pid of None \<Rightarrow> sa_init | Some sa \<Rightarrow> sa);
     r \<leftarrow> feed_loop (handleSection pid) allow_start buf sa s;
     Some ((snd r)\<lparr>m_assembler := (m_assembler (snd r))(pid \<mapsto> fst r)\<rparr>)
   }"

text \<open>
  The payload part of the loop body of \<^verbatim>\<open>processTS\<close>: pointer field, tail of the previous
  section, start of the next one. The inner \<open>None\<close> is the jump to the next packet when the
  pointer field leads behind this one.
\<close>

definition ts_payload :: "u8 list \<Rightarrow> u8 \<Rightarrow> pid \<Rightarrow> nat \<Rightarrow> psi \<Rightarrow> psi option option" where
  "ts_payload p b1 pid pos s =
     (if byte b1 AND 0x40 \<noteq> 0 then do {
        ptr \<leftarrow> rd p pos;
        let ptr = unat ptr;
        let pos = pos + 1;
        if pos + ptr > TS_PACKET_SIZE then Some None
        else do {
          s1 \<leftarrow> (if ptr > 0 then do { buf \<leftarrow> rd_range p pos ptr; feed pid buf False s } else Some s);
          let pos = pos + ptr;
          buf \<leftarrow> rd_range p pos (TS_PACKET_SIZE - pos);
          s2 \<leftarrow> feed pid buf True s1;
          Some (Some s2)
        }
      }
      else do {
        buf \<leftarrow> rd_range p pos (TS_PACKET_SIZE - pos);
        s2 \<leftarrow> feed pid buf False s;
        Some (Some s2)
      })"

definition flush_dirty :: "psi \<Rightarrow> psi \<times> pids list" where
  "flush_dirty s = (if m_dirty s then recompute (s\<lparr>m_dirty := False\<rparr>) else (s, []))"

text \<open>
  The loop body behind the sync byte test. The jump to the next packet (\<^verbatim>\<open>continue\<close>) is the
  early \<open>Some (s, [])\<close>; it also skips the test of the dirty flag.
\<close>

definition ts_packet :: "u8 list \<Rightarrow> psi \<Rightarrow> (psi \<times> pids list) option" where
  "ts_packet p s0 = do {
     let s = s0\<lparr>m_ts_packets := m_ts_packets s0 + 1\<rparr>;
     b1 \<leftarrow> rd p 1;
     b2 \<leftarrow> rd p 2;
     let pid = pid13 b1 b2;
     if pid \<notin> m_watched_pids s then Some (s, [])
     else do {
       b3 \<leftarrow> rd p 3;
       let afc = drop_bit 4 (byte b3) AND 0x03;
       if byte b3 AND 0xc0 \<noteq> 0 then Some (s, [])
       else if afc = 0 \<or> afc = 2 then Some (s, [])
       else do {
         af \<leftarrow> (if afc = 3 then do { b4 \<leftarrow> rd p 4; Some (1 + unat b4) } else Some 0);
         let pos = 4 + af;
         if afc = 3 \<and> pos \<ge> TS_PACKET_SIZE then Some (s, [])
         else do {
           fed \<leftarrow> ts_payload p b1 pid pos s;
           Some (case fed of None \<Rightarrow> (s, []) | Some s1 \<Rightarrow> flush_dirty s1)
         }
       }
     }
   }"

function ts_loop :: "u8 list \<Rightarrow> nat \<Rightarrow> nat \<Rightarrow> psi \<Rightarrow> (psi \<times> pids list) option" where
  "ts_loop data len off s =
     (if off + TS_PACKET_SIZE \<le> len then do {
        b0 \<leftarrow> rd data off;
        if b0 \<noteq> 0x47 then Some (s, [])
        else do {
          r \<leftarrow> ts_packet (drop off data) s;
          q \<leftarrow> ts_loop data len (off + TS_PACKET_SIZE) (fst r);
          Some (fst q, snd r @ snd q)
        }
      }
      else Some (s, []))"
  by pat_completeness auto
termination
  by (relation "measure (\<lambda>(data, len, off, s). len - off)") (auto simp: TS_PACKET_SIZE_def)

declare ts_loop.simps [simp del]

text \<open>
  \<open>now0\<close> and \<open>now1\<close> are the results of the two calls of \<^verbatim>\<open>time\<close>; the heartbeat only writes
  to the log.
\<close>

definition processTS :: "int \<Rightarrow> int \<Rightarrow> u8 list \<Rightarrow> nat \<Rightarrow> psi \<Rightarrow> (psi \<times> pids list) option" where
  "processTS now0 now1 data len s = do {
     let s1 = (if \<not> m_saw_data s then s\<lparr>m_saw_data := True, m_last_stats := now0\<rparr> else s);
     r \<leftarrow> ts_loop data len 0 s1;
     let s2 = fst r;
     Some (if now1 - m_last_stats s2 \<ge> 60 then s2\<lparr>m_last_stats := now1\<rparr> else s2, snd r)
   }"

section \<open>What is to be reported\<close>

text \<open>
  The specification of the derived pids: the PAT, the CAT and the EMM pids when EMM detection is
  on, and for every active service its PMT and its ECM pids. A service is active when one of its
  elementary streams has been joined.
\<close>

definition active_services :: "psi \<Rightarrow> pids" where
  "active_services s = {p \<in> m_pat_pmt_pids s. pi_es_pids (pmt_of s p) \<inter> m_joined_pids s \<noteq> {}}"

definition wanted_for :: "psi \<Rightarrow> pids \<Rightarrow> pids" where
  "wanted_for s A = {PSI_PID_PAT} \<union>
     (if m_emm_enabled s then insert PSI_PID_CAT (m_emm_pids s) else {}) \<union>
     (\<Union>p \<in> A. insert p (pi_ecm_pids (pmt_of s p)))"

definition wanted :: "psi \<Rightarrow> pids" where
  "wanted s = wanted_for s (active_services s)"

definition to_watch :: "psi \<Rightarrow> pids" where
  "to_watch s = {PSI_PID_PAT} \<union> (if m_emm_enabled s then {PSI_PID_CAT} else {}) \<union> m_pat_pmt_pids s"

lemma tables_ok_pmt:
  assumes "tables_ok s"
  shows "pi_es_pids (pmt_of s p) \<subseteq> valid_pids" "pi_ecm_pids (pmt_of s p) \<subseteq> valid_pids"
  using assms by (auto simp: tables_ok_def pmt_of_def pmt_info_init_def split: option.splits)

lemma finite_tables:
  assumes "tables_ok s"
  shows "finite (m_pat_pmt_pids s)" "finite (m_emm_pids s)" "finite (pi_es_pids (pmt_of s p))"
    "finite (pi_ecm_pids (pmt_of s p))"
  using tables_ok_pmt_pids [OF assms] tables_ok_emm_pids [OF assms] tables_ok_pmt [OF assms, of p]
  by (auto intro: finite_subset [OF _ finite_valid_pids])

lemma recompute_service_eq:
  assumes "tables_ok s"
  shows "recompute_service s p (d, w) =
    (if pi_es_pids (pmt_of s p) \<inter> m_joined_pids s \<noteq> {}
     then d \<union> insert p (pi_ecm_pids (pmt_of s p)) else d, insert p w)"
proof (cases "m_pmt s p")
  case None
  then show ?thesis by (simp add: recompute_service_def pmt_of_def pmt_info_init_def)
next
  case (Some i)
  then have "set (sorted_list_of_set (pi_es_pids i)) = pi_es_pids i"
    using finite_tables(3) [OF assms, of p] by (simp add: pmt_of_def)
  with Some show ?thesis
    by (auto simp: recompute_service_def pmt_of_def list_ex_iff Let_def)
qed

lemma fold_recompute_service:
  assumes "tables_ok s"
  shows "fold (recompute_service s) ps (d, w) =
    (d \<union> (\<Union>p \<in> {p \<in> set ps. pi_es_pids (pmt_of s p) \<inter> m_joined_pids s \<noteq> {}}.
            insert p (pi_ecm_pids (pmt_of s p))), set ps \<union> w)"
  by (induction ps arbitrary: d w) (auto simp: recompute_service_eq [OF assms])

lemma wanted_for_range:
  assumes "tables_ok s" "A \<subseteq> m_pat_pmt_pids s"
  shows "wanted_for s A \<subseteq> {0..<PSI_PID_NULL}"
  using tables_ok_pmt_pids [OF assms(1)] tables_ok_emm_pids [OF assms(1)] tables_ok_pmt(2) [OF assms(1)]
    assms(2)
  by (fastforce simp: wanted_for_def valid_pids_eq PSI_PID_NULL_def PSI_PID_PAT_def PSI_PID_CAT_def
      split: if_splits)

lemma finite_wanted_for: "tables_ok s \<Longrightarrow> A \<subseteq> m_pat_pmt_pids s \<Longrightarrow> finite (wanted_for s A)"
  by (rule finite_subset [OF wanted_for_range]) auto

lemma recompute_eq:
  assumes "tables_ok s"
  defines "d \<equiv> first_n PSI_MAX_DERIVED_PIDS (wanted s)"
  shows "recompute s =
    (s\<lparr>m_assembler := eraseUnlisted (m_assembler s) (to_watch s), m_watched_pids := to_watch s,
       m_derived_pids := d\<rparr>,
     if d \<noteq> m_derived_pids s \<and> m_cfg s then [d] else [])"
proof -
  let ?d0 = "if m_emm_enabled s then insert PSI_PID_CAT {PSI_PID_PAT} \<union> m_emm_pids s else {PSI_PID_PAT}"
  let ?w0 = "if m_emm_enabled s then insert PSI_PID_CAT {PSI_PID_PAT} else {PSI_PID_PAT}"
  have fold: "fold (recompute_service s) (sorted_list_of_set (m_pat_pmt_pids s)) (?d0, ?w0) =
      (wanted s, to_watch s)"
    unfolding fold_recompute_service [OF assms(1)]
    using finite_tables(1) [OF assms(1)]
    by (auto simp: wanted_def wanted_for_def to_watch_def active_services_def)
  have "finite (wanted s)"
    unfolding wanted_def by (rule finite_wanted_for [OF assms(1)]) (auto simp: active_services_def)
  then have d: "(if card (wanted s) > PSI_MAX_DERIVED_PIDS
      then first_n PSI_MAX_DERIVED_PIDS (wanted s) else wanted s) = d"
    by (simp add: d_def first_n_all)
  show ?thesis
    unfolding recompute_def Let_def fold fst_conv snd_conv d by simp
qed

section \<open>Invariant\<close>

definition asm_ok :: "psi \<Rightarrow> bool" where
  "asm_ok s \<longleftrightarrow> (\<forall>p sa. m_assembler s p = Some sa \<longrightarrow> p \<in> m_watched_pids s \<and> sa_ok sa)"

text \<open>
  Between two operations: the parsed tables are in order, assemblers exist for watched pids only,
  exactly the PAT, the CAT and the services' tables are watched, no recomputation is pending, and
  the derived pids are the (truncated) pids of the PAT, the current EMM pids and the current
  ECM pids of some of the current services.
\<close>

definition psi_ok :: "psi \<Rightarrow> bool" where
  "psi_ok s \<longleftrightarrow> tables_ok s \<and> asm_ok s \<and> m_watched_pids s = to_watch s \<and> \<not> m_dirty s \<and>
     (\<exists>A \<subseteq> m_pat_pmt_pids s. m_derived_pids s = first_n PSI_MAX_DERIVED_PIDS (wanted_for s A))"

definition in_sync :: "psi \<Rightarrow> bool" where
  "in_sync s \<longleftrightarrow> m_derived_pids s = first_n PSI_MAX_DERIVED_PIDS (wanted s)"

definition good_report :: "pids \<Rightarrow> bool" where
  "good_report r \<longleftrightarrow> r \<subseteq> {0..<PSI_PID_NULL} \<and> PSI_PID_PAT \<in> r \<and> card r \<le> PSI_MAX_DERIVED_PIDS"

text \<open>A chain of reports: each differs from the one before, the last one is the final set.\<close>

fun chain :: "pids \<Rightarrow> pids list \<Rightarrow> pids \<Rightarrow> bool" where
  "chain d [] d' \<longleftrightarrow> d' = d"
| "chain d (r # rs) d' \<longleftrightarrow> r \<noteq> d \<and> chain r rs d'"

lemma chain_append: "chain a xs b \<Longrightarrow> chain b ys c \<Longrightarrow> chain a (xs @ ys) c"
  by (induction xs arbitrary: a) auto

lemma chain_last: "chain a xs b \<Longrightarrow> b = last (a # xs)"
  by (induction xs arbitrary: a) auto

definition reported :: "psi \<Rightarrow> pids list \<Rightarrow> psi \<Rightarrow> bool" where
  "reported s reps s' \<longleftrightarrow> m_cfg s' = m_cfg s \<and>
     (if m_cfg s then chain (m_derived_pids s) reps (m_derived_pids s') else reps = []) \<and>
     (\<forall>r \<in> set reps. good_report r)"

lemma reported_refl [simp]: "reported s [] s"
  by (simp add: reported_def)

lemma reported_trans: "reported a xs b \<Longrightarrow> reported b ys c \<Longrightarrow> reported a (xs @ ys) c"
  by (auto simp: reported_def intro: chain_append)

lemma good_report_first_n:
  assumes "tables_ok s" "A \<subseteq> m_pat_pmt_pids s"
  shows "good_report (first_n PSI_MAX_DERIVED_PIDS (wanted_for s A))"
proof -
  note fin = finite_wanted_for [OF assms] and range = wanted_for_range [OF assms]
  have "PSI_PID_PAT \<in> first_n PSI_MAX_DERIVED_PIDS (wanted_for s A)"
    by (rule first_n_Min [OF fin])
      (use range in \<open>auto simp: wanted_for_def PSI_PID_PAT_def PSI_MAX_DERIVED_PIDS_def\<close>)
  moreover have "card (first_n PSI_MAX_DERIVED_PIDS (wanted_for s A)) \<le> PSI_MAX_DERIVED_PIDS"
    unfolding card_first_n [OF fin] by simp
  ultimately show ?thesis
    using first_n_subset [OF fin, of PSI_MAX_DERIVED_PIDS] range by (auto simp: good_report_def)
qed

lemma active_services_subset: "active_services s \<subseteq> m_pat_pmt_pids s"
  by (auto simp: active_services_def)

lemma recompute_ok:
  assumes "tables_ok s" "asm_ok s" "\<not> m_dirty s" "recompute s = (s', reps)"
  shows "psi_ok s'" "in_sync s'" "reported s reps s'"
proof -
  let ?d = "first_n PSI_MAX_DERIVED_PIDS (wanted s)"
  have s': "s' = s\<lparr>m_assembler := eraseUnlisted (m_assembler s) (to_watch s),
      m_watched_pids := to_watch s, m_derived_pids := ?d\<rparr>"
    and reps: "reps = (if ?d \<noteq> m_derived_pids s \<and> m_cfg s then [?d] else [])"
    using assms(4) by (simp_all add: recompute_eq [OF assms(1)])
  have same: "pmt_of s' = pmt_of s" "wanted_for s' = wanted_for s" "to_watch s' = to_watch s"
    "active_services s' = active_services s"
    by (simp_all add: s' pmt_of_def wanted_for_def to_watch_def active_services_def fun_eq_iff)
  show sync: "in_sync s'"
    unfolding in_sync_def wanted_def same by (simp add: s' wanted_def)
  have "asm_ok s'" "tables_ok s'" "\<not> m_dirty s'" "m_watched_pids s' = to_watch s'"
    using assms(1-3) unfolding same by (auto simp: s' asm_ok_def eraseUnlisted_def tables_ok_def)
  then show "psi_ok s'"
    using sync active_services_subset [of s'] by (auto simp: psi_ok_def in_sync_def wanted_def)
  show "reported s reps s'"
    using good_report_first_n [OF assms(1) active_services_subset]
    by (auto simp: reported_def reps s' wanted_def)
qed

section \<open>Feeding payloads keeps the invariant\<close>

text \<open>\<open>fed s0 s\<close>: \<open>s\<close> is reached from \<open>s0\<close> by feeding payloads, recomputation still pending.\<close>

definition fed :: "psi \<Rightarrow> psi \<Rightarrow> bool" where
  "fed s0 s \<longleftrightarrow> parse_inv (s0\<lparr>m_assembler := m_assembler s\<rparr>) s \<and> asm_ok s"

lemma fed_refl: "tables_ok s \<Longrightarrow> asm_ok s \<Longrightarrow> fed s s"
  by (simp add: fed_def parse_inv_refl)

lemma fed_watched: "fed s0 s \<Longrightarrow> m_watched_pids s = m_watched_pids s0"
  by (simp add: fed_def parse_inv_def same_setup_def)

lemma feed_safe:
  assumes "fed s0 s" "pid \<in> m_watched_pids s"
  shows "\<exists>s'. feed pid buf allow_start s = Some s' \<and> fed s0 s'"
proof -
  let ?s0 = "s0\<lparr>m_assembler := m_assembler s\<rparr>"
  let ?sa = "case m_assembler s pid of None \<Rightarrow> sa_init | Some sa \<Rightarrow> sa"
  have "sa_ok ?sa" using assms(1) by (auto simp: fed_def asm_ok_def split: option.splits)
  then obtain sa' s1 where loop: "feed_loop (handleSection pid) allow_start buf ?sa s = Some (sa', s1)"
    and ok: "sa_ok sa'" "parse_inv ?s0 s1"
    using psi_sink.feed_loop_safe [of ?sa ?s0 s pid allow_start buf] assms(1)
    by (auto simp: fed_def)
  have "fed s0 (s1\<lparr>m_assembler := (m_assembler s1)(pid \<mapsto> sa')\<rparr>)"
    using assms ok unfolding fed_def parse_inv_def
    by (auto simp: same_setup_def tracked_def same_inputs_def asm_ok_def tables_ok_def pmt_of_def)
  then show ?thesis by (simp add: feed_def loop)
qed

lemma ts_payload_safe:
  assumes "fed s0 s" "pid \<in> m_watched_pids s" "TS_PACKET_SIZE \<le> length p" "pos < TS_PACKET_SIZE"
  shows "\<exists>r. ts_payload p b1 pid pos s = Some r \<and> (\<forall>s'. r = Some s' \<longrightarrow> fed s0 s')"
proof (cases "byte b1 AND 0x40 \<noteq> 0")
  case True
  let ?ptr = "unat (p ! pos)"
  have ptr: "rd p pos = Some (p ! pos)" using assms(3,4) by (simp add: rd_def)
  show ?thesis
  proof (cases "pos + 1 + ?ptr > TS_PACKET_SIZE")
    case True
    with \<open>byte b1 AND 0x40 \<noteq> 0\<close> show ?thesis by (simp add: ts_payload_def ptr)
  next
    case False
    then have rd: "rd_range p (pos + 1) ?ptr = Some (take ?ptr (drop (pos + 1) p))"
      "rd_range p (pos + 1 + ?ptr) (TS_PACKET_SIZE - (pos + 1 + ?ptr)) =
         Some (take (TS_PACKET_SIZE - (pos + 1 + ?ptr)) (drop (pos + 1 + ?ptr) p))"
      using assms(3) by (simp_all add: rd_range_def)
    obtain t where t: "feed pid (take ?ptr (drop (pos + 1) p)) False s = Some t" "fed s0 t"
      using feed_safe [OF assms(1,2)] by blast
    define s1 where "s1 = (if ?ptr > 0 then t else s)"
    have s1: "(if ?ptr > 0 then feed pid (take ?ptr (drop (pos + 1) p)) False s else Some s) = Some s1"
      "fed s0 s1"
      unfolding t(1) using t(2) assms(1) by (simp_all add: s1_def)
    obtain s2 where s2: "feed pid (take (TS_PACKET_SIZE - (pos + 1 + ?ptr)) (drop (pos + 1 + ?ptr) p))
        True s1 = Some s2" "fed s0 s2"
      using feed_safe [OF s1(2), of pid] assms(2)
      unfolding fed_watched [OF assms(1)] fed_watched [OF s1(2)] by blast
    have "ts_payload p b1 pid pos s = Some (Some s2)"
      unfolding ts_payload_def Let_def ptr Option.bind.bind_lunit rd s1(1) s2(1)
      using True False by (simp only: if_False if_True simp_thms)
    with s2(2) show ?thesis by simp
  qed
next
  case False
  have rd: "rd_range p pos (TS_PACKET_SIZE - pos) = Some (take (TS_PACKET_SIZE - pos) (drop pos p))"
    using assms(3,4) by (simp add: rd_range_def)
  show ?thesis
    using feed_safe [OF assms(1,2), of "take (TS_PACKET_SIZE - pos) (drop pos p)" False] False rd
    by (auto simp: ts_payload_def)
qed

text \<open>Without a pending recomputation the derived pids are still those of the same services.\<close>

lemma fed_clean:
  assumes "fed s0 s" "psi_ok s0" "\<not> m_dirty s"
  shows "psi_ok s" "m_derived_pids s = m_derived_pids s0" "wanted_for s = wanted_for s0"
    "m_pat_pmt_pids s = m_pat_pmt_pids s0"
proof -
  have same: "m_pat_pmt_pids s = m_pat_pmt_pids s0" "m_emm_pids s = m_emm_pids s0"
    "\<And>p. pi_ecm_pids (pmt_of s p) = pi_ecm_pids (pmt_of s0 p)"
    "m_emm_enabled s = m_emm_enabled s0" "m_watched_pids s = m_watched_pids s0"
    "m_derived_pids s = m_derived_pids s0" "tables_ok s" "asm_ok s"
    using assms(1,3)
    by (auto simp: fed_def parse_inv_def tracked_def same_inputs_def same_setup_def pmt_of_def)
  then show "wanted_for s = wanted_for s0" "m_derived_pids s = m_derived_pids s0"
    "m_pat_pmt_pids s = m_pat_pmt_pids s0"
    by (simp_all add: wanted_for_def fun_eq_iff)
  then show "psi_ok s"
    using assms(2,3) same by (simp add: psi_ok_def to_watch_def)
qed

definition same_streams :: "psi \<Rightarrow> psi \<Rightarrow> bool" where
  "same_streams s s' \<longleftrightarrow>
     (\<forall>p \<in> m_pat_pmt_pids s'. pi_es_pids (pmt_of s' p) = pi_es_pids (pmt_of s p))"

lemma flush_dirty_ok:
  assumes "fed s0 s" "psi_ok s0" "flush_dirty s = (s', reps)"
  shows "psi_ok s' \<and> reported s0 reps s' \<and> (in_sync s0 \<and> same_streams s0 s' \<longrightarrow> in_sync s') \<and>
    m_joined_pids s' = m_joined_pids s0"
proof (cases "m_dirty s")
  case False
  then have s': "s' = s" "reps = []" using assms(3) by (simp_all add: flush_dirty_def)
  note clean = fed_clean [OF assms(1,2) False]
  have j: "m_joined_pids s = m_joined_pids s0" "m_cfg s = m_cfg s0"
    using assms(1) by (simp_all add: fed_def parse_inv_def same_setup_def)
  have "active_services s = active_services s0" if "same_streams s0 s"
    using that j(1) clean(4) by (auto simp: active_services_def same_streams_def)
  then show ?thesis
    using clean j by (auto simp: s' in_sync_def wanted_def reported_def)
next
  case True
  let ?s = "s\<lparr>m_dirty := False\<rparr>"
  have run: "recompute ?s = (s', reps)" using True assms(3) by (simp add: flush_dirty_def)
  have ok: "tables_ok ?s" "asm_ok ?s" "\<not> m_dirty ?s"
    using assms(1) by (simp_all add: fed_def parse_inv_def asm_ok_def tables_ok_def)
  have "m_joined_pids s' = m_joined_pids s"
    using run by (auto simp: recompute_eq [OF ok(1)])
  then show ?thesis
    using recompute_ok [OF ok run] assms(1)
    by (auto simp: reported_def fed_def parse_inv_def same_setup_def)
qed

lemma ts_packet_safe:
  assumes "psi_ok s" "TS_PACKET_SIZE \<le> length p"
  shows "\<exists>s' reps. ts_packet p s = Some (s', reps) \<and> psi_ok s' \<and> reported s reps s' \<and>
    (in_sync s \<and> same_streams s s' \<longrightarrow> in_sync s') \<and> m_joined_pids s' = m_joined_pids s"
proof -
  let ?s = "s\<lparr>m_ts_packets := m_ts_packets s + 1\<rparr>"
  let ?pid = "pid13 (p ! 1) (p ! 2)" and ?afc = "drop_bit 4 (byte (p ! 3)) AND 0x03"
  let ?pos = "4 + (if ?afc = 3 then 1 + unat (p ! 4) else 0)"
  have rds: "rd p 1 = Some (p ! 1)" "rd p 2 = Some (p ! 2)" "rd p 3 = Some (p ! 3)"
    "rd p 4 = Some (p ! 4)"
    using assms(2) by (simp_all add: rd_def TS_PACKET_SIZE_def)
  have eq: "pmt_of ?s = pmt_of s" "wanted_for ?s = wanted_for s" "to_watch ?s = to_watch s"
    "active_services ?s = active_services s"
    by (simp_all add: pmt_of_def wanted_for_def to_watch_def active_services_def fun_eq_iff)
  have "psi_ok ?s = psi_ok s"
    by (simp add: psi_ok_def tables_ok_def asm_ok_def eq)
  then have ok: "psi_ok ?s" "reported s r t = reported ?s r t" "in_sync ?s = in_sync s"
    "same_streams s t = same_streams ?s t" for r t
    using assms(1) by (simp_all add: eq reported_def in_sync_def wanted_def same_streams_def)
  have fed: "fed ?s ?s" using ok(1) by (intro fed_refl) (simp_all add: psi_ok_def)
  have pos: "\<not> (?afc = 3 \<and> ?pos \<ge> TS_PACKET_SIZE) \<Longrightarrow> ?pos < TS_PACKET_SIZE"
    by (auto simp: TS_PACKET_SIZE_def)
  have step: "ts_packet p s =
    (if ?pid \<notin> m_watched_pids ?s \<or> byte (p ! 3) AND 0xc0 \<noteq> 0 \<or> ?afc = 0 \<or> ?afc = 2 \<or>
        ?afc = 3 \<and> ?pos \<ge> TS_PACKET_SIZE then Some (?s, [])
     else do { f \<leftarrow> ts_payload p (p ! 1) ?pid ?pos ?s;
               Some (case f of None \<Rightarrow> (?s, []) | Some s1 \<Rightarrow> flush_dirty s1) })"
    unfolding ts_packet_def rds Let_def Option.bind.bind_lunit by auto
  show ?thesis
  proof (cases "?pid \<notin> m_watched_pids ?s \<or> byte (p ! 3) AND 0xc0 \<noteq> 0 \<or> ?afc = 0 \<or> ?afc = 2 \<or>
        ?afc = 3 \<and> ?pos \<ge> TS_PACKET_SIZE")
    case True
    then have "ts_packet p s = Some (?s, [])" unfolding step by (simp only: if_True)
    then show ?thesis using ok by simp
  next
    case False
    then obtain f where f: "ts_payload p (p ! 1) ?pid ?pos ?s = Some f" "\<forall>s1. f = Some s1 \<longrightarrow> fed ?s s1"
      using ts_payload_safe [OF fed _ assms(2) pos, of ?pid "p ! 1"] by blast
    have run: "ts_packet p s = Some (case f of None \<Rightarrow> (?s, []) | Some s1 \<Rightarrow> flush_dirty s1)"
      unfolding step f(1) using False by (simp only: if_False Option.bind.bind_lunit)
    show ?thesis
    proof (cases f)
      case None
      then show ?thesis using run ok by simp
    next
      case (Some s1)
      obtain s' reps where s': "flush_dirty s1 = (s', reps)" by fastforce
      show ?thesis
        using flush_dirty_ok [OF _ ok(1) s'] f(2) Some run s' by (simp add: ok)
    qed
  qed
qed

lemma ts_loop_safe:
  assumes "psi_ok s" "len \<le> length data"
  shows "\<exists>s' reps. ts_loop data len off s = Some (s', reps) \<and> psi_ok s' \<and> reported s reps s' \<and>
    m_joined_pids s' = m_joined_pids s"
  using assms
proof (induction "len - off" arbitrary: off s rule: less_induct)
  case less
  show ?case
  proof (cases "off + TS_PACKET_SIZE \<le> len")
    case False
    then show ?thesis using less by (simp add: ts_loop.simps [of _ _ off])
  next
    case True
    then have rd: "rd data off = Some (data ! off)" "TS_PACKET_SIZE \<le> length (drop off data)"
      using less(3) by (simp_all add: rd_def TS_PACKET_SIZE_def)
    have lt: "len - (off + TS_PACKET_SIZE) < len - off" using True by (simp add: TS_PACKET_SIZE_def)
    obtain s1 r1 where s1: "ts_packet (drop off data) s = Some (s1, r1)" "psi_ok s1" "reported s r1 s1"
      "m_joined_pids s1 = m_joined_pids s"
      using ts_packet_safe [OF less(2) rd(2)] by blast
    obtain s2 r2 where s2: "ts_loop data len (off + TS_PACKET_SIZE) s1 = Some (s2, r2)" "psi_ok s2"
      "reported s1 r2 s2" "m_joined_pids s2 = m_joined_pids s1"
      using less(1) [OF lt s1(2) less(3)] by blast
    show ?thesis
    proof (cases "data ! off = 0x47")
      case True
      then have "ts_loop data len off s = Some (s2, r1 @ r2)"
        using \<open>off + TS_PACKET_SIZE \<le> len\<close> by (simp add: ts_loop.simps [of _ _ off] rd(1) s1(1) s2(1))
      then show ?thesis using s2 s1(4) reported_trans [OF s1(3) s2(3)] by simp
    next
      case False
      then have "ts_loop data len off s = Some (s, [])"
        using \<open>off + TS_PACKET_SIZE \<le> len\<close> by (simp add: ts_loop.simps [of _ _ off] rd(1))
      then show ?thesis using less(2) by simp
    qed
  qed
qed

section \<open>Properties of the operations\<close>

lemma psi_ok_last_stats [simp]:
  "psi_ok (s\<lparr>m_last_stats := n\<rparr>) = psi_ok s" "psi_ok (s\<lparr>m_saw_data := b\<rparr>) = psi_ok s"
  "reported (s\<lparr>m_saw_data := b\<rparr>) r t = reported s r t"
  "reported (s\<lparr>m_last_stats := n\<rparr>) r t = reported s r t"
  "reported s r (t\<lparr>m_last_stats := n\<rparr>) = reported s r t"
  by (simp_all add: psi_ok_def tables_ok_def asm_ok_def to_watch_def wanted_for_def pmt_of_def
      reported_def)

lemma processTS_run:
  assumes "psi_ok s" "len \<le> length data"
  shows "\<exists>s' reps. processTS now0 now1 data len s = Some (s', reps) \<and> psi_ok s' \<and>
    reported s reps s' \<and> m_joined_pids s' = m_joined_pids s"
proof -
  let ?s = "if \<not> m_saw_data s then s\<lparr>m_saw_data := True, m_last_stats := now0\<rparr> else s"
  have "psi_ok ?s" using assms(1) by (cases "m_saw_data s") simp_all
  then obtain s' reps where run: "ts_loop data len 0 ?s = Some (s', reps)" "psi_ok s'"
    "reported ?s reps s'" "m_joined_pids s' = m_joined_pids ?s"
    using ts_loop_safe [OF _ assms(2), of ?s 0] by blast
  then have "reported s reps s'" "m_joined_pids s' = m_joined_pids s"
    by (cases "m_saw_data s"; simp)+
  with run show ?thesis by (auto simp: processTS_def)
qed

text \<open>
  C1. The tap survives every input: on any bytes received from the network, aligned or not,
  scrambled, truncated or corrupt, \<^verbatim>\<open>processTS\<close> reads and writes only inside the received buffer
  and its own section buffers, terminates, and leaves the object in a consistent state.
\<close>

theorem processTS_safe:
  assumes "psi_ok s" "len \<le> length data"
  shows "\<exists>s' reps. processTS now0 now1 data len s = Some (s', reps) \<and> psi_ok s' \<and>
    (\<forall>r \<in> set reps. good_report r)"
  using processTS_run [OF assms, of now0 now1] by (auto simp: reported_def)

lemma reset_ok:
  assumes "reset s = (s', reps)"
  shows "psi_ok s'" "in_sync s'" "reported s reps s'" "m_pat_pmt_pids s' = {}" "m_joined_pids s' = {}"
proof -
  let ?s = "(clearState s)\<lparr>m_joined_pids := {}\<rparr>"
  have ok: "tables_ok ?s" "asm_ok ?s" "\<not> m_dirty ?s"
    by (simp_all add: clearState_def tables_ok_def asm_ok_def all_section_pids_def)
  have run: "recompute ?s = (s', reps)" using assms by (simp add: reset_def)
  show "psi_ok s'" "in_sync s'" by (rule recompute_ok [OF ok run])+
  have "reported ?s reps s'" by (rule recompute_ok [OF ok run])
  then show "reported s reps s'" by (simp add: reported_def clearState_def split: if_splits)
  show "m_pat_pmt_pids s' = {}" "m_joined_pids s' = {}"
    using run unfolding recompute_eq [OF ok(1)] by (auto simp: clearState_def)
qed

theorem processTS_safe_witness:
  "\<exists>s' reps. processTS 0 0 (replicate 376 0x47) 376 (fst (satipPSI True True {} 0)) = Some (s', reps) \<and>
    psi_ok s' \<and> (\<forall>r \<in> set reps. good_report r)"
proof (rule processTS_safe)
  show "psi_ok (fst (satipPSI True True {} 0))"
    using reset_ok(1) [of "psi_init True True {} 0" "fst (satipPSI True True {} 0)"
        "snd (satipPSI True True {} 0)"]
    by (simp add: satipPSI_def)
qed simp

text \<open>
  C16. Recomputation meets its specification: the derived pids are the PAT, with EMM detection the
  CAT and the EMM pids, and for every service with a joined elementary stream its PMT and
  its ECM pids; of more than 32 the 32 smallest are kept, and the configuration is told
  exactly when the set changed.
\<close>

theorem recompute_meets_spec:
  assumes "tables_ok s" "recompute s = (s', reps)"
  shows "m_derived_pids s' \<subseteq> wanted s \<and>
    card (m_derived_pids s') = min PSI_MAX_DERIVED_PIDS (card (wanted s)) \<and>
    (\<forall>x \<in> m_derived_pids s'. \<forall>y \<in> wanted s - m_derived_pids s'. x < y) \<and>
    m_watched_pids s' = to_watch s \<and>
    reps = (if m_cfg s \<and> m_derived_pids s' \<noteq> m_derived_pids s then [m_derived_pids s'] else [])"
proof -
  have fin: "finite (wanted s)"
    unfolding wanted_def by (rule finite_wanted_for [OF assms(1) active_services_subset])
  have d: "m_derived_pids s' = first_n PSI_MAX_DERIVED_PIDS (wanted s)"
    "m_watched_pids s' = to_watch s"
    "reps = (if first_n PSI_MAX_DERIVED_PIDS (wanted s) \<noteq> m_derived_pids s \<and> m_cfg s
       then [first_n PSI_MAX_DERIVED_PIDS (wanted s)] else [])"
    using assms(2) by (auto simp: recompute_eq [OF assms(1)])
  show ?thesis
    using first_n_subset [OF fin] first_n_least [OF fin] by (auto simp: d card_first_n [OF fin])
qed

theorem recompute_meets_spec_witness:
  "m_derived_pids (fst (recompute ((psi_init True True {} 0)\<lparr>m_cat_sections := [(0, {0x65})],
     m_emm_pids := {0x65}\<rparr>))) \<subseteq> {0, 1, 0x65}"
proof -
  let ?s = "(psi_init True True {} 0)\<lparr>m_cat_sections := [(0, {0x65})], m_emm_pids := {0x65}\<rparr>"
  have "tables_ok ?s"
    by (simp add: tables_ok_def psi_init_def secs_ok_def all_section_pids_def valid_pids_def
        valid_pid_def PSI_PID_NULL_def)
  moreover have "wanted ?s = {0, 1, 0x65}"
    by (auto simp: wanted_def wanted_for_def active_services_def psi_init_def PSI_PID_PAT_def
        PSI_PID_CAT_def)
  ultimately show ?thesis
    using recompute_meets_spec [of ?s "fst (recompute ?s)" "snd (recompute ?s)"] by simp
qed

text \<open>
  The dirty flag is sound: a packet that leaves the elementary streams of the services as
  they are keeps the derived pids equal to their specification, whatever it changes in the
  services, the EMM pids and the ECM pids.
\<close>

theorem ts_packet_in_sync:
  assumes "psi_ok s" "in_sync s" "TS_PACKET_SIZE \<le> length p"
    and "ts_packet p s = Some (s', reps)" "same_streams s s'"
  shows "in_sync s'"
  using ts_packet_safe [OF assms(1,3)] assms(2,4,5) by simp

theorem ts_packet_in_sync_witness:
  "\<exists>s' reps. ts_packet (0x47 # replicate 187 0xff) (fst (satipPSI True True {} 0)) = Some (s', reps) \<and>
     in_sync s'"
proof -
  let ?s = "fst (satipPSI True True {} 0)" and ?p = "0x47 # replicate 187 0xff :: u8 list"
  have ok: "psi_ok ?s" "in_sync ?s"
    using reset_ok(1,2) [of "psi_init True True {} 0" ?s "snd (satipPSI True True {} 0)"]
    by (simp_all add: satipPSI_def)
  have "pid13 0xff 0xff = 0x1fff" by (simp add: pid13_arith)
  moreover have "0x1fff \<notin> m_watched_pids ?s"
    using ok(1) by (auto simp: psi_ok_def to_watch_def PSI_PID_PAT_def PSI_PID_CAT_def
        satipPSI_def reset_ok(4) [OF surjective_pairing])
  ultimately have run: "ts_packet ?p ?s = Some (?s\<lparr>m_ts_packets := m_ts_packets ?s + 1\<rparr>, [])"
    by (simp add: ts_packet_def rd_def)
  have "in_sync (?s\<lparr>m_ts_packets := m_ts_packets ?s + 1\<rparr>)"
    by (rule ts_packet_in_sync [OF ok _ run]) (simp_all add: TS_PACKET_SIZE_def same_streams_def pmt_of_def)
  with run show ?thesis by blast
qed

section \<open>All histories\<close>

text \<open>
  The object over its life: the constructor, then retunes, changes of the kernel's pid list and
  received data in any order; \<open>hist\<close> is the list of all sets reported to the configuration.
\<close>

inductive psi_reach :: "bool \<Rightarrow> bool \<Rightarrow> int set \<Rightarrow> int \<Rightarrow> psi \<Rightarrow> pids list \<Rightarrow> bool"
  for cfg emm caids tuner where
  start: "satipPSI cfg emm caids tuner = (s, reps) \<Longrightarrow> psi_reach cfg emm caids tuner s reps"
| retune: "psi_reach cfg emm caids tuner s hist \<Longrightarrow> reset s = (s', reps) \<Longrightarrow>
    psi_reach cfg emm caids tuner s' (hist @ reps)"
| joined: "psi_reach cfg emm caids tuner s hist \<Longrightarrow> setJoinedPids pids s = (s', reps) \<Longrightarrow>
    psi_reach cfg emm caids tuner s' (hist @ reps)"
| data: "psi_reach cfg emm caids tuner s hist \<Longrightarrow> len \<le> length buf \<Longrightarrow>
    processTS now0 now1 buf len s = Some (s', reps) \<Longrightarrow>
    psi_reach cfg emm caids tuner s' (hist @ reps)"

lemma setJoinedPids_ok:
  assumes "psi_ok s" "setJoinedPids pids s = (s', reps)"
  shows "psi_ok s' \<and> reported s reps s' \<and> m_joined_pids s' = pids \<and> (in_sync s \<longrightarrow> in_sync s')"
proof (cases "pids = m_joined_pids s")
  case True
  then show ?thesis using assms by (simp add: setJoinedPids_def)
next
  case False
  let ?s = "s\<lparr>m_joined_pids := pids\<rparr>"
  have ok: "tables_ok ?s" "asm_ok ?s" "\<not> m_dirty ?s"
    using assms(1) by (auto simp: psi_ok_def tables_ok_def asm_ok_def)
  have run: "recompute ?s = (s', reps)" using False assms(2) by (simp add: setJoinedPids_def)
  then have "m_joined_pids s' = pids" by (auto simp: recompute_eq [OF ok(1)])
  then show ?thesis
    using recompute_ok [OF ok run] by (simp add: reported_def split: if_splits)
qed

lemma psi_reach_reported:
  assumes "psi_reach cfg emm caids tuner s hist"
  shows "psi_ok s \<and> reported (psi_init cfg emm caids tuner) hist s"
  using assms
proof induction
  case (start s reps)
  then show ?case using reset_ok [of "psi_init cfg emm caids tuner"] by (simp add: satipPSI_def)
next
  case (retune s hist s' reps)
  then show ?case using reset_ok [of s] reported_trans by blast
next
  case (joined s hist pids s' reps)
  then show ?case using setJoinedPids_ok [of s pids] reported_trans by blast
next
  case (data s hist len buf now0 now1 s' reps)
  then show ?case using processTS_run [of s len buf now0 now1] reported_trans by fastforce
qed

text \<open>
  C14. What the configuration was told last is what the tap derives now, in every reachable
  state: reports are never lost, never repeated, and each of them holds the PAT, only usable pids,
  and at most 32 of them.
\<close>

theorem psi_history:
  assumes "psi_reach True emm caids tuner s hist"
  shows "psi_ok s \<and> hist \<noteq> [] \<and> last hist = m_derived_pids s \<and> chain {} hist (m_derived_pids s) \<and>
    (\<forall>r \<in> set hist. good_report r)"
proof -
  note inv = psi_reach_reported [OF assms]
  then have chain: "chain {} hist (m_derived_pids s)" "\<forall>r \<in> set hist. good_report r"
    by (simp_all add: reported_def psi_init_def)
  obtain A where A: "tables_ok s" "A \<subseteq> m_pat_pmt_pids s"
    "m_derived_pids s = first_n PSI_MAX_DERIVED_PIDS (wanted_for s A)"
    using inv unfolding psi_ok_def by blast
  have "m_derived_pids s \<noteq> {}"
    using good_report_first_n [OF A(1,2)] unfolding A(3) by (auto simp: good_report_def)
  then have "hist \<noteq> []" using chain(1) by (cases hist) auto
  then show ?thesis using inv chain chain_last [OF chain(1)] by simp
qed

theorem psi_history_witness:
  "last (snd (satipPSI True True {} 0) @ snd (setJoinedPids {0x101} (fst (satipPSI True True {} 0)))) =
   m_derived_pids (fst (setJoinedPids {0x101} (fst (satipPSI True True {} 0))))"
proof -
  let ?a = "satipPSI True True {} 0"
  let ?b = "setJoinedPids {0x101} (fst ?a)"
  have "psi_reach True True {} 0 (fst ?a) (snd ?a)" by (rule psi_reach.start) simp
  then have "psi_reach True True {} 0 (fst ?b) (snd ?a @ snd ?b)"
    by (rule psi_reach.joined) simp
  from psi_history [OF this] show ?thesis by simp
qed

section \<open>From packets to reported pids\<close>

text \<open>A transport packet that carries one whole section behind an empty pointer field.\<close>

definition mk_packet :: "pid \<Rightarrow> u8 list \<Rightarrow> u8 list" where
  "mk_packet pid sec = [0x47, hi8 (0x4000 + pid), lo8 pid, 0x10, 0x00] @ sec @
     replicate (183 - length sec) 0xff"

lemma packet_header:
  assumes "0 \<le> pid" "pid < 0x2000"
  shows "pid13 (hi8 (0x4000 + pid)) (lo8 pid) = pid" "byte (hi8 (0x4000 + pid)) AND 0x40 \<noteq> 0"
proof -
  have d: "(0x4000 + pid) div 256 = 0x40 + pid div 256" by simp
  have q: "0 \<le> pid div 256" "pid div 256 < 32" using assms by auto
  then have b: "byte (hi8 (0x4000 + pid)) = 0x40 + pid div 256" unfolding byte_hi8 d by simp
  then show "pid13 (hi8 (0x4000 + pid)) (lo8 pid) = pid"
    unfolding pid13_arith b byte_lo8 using mod_mult_self3 [of 2 32 "pid div 256"] q
    by (simp add: div_mult_mod_eq)
  have "bit (0x40 + pid div 256) 6"
    using int_div_pos_eq [of "0x40 + pid div 256" 64 1 "pid div 256"] q by (simp add: bit_iff_odd)
  moreover have "bit (0x40 :: int) 6" by (simp add: bit_iff_odd)
  ultimately show "byte (hi8 (0x4000 + pid)) AND 0x40 \<noteq> 0"
    unfolding b by (metis bit_and_iff bit_0_eq bot_apply bot_bool_def)
qed

lemma ts_packet_section:
  assumes "pid \<in> m_watched_pids s" "0 \<le> pid" "pid < 0x2000" "wf_section sec" "length sec \<le> 183"
    and "m_assembler s pid = None \<or> m_assembler s pid = Some sa_init"
    and "handleSection pid sec (s\<lparr>m_ts_packets := m_ts_packets s + 1\<rparr>) = Some s1"
  shows "ts_packet (mk_packet pid sec @ rest) s =
    Some (flush_dirty (s1\<lparr>m_assembler := (m_assembler s1)(pid \<mapsto> sa_init)\<rparr>))"
proof -
  let ?p = "mk_packet pid sec @ rest" and ?s = "s\<lparr>m_ts_packets := m_ts_packets s + 1\<rparr>"
  let ?buf = "sec @ replicate (183 - length sec) 0xff"
  have b: "rd ?p 1 = Some (hi8 (0x4000 + pid))" "rd ?p 2 = Some (lo8 pid)" "rd ?p 3 = Some 0x10"
    "rd ?p 4 = Some 0"
    by (simp_all add: rd_def mk_packet_def nth_append)
  have buf: "rd_range ?p 5 183 = Some ?buf"
    using assms(5) by (simp add: rd_range_def mk_packet_def)
  have afc: "drop_bit 4 (byte (0x10 :: u8)) AND 0x03 = 1" "byte (0x10 :: u8) AND 0xc0 = 0"
    by (simp_all add: drop_bit_eq_div and_low_masks)
  have sec: "sec \<noteq> []" using assms(4) by (auto simp: wf_section_def)
  have sa: "(case m_assembler ?s pid of None \<Rightarrow> sa_init | Some sa \<Rightarrow> sa) = sa_init"
    using assms(6) by auto
  have "replicate (183 - length sec) (0xff :: u8) = [] \<or> hd (replicate (183 - length sec) (0xff :: u8)) = 0xff"
    by (cases "183 - length sec") simp_all
  then have "feed_loop (handleSection pid) True ?buf sa_init ?s = Some (sa_init, s1)"
    using feed_complete [OF assms(4), of "[]" sec True "handleSection pid" "replicate (183 - length sec) 0xff" ?s]
      sec assms(7) feed_loop_idle [of "replicate (183 - length sec) 0xff" True "handleSection pid" s1]
    by auto
  then have feed: "feed pid ?buf True ?s = Some (s1\<lparr>m_assembler := (m_assembler s1)(pid \<mapsto> sa_init)\<rparr>)"
    unfolding feed_def Let_def sa by simp
  have "ts_payload ?p (hi8 (0x4000 + pid)) pid 4 ?s =
      Some (Some (s1\<lparr>m_assembler := (m_assembler s1)(pid \<mapsto> sa_init)\<rparr>))"
    using packet_header(2) [OF assms(2,3)] buf feed
    by (simp add: ts_payload_def b(4) TS_PACKET_SIZE_def)
  then show ?thesis
    unfolding ts_packet_def Let_def b Option.bind.bind_lunit packet_header(1) [OF assms(2,3)] afc
    using assms(1) by simp
qed

text \<open>The state after a retune, as far as the tables are concerned.\<close>

definition fresh :: "psi \<Rightarrow> bool" where
  "fresh s \<longleftrightarrow> psi_ok s \<and> m_pat_version s = -1 \<and> m_pat_sections s = [] \<and> m_pat_pmt_pids s = {} \<and>
     m_emm_pids s = {} \<and> m_pmt s = Map.empty \<and> m_assembler s = Map.empty"

definition same_options :: "psi \<Rightarrow> psi \<Rightarrow> bool" where
  "same_options s s' \<longleftrightarrow> m_cfg s' = m_cfg s \<and> m_emm_enabled s' = m_emm_enabled s \<and>
     m_caid_filter s' = m_caid_filter s \<and> m_joined_pids s' = m_joined_pids s"

lemma wf_mk_section:
  assumes "hdr_ok h payload" "sh_table h \<noteq> 0xff"
  shows "wf_section (mk_section h payload)"
proof -
  let ?n = "int (length payload) + 9"
  have n: "?n < 0x1000" using assms(1) by (simp add: hdr_ok_def PSI_MAX_SECTION_LEN_def)
  have d: "(0xb000 + ?n) div 256 = 0xb0 + ?n div 256" by simp
  have q: "0 \<le> ?n div 256" "?n div 256 < 16" using n by auto
  then have "byte (hi8 (0xb000 + ?n)) mod 16 = ?n div 256"
    unfolding byte_hi8 d using mod_mult_self3 [of 11 16 "?n div 256"] by simp
  then have "len12 (hi8 (0xb000 + ?n)) (lo8 ?n) = ?n"
    unfolding len12_arith byte_lo8 by (simp only: div_mult_mod_eq)
  then show ?thesis
    unfolding wf_section_def mk_section_bytes using assms by (simp add: hdr_ok_def)
qed

lemma first_pat:
  assumes "fresh s" "hdr_ok h (concat (map enc_program ps))" "sh_table h = 0x00"
    and "\<forall>e \<in> set ps. program_ok e" "service_pids ps \<noteq> {}"
    and "length (concat (map enc_program ps)) \<le> 171"
  shows "\<exists>s' reps. ts_packet (mk_packet PSI_PID_PAT (mk_section h (concat (map enc_program ps))) @ rest) s =
      Some (s', reps) \<and> psi_ok s' \<and> reported s reps s' \<and> same_options s s' \<and>
      m_pat_pmt_pids s' = service_pids ps \<and> m_emm_pids s' = {} \<and> m_pmt s' = Map.empty \<and>
      (\<forall>p. p \<noteq> PSI_PID_PAT \<longrightarrow> m_assembler s' p = None)"
proof -
  let ?sec = "mk_section h (concat (map enc_program ps))"
  let ?s = "s\<lparr>m_ts_packets := m_ts_packets s + 1\<rparr>"
  let ?s1 = "?s\<lparr>m_sections := m_sections s + 1, m_pat_version := sh_version h,
      m_pat_sections := [(sh_number h, service_pids ps)], m_pat_pmt_pids := service_pids ps,
      m_pmt := Map.empty, m_dirty := True\<rparr>"
  let ?s2 = "?s1\<lparr>m_assembler := [PSI_PID_PAT \<mapsto> sa_init], m_dirty := False\<rparr>"
  have fr: "tables_ok s" "m_watched_pids s = to_watch s" "m_assembler s = Map.empty" "m_pmt s = Map.empty"
    "m_pat_sections s = []" "m_pat_version s = -1" "m_pat_pmt_pids s = {}" "m_emm_pids s = {}"
    using assms(1) by (simp_all add: fresh_def psi_ok_def)
  have h: "sh_version h \<noteq> -1" using assms(2) by (auto simp: hdr_ok_def)
  have run: "handleSection PSI_PID_PAT ?sec ?s = Some ?s1"
    using handleSection_PAT_run [OF assms(2-4), of ?s] h assms(5)
    by (simp add: fr kept_sections_def joined_sections_def Let_def)
  have "service_pids ps \<subseteq> valid_pids" by (auto simp: service_pids_def valid_pids_def)
  then have ok: "tables_ok ?s2" "asm_ok ?s2" "\<not> m_dirty ?s2"
    using fr(1,8) by (auto simp: tables_ok_def secs_ok_def all_section_pids_def asm_ok_def fr to_watch_def)
  have "ts_packet (mk_packet PSI_PID_PAT ?sec @ rest) s =
      Some (flush_dirty (?s1\<lparr>m_assembler := (m_assembler ?s1)(PSI_PID_PAT \<mapsto> sa_init)\<rparr>))"
    by (rule ts_packet_section [OF _ _ _ wf_mk_section _ _ run])
      (use assms(2,3,6) in \<open>simp_all add: fr to_watch_def PSI_PID_PAT_def\<close>)
  also have "\<dots> = Some (recompute ?s2)"
    by (simp add: flush_dirty_def fr)
  finally have pkt: "ts_packet (mk_packet PSI_PID_PAT ?sec @ rest) s = Some (recompute ?s2)" .
  obtain s' reps where s': "recompute ?s2 = (s', reps)" by fastforce
  have "same_options s s' \<and> m_pat_pmt_pids s' = service_pids ps \<and> m_emm_pids s' = {} \<and>
      m_pmt s' = Map.empty \<and> (\<forall>p. p \<noteq> PSI_PID_PAT \<longrightarrow> m_assembler s' p = None)"
    using s' unfolding recompute_eq [OF ok(1)] by (auto simp: same_options_def fr eraseUnlisted_def)
  moreover have "reported s reps s'"
    using recompute_ok(3) [OF ok s'] by (simp add: reported_def split: if_splits)
  ultimately show ?thesis
    unfolding pkt s' using recompute_ok(1) [OF ok s'] by blast
qed

lemma first_pmt:
  assumes "psi_ok s" "pid \<in> m_pat_pmt_pids s" "PSI_PID_CAT < pid" "m_emm_pids s = {}"
    and "m_pmt s = Map.empty" "m_assembler s pid = None"
    and "hdr_ok h (enc_pmt pcr ds es)" "sh_table h = 0x02"
    and "\<forall>d \<in> set ds. desc_ok d" "\<forall>e \<in> set es. es_ok e" "length (enc_pmt pcr ds es) \<le> 171"
    and "stream_pids es \<inter> m_joined_pids s \<noteq> {}"
  defines "ecm \<equiv> (\<Union>d \<in> set ds. ca_pid_of (caidAllowed s) d) \<union> stream_ecm_pids (caidAllowed s) es"
  assumes "ecm \<noteq> {}"
  shows "\<exists>s' reps. ts_packet (mk_packet pid (mk_section h (enc_pmt pcr ds es)) @ rest) s = Some (s', reps) \<and>
      reported s reps s' \<and>
      m_derived_pids s' = first_n PSI_MAX_DERIVED_PIDS
        ({PSI_PID_PAT} \<union> (if m_emm_enabled s then {PSI_PID_CAT} else {}) \<union> insert pid ecm)"
proof -
  let ?sec = "mk_section h (enc_pmt pcr ds es)"
  let ?s = "s\<lparr>m_ts_packets := m_ts_packets s + 1\<rparr>"
  let ?i = "\<lparr>pi_version = sh_version h, pi_ecm_pids = ecm, pi_es_pids = stream_pids es\<rparr>"
  let ?s1 = "?s\<lparr>m_sections := m_sections s + 1, m_pmt := [pid \<mapsto> ?i], m_dirty := True\<rparr>"
  let ?s2 = "?s1\<lparr>m_assembler := (m_assembler s)(pid \<mapsto> sa_init), m_dirty := False\<rparr>"
  have ok: "tables_ok s" "asm_ok s" "m_watched_pids s = to_watch s"
    using assms(1) by (simp_all add: psi_ok_def)
  have caid: "caidAllowed ?s = caidAllowed s" by (simp add: caidAllowed_def fun_eq_iff)
  have empty: "pmt_of ?s pid = pmt_info_init" by (simp add: pmt_of_def assms(5))
  have "pi_version (pmt_of ?s pid) \<noteq> sh_version h" "pi_ecm_pids (pmt_of ?s pid) \<noteq> ecm"
    using assms(7,14) unfolding empty by (auto simp: hdr_ok_def pmt_info_init_def)
  then have run: "handleSection pid ?sec ?s = Some ?s1"
    using handleSection_PMT_run [OF assms(7,8,3,9,10), of ?s] unfolding caid ecm_def
    by (simp add: assms(5))
  have range: "0 \<le> pid" "pid < 0x2000"
    using assms(2) tables_ok_pmt_pids [OF ok(1)] by (auto simp: valid_pids_eq PSI_PID_NULL_def)
  have "ecm \<subseteq> valid_pids" "stream_pids es \<subseteq> valid_pids"
    by (auto simp: ecm_def stream_ecm_pids_def ca_pid_of_def stream_pids_def valid_pids_def Let_def
        split: if_splits)
  then have ok2: "tables_ok ?s2" "\<not> m_dirty ?s2"
    using ok by (auto simp: tables_ok_def)
  have "pid \<in> m_watched_pids s" using assms(2) by (simp add: ok(3) to_watch_def)
  then have asm: "asm_ok ?s2" using ok(2) by (simp add: asm_ok_def)
  have "ts_packet (mk_packet pid ?sec @ rest) s =
      Some (flush_dirty (?s1\<lparr>m_assembler := (m_assembler ?s1)(pid \<mapsto> sa_init)\<rparr>))"
    by (rule ts_packet_section [OF _ range wf_mk_section _ _ run])
      (use assms(2,6,7,8,11) in \<open>simp_all add: ok to_watch_def\<close>)
  also have "\<dots> = Some (recompute ?s2)" by (simp add: flush_dirty_def)
  finally have pkt: "ts_packet (mk_packet pid ?sec @ rest) s = Some (recompute ?s2)" .
  obtain s' reps where s': "recompute ?s2 = (s', reps)" by fastforce
  have "active_services ?s2 = {pid}"
    using assms(2,12) by (auto simp: active_services_def pmt_of_def pmt_info_init_def)
  then have "wanted ?s2 = {PSI_PID_PAT} \<union> (if m_emm_enabled s then {PSI_PID_CAT} else {}) \<union> insert pid ecm"
    by (simp add: wanted_def wanted_for_def pmt_of_def assms(4))
  then have "m_derived_pids s' = first_n PSI_MAX_DERIVED_PIDS
      ({PSI_PID_PAT} \<union> (if m_emm_enabled s then {PSI_PID_CAT} else {}) \<union> insert pid ecm)"
    using s' unfolding recompute_eq [OF ok2(1)] by auto
  moreover have "reported s reps s'"
    using recompute_ok(3) [OF ok2(1) asm ok2(2) s'] by (simp add: reported_def split: if_splits)
  ultimately show ?thesis unfolding pkt s' by blast
qed

lemma length_mk_packet: "length sec \<le> 183 \<Longrightarrow> length (mk_packet pid sec) = 188"
  by (simp add: mk_packet_def)

lemma ts_loop_two:
  assumes "ts_packet (a @ b) s = Some (s1, r1)" "ts_packet b s1 = Some (s2, r2)"
    and "length a = 188" "length b = 188" "a ! 0 = 0x47" "b ! 0 = 0x47"
  shows "ts_loop (a @ b) 376 0 s = Some (s2, r1 @ r2)"
proof -
  have "rd (a @ b) 0 = Some 0x47" "rd (a @ b) 188 = Some 0x47"
    using assms(3-6) by (simp_all add: rd_def nth_append)
  then show ?thesis
    using assms by (simp add: ts_loop.simps [of _ _ 0] ts_loop.simps [of _ _ 188] ts_loop.simps [of _ _ 376]
        TS_PACKET_SIZE_def)
qed

text \<open>
  C2. End to end: after a retune, once the kernel has joined an elementary stream of a scrambled
  service, the packets with the PAT and with that service's PMT make the tap derive the
  service's PMT pid and the ECM pids of the allowed CA systems, and nothing else besides
  the PAT (and the CAT with EMM detection), and the configuration has been told.
\<close>

theorem tap_reports_ecm_pids:
  assumes "fresh s" "(n, pid) \<in> set ps" "n \<noteq> 0" "PSI_PID_CAT < pid" "valid_pid pid"
    and "hdr_ok h (concat (map enc_program ps))" "sh_table h = 0x00" "\<forall>e \<in> set ps. program_ok e"
    and "length (concat (map enc_program ps)) \<le> 171"
    and "hdr_ok k (enc_pmt pcr ds es)" "sh_table k = 0x02"
    and "\<forall>d \<in> set ds. desc_ok d" "\<forall>e \<in> set es. es_ok e" "length (enc_pmt pcr ds es) \<le> 171"
    and "stream_pids es \<inter> m_joined_pids s \<noteq> {}"
  defines "ecm \<equiv> (\<Union>d \<in> set ds. ca_pid_of (caidAllowed s) d) \<union> stream_ecm_pids (caidAllowed s) es"
  assumes "ecm \<noteq> {}"
  shows "\<exists>s' reps. processTS now0 now1
        (mk_packet PSI_PID_PAT (mk_section h (concat (map enc_program ps))) @
         mk_packet pid (mk_section k (enc_pmt pcr ds es))) 376 s = Some (s', reps) \<and>
      m_derived_pids s' = first_n PSI_MAX_DERIVED_PIDS
        ({PSI_PID_PAT} \<union> (if m_emm_enabled s then {PSI_PID_CAT} else {}) \<union> insert pid ecm) \<and>
      (m_cfg s \<longrightarrow> m_derived_pids s' = last (m_derived_pids s # reps))"
proof -
  let ?s = "if \<not> m_saw_data s then s\<lparr>m_saw_data := True, m_last_stats := now0\<rparr> else s"
  let ?a = "mk_packet PSI_PID_PAT (mk_section h (concat (map enc_program ps)))"
  let ?b = "mk_packet pid (mk_section k (enc_pmt pcr ds es))"
  have fresh: "fresh ?s" using assms(1) by (cases "m_saw_data s") (simp_all add: fresh_def)
  have opt: "same_options s ?s" "m_derived_pids ?s = m_derived_pids s"
    by (cases "m_saw_data s"; simp add: same_options_def)+
  have mem: "pid \<in> service_pids ps" using assms(2,3,5) by (auto simp: service_pids_def)
  then obtain s1 r1 where s1: "ts_packet (?a @ ?b) ?s = Some (s1, r1)" "psi_ok s1" "reported ?s r1 s1"
    "same_options ?s s1" "m_pat_pmt_pids s1 = service_pids ps" "m_emm_pids s1 = {}" "m_pmt s1 = Map.empty"
    "\<forall>p. p \<noteq> PSI_PID_PAT \<longrightarrow> m_assembler s1 p = None"
    using first_pat [OF fresh assms(6-8) _ assms(9), of ?b] by blast
  have same: "caidAllowed s1 = caidAllowed s" "m_joined_pids s1 = m_joined_pids s"
    "m_emm_enabled s1 = m_emm_enabled s" "m_cfg s1 = m_cfg s" "m_cfg ?s = m_cfg s"
    using s1(4) opt(1) by (simp_all add: same_options_def caidAllowed_def fun_eq_iff)
  have idle: "m_assembler s1 pid = None" using s1(8) assms(4) by (simp add: PSI_PID_CAT_def PSI_PID_PAT_def)
  obtain s2 r2 where s2: "ts_packet ?b s1 = Some (s2, r2)" "reported s1 r2 s2"
    "m_derived_pids s2 = first_n PSI_MAX_DERIVED_PIDS
       ({PSI_PID_PAT} \<union> (if m_emm_enabled s then {PSI_PID_CAT} else {}) \<union> insert pid ecm)"
    using first_pmt [OF s1(2) _ assms(4) s1(6,7) idle assms(10-14), of "[]"] mem assms(15,17)
    unfolding same s1(5) ecm_def append_Nil2 by blast
  have loop: "ts_loop (?a @ ?b) 376 0 ?s = Some (s2, r1 @ r2)"
    by (rule ts_loop_two [OF s1(1) s2(1)])
      (use assms(9,14) in \<open>simp_all add: length_mk_packet, simp_all add: mk_packet_def\<close>)
  have "reported ?s (r1 @ r2) s2" by (rule reported_trans [OF s1(3) s2(2)])
  then have "m_cfg s \<longrightarrow> m_derived_pids s2 = last (m_derived_pids s # r1 @ r2)"
    unfolding reported_def same opt(2) using chain_last [of "m_derived_pids s" "r1 @ r2"] by metis
  then show ?thesis
    unfolding processTS_def Let_def loop s2(3) [symmetric] by auto
qed

lemma fresh_joined:
  assumes "reset s = (s0, r0)" "setJoinedPids pids s0 = (s1, r1)"
  shows "fresh s1 \<and> m_joined_pids s1 = pids \<and> m_caid_filter s1 = m_caid_filter s \<and>
    m_emm_enabled s1 = m_emm_enabled s \<and> m_cfg s1 = m_cfg s"
proof -
  let ?s = "(clearState s)\<lparr>m_joined_pids := {}\<rparr>"
  have ok0: "tables_ok ?s" by (simp add: clearState_def tables_ok_def all_section_pids_def)
  have s0: "m_pat_version s0 = -1 \<and> m_pat_sections s0 = [] \<and> m_pat_pmt_pids s0 = {} \<and>
      m_emm_pids s0 = {} \<and> m_pmt s0 = Map.empty \<and> m_assembler s0 = Map.empty \<and>
      m_caid_filter s0 = m_caid_filter s \<and> m_emm_enabled s0 = m_emm_enabled s \<and> m_cfg s0 = m_cfg s"
    using assms(1) unfolding reset_def recompute_eq [OF ok0] by (auto simp: clearState_def)
  have psi: "psi_ok s0" by (rule reset_ok(1) [OF assms(1)])
  then have ok1: "tables_ok (s0\<lparr>m_joined_pids := pids\<rparr>)" by (simp add: psi_ok_def tables_ok_def)
  have "psi_ok s1" "m_joined_pids s1 = pids" using setJoinedPids_ok [OF psi assms(2)] by simp_all
  moreover have "m_pat_version s1 = -1 \<and> m_pat_sections s1 = [] \<and> m_pat_pmt_pids s1 = {} \<and>
      m_emm_pids s1 = {} \<and> m_pmt s1 = Map.empty \<and> m_assembler s1 = Map.empty \<and>
      m_caid_filter s1 = m_caid_filter s \<and> m_emm_enabled s1 = m_emm_enabled s \<and> m_cfg s1 = m_cfg s"
    using assms(2) s0 unfolding setJoinedPids_def recompute_eq [OF ok1]
    by (auto split: if_splits)
  ultimately show ?thesis by (simp add: fresh_def)
qed

theorem tap_reports_ecm_pids_witness:
  "\<exists>s' reps. processTS 0 0
      (mk_packet PSI_PID_PAT (mk_section \<lparr>sh_table = 0x00, sh_ext = 1, sh_version = 3, sh_number = 0,
         sh_last = 0\<rparr> (concat (map enc_program [(7, 0x100)]))) @
       mk_packet 0x100 (mk_section \<lparr>sh_table = 0x02, sh_ext = 7, sh_version = 1, sh_number = 0,
         sh_last = 0\<rparr> (enc_pmt 0x101 [(0x09, [0x06, 0x04, 0xe0, 0x65])]
           [\<lparr>es_type = 0x02, es_pid_of = 0x101, es_descs = []\<rparr>])))
      376 (fst (setJoinedPids {0x101} (fst (satipPSI True False {} 0)))) = Some (s', reps) \<and>
    m_derived_pids s' = {0, 0x100, 0x65}"
proof -
  let ?h = "\<lparr>sh_table = 0x00, sh_ext = 1, sh_version = 3, sh_number = 0, sh_last = 0\<rparr>"
  let ?k = "\<lparr>sh_table = 0x02, sh_ext = 7, sh_version = 1, sh_number = 0, sh_last = 0\<rparr>"
  let ?ds = "[(0x09, [0x06, 0x04, 0xe0, 0x65])] :: descriptor list"
  let ?es = "[\<lparr>es_type = 0x02, es_pid_of = 0x101, es_descs = []\<rparr>]"
  let ?s = "fst (setJoinedPids {0x101} (fst (satipPSI True False {} 0)))"
  have s: "fresh ?s" "m_joined_pids ?s = {0x101}" "m_caid_filter ?s = {}" "\<not> m_emm_enabled ?s"
    using fresh_joined [OF surjective_pairing surjective_pairing, of "{0x101}" "psi_init True False {} 0"]
    by (simp_all add: satipPSI_def psi_init_def)
  have ecm: "(\<Union>d \<in> set ?ds. ca_pid_of (caidAllowed ?s) d) \<union> stream_ecm_pids (caidAllowed ?s) ?es = {0x65}"
    by (simp add: ca_pid_of_def caidAllowed_def s pid13_arith be16_arith valid_pid_def PSI_PID_NULL_def
        stream_ecm_pids_def)
  have es: "stream_pids ?es = {0x101}" by (auto simp: stream_pids_def valid_pid_def PSI_PID_NULL_def)
  have len: "hdr_ok ?h (concat (map enc_program [(7, 0x100)]))" "hdr_ok ?k (enc_pmt 0x101 ?ds ?es)"
    "length (enc_pmt 0x101 ?ds ?es) \<le> 171" "\<forall>e \<in> set ?es. es_ok e"
    by (simp_all add: hdr_ok_def PSI_MAX_SECTION_LEN_def length_enc_program enc_pmt_def enc_es_def
        enc_descs_def enc_desc_def es_ok_def Let_def)
  have "\<exists>s' reps. processTS 0 0
        (mk_packet PSI_PID_PAT (mk_section ?h (concat (map enc_program [(7, 0x100)]))) @
         mk_packet 0x100 (mk_section ?k (enc_pmt 0x101 ?ds ?es))) 376 ?s = Some (s', reps) \<and>
      m_derived_pids s' = first_n PSI_MAX_DERIVED_PIDS
        ({PSI_PID_PAT} \<union> (if m_emm_enabled ?s then {PSI_PID_CAT} else {}) \<union> insert 0x100 {0x65}) \<and>
      (m_cfg ?s \<longrightarrow> m_derived_pids s' = last (m_derived_pids ?s # reps))"
    unfolding ecm [symmetric]
    by (rule tap_reports_ecm_pids [OF s(1), of 7 "0x100" _ ?h ?k])
      (use len es ecm s(2) in \<open>simp_all add: PSI_PID_CAT_def valid_pid_def PSI_PID_NULL_def program_ok_def
        length_enc_program desc_ok_def\<close>)
  moreover have "first_n PSI_MAX_DERIVED_PIDS
      ({PSI_PID_PAT} \<union> (if m_emm_enabled ?s then {PSI_PID_CAT} else {}) \<union> insert 0x100 {0x65}) =
      {0, 0x100, 0x65}"
    using s(4) by (auto simp: first_n_all PSI_MAX_DERIVED_PIDS_def PSI_PID_PAT_def)
  ultimately show ?thesis by metis
qed

end
