(* ===== verification/Timer.thy ===== *)
theory Timer
  imports Satip_Prelude
begin

text \<open>
  \<^verbatim>\<open>src/timer.h\<close> and \<^verbatim>\<open>src/timer.cpp\<close>: single-shot and periodic timers with deadlines on
  the monotonic clock, the poll timeout computed from the earliest deadline, and the dispatch
  of the due ones. A timer's handler is a function of the host's state (the object the
  \<^verbatim>\<open>void*\<close> parameter points to), which also holds the timer list; the operations that call
  handlers take the host's access functions as arguments, and the locale \<open>timer_host\<close> is
  the contract a host has to satisfy. Deadlines are proved exact, the poll timeout is proved
  to wake the loop after the earliest deadline and less than two milliseconds late.
\<close>

section \<open>Timers\<close>

record timespec =
  tv_sec :: int
  tv_nsec :: int

record timer_elem =
  m_description :: string
  m_interval :: int
  m_ts :: timespec
  m_active :: bool
  m_single :: bool

text \<open>The constructor leaves interval and deadline unset; they are arguments here.\<close>

definition timer_new :: "int \<Rightarrow> timespec \<Rightarrow> string \<Rightarrow> timer_elem" where
  "timer_new interval0 ts0 description =
     \<lparr>m_description = description, m_interval = interval0, m_ts = ts0, m_active = False,
      m_single = False\<rparr>"

text \<open>The deadline computation of \<^verbatim>\<open>start\<close>, repeated in \<^verbatim>\<open>call\<close>.\<close>

definition deadline :: "timespec \<Rightarrow> int \<Rightarrow> timespec" where
  "deadline cur interval =
     (let sec = tv_sec cur + interval sdiv 1000;
          nsec = tv_nsec cur + (interval smod 1000) * 1000000
      in if nsec \<ge> 1000000000 then \<lparr>tv_sec = sec + 1, tv_nsec = nsec - 1000000000\<rparr>
         else \<lparr>tv_sec = sec, tv_nsec = nsec\<rparr>)"

definition timer_start :: "timespec \<Rightarrow> int \<Rightarrow> bool \<Rightarrow> timer_elem \<Rightarrow> timer_elem" where
  "timer_start cur msec single t =
     t\<lparr>m_interval := msec, m_active := True, m_single := single, m_ts := deadline cur msec\<rparr>"

definition timer_stop :: "timer_elem \<Rightarrow> timer_elem" where
  "timer_stop t = t\<lparr>m_active := False\<rparr>"

text \<open>What \<^verbatim>\<open>call\<close> does to the timer after its handler returned.\<close>

definition settle :: "timespec \<Rightarrow> timer_elem \<Rightarrow> timer_elem" where
  "settle ts t =
     (if m_single t then t\<lparr>m_active := False\<rparr> else t\<lparr>m_ts := deadline ts (m_interval t)\<rparr>)"

definition timer_call ::
  "('s \<Rightarrow> timer_elem list) \<Rightarrow> ((timer_elem list \<Rightarrow> timer_elem list) \<Rightarrow> 's \<Rightarrow> 's) \<Rightarrow>
   (nat \<Rightarrow> 's \<Rightarrow> 's) \<Rightarrow> timespec \<Rightarrow> nat \<Rightarrow> 's \<Rightarrow> 's" where
  "timer_call get upd handler ts i s =
     (if m_active (get s ! i)
      then upd (\<lambda>l. l[i := settle ts (l ! i)]) (handler i s)
      else s)"

section \<open>The timer list\<close>

definition timer_create :: "timer_elem \<Rightarrow> timer_elem list \<Rightarrow> timer_elem list" where
  "timer_create t l = l @ [t]"

definition timer_remove :: "nat \<Rightarrow> timer_elem list \<Rightarrow> timer_elem list" where
  "timer_remove i l = take i l @ drop (Suc i) l"

text \<open>Later than, as both loops write it out.\<close>

definition ts_after :: "timespec \<Rightarrow> timespec \<Rightarrow> bool" where
  "ts_after a b \<longleftrightarrow>
     tv_sec a > tv_sec b \<or> (tv_sec a = tv_sec b \<and> tv_nsec a > tv_nsec b)"

definition timer_due :: "timespec \<Rightarrow> timer_elem \<Rightarrow> bool" where
  "timer_due cur t \<longleftrightarrow> m_active t \<and> ts_after cur (m_ts t)"

definition callNextTimer ::
  "('s \<Rightarrow> timer_elem list) \<Rightarrow> ((timer_elem list \<Rightarrow> timer_elem list) \<Rightarrow> 's \<Rightarrow> 's) \<Rightarrow>
   (nat \<Rightarrow> 's \<Rightarrow> 's) \<Rightarrow> timespec \<Rightarrow> 's \<Rightarrow> 's" where
  "callNextTimer get upd handler cur s =
     fold (\<lambda>i s. if timer_due cur (get s ! i) then timer_call get upd handler cur i s else s)
       [0..<length (get s)] s"

definition earliest_step :: "timer_elem \<Rightarrow> timer_elem option \<Rightarrow> timer_elem option" where
  "earliest_step t m =
     (if m_active t
      then (case m of None \<Rightarrow> Some t
            | Some mt \<Rightarrow> if ts_after (m_ts mt) (m_ts t) then Some t else m)
      else m)"

definition earliest :: "timer_elem list \<Rightarrow> timer_elem option" where
  "earliest l = fold earliest_step l None"

definition getNextTimerBegin :: "timespec \<Rightarrow> timer_elem list \<Rightarrow> int" where
  "getNextTimerBegin cur l =
     (case earliest l of
        None \<Rightarrow> 1000
      | Some t \<Rightarrow>
          (let msec = s32 ((tv_sec (m_ts t) - tv_sec cur) * 1000
                           + (tv_nsec (m_ts t) - tv_nsec cur) sdiv 1000000 + 1)
           in if msec < 0 then 0 else msec))"

section \<open>Nanosecond reading of time\<close>

definition ns :: "timespec \<Rightarrow> int" where
  "ns t = tv_sec t * 1000000000 + tv_nsec t"

definition normal :: "timespec \<Rightarrow> bool" where
  "normal t \<longleftrightarrow> 0 \<le> tv_nsec t \<and> tv_nsec t < 1000000000"

lemma ts_after_ns: "normal a \<Longrightarrow> normal b \<Longrightarrow> ts_after a b \<longleftrightarrow> ns a > ns b"
  by (auto simp: ts_after_def ns_def normal_def)

lemma deadline_ns: "0 \<le> msec \<Longrightarrow> ns (deadline cur msec) = ns cur + msec * 1000000"
proof -
  have "msec * 1000000 = msec div 1000 * 1000000000 + msec mod 1000 * 1000000"
    using div_mult_mod_eq [of msec 1000] by linarith
  then show "0 \<le> msec \<Longrightarrow> ns (deadline cur msec) = ns cur + msec * 1000000"
    by (simp add: deadline_def ns_def Let_def sdiv_nonneg smod_nonneg)
qed

lemma deadline_normal: "normal cur \<Longrightarrow> 0 \<le> msec \<Longrightarrow> normal (deadline cur msec)"
  using pos_mod_bound [of 1000 msec]
  by (auto simp: deadline_def normal_def Let_def smod_nonneg)

text \<open>
  Starting a timer with a non-negative delay arms it and sets its deadline to exactly the
  current monotonic time plus the delay, as a normalised time stamp (nanoseconds below 10^9);
  the timer is not due before that instant and is due at every instant after it.
\<close>

theorem timer_start_exact:
  assumes "normal cur" "0 \<le> msec"
  shows "m_active (timer_start cur msec single t) \<and>
    normal (m_ts (timer_start cur msec single t)) \<and>
    ns (m_ts (timer_start cur msec single t)) = ns cur + msec * 1000000 \<and>
    (\<forall>now. normal now \<longrightarrow>
       timer_due now (timer_start cur msec single t) = (ns now > ns cur + msec * 1000000))"
  using assms
  by (auto simp: timer_start_def timer_due_def deadline_ns deadline_normal ts_after_ns)

theorem timer_start_exact_witness:
  "ns (m_ts (timer_start \<lparr>tv_sec = 7, tv_nsec = 999000000\<rparr> 4250 True
     (timer_new 0 \<lparr>tv_sec = 0, tv_nsec = 0\<rparr> ''reset connect''))) = 12249000000"
  using timer_start_exact [of "\<lparr>tv_sec = 7, tv_nsec = 999000000\<rparr>" 4250 True
      "timer_new 0 \<lparr>tv_sec = 0, tv_nsec = 0\<rparr> ''reset connect''"]
  by (simp add: normal_def ns_def)

section \<open>The poll timeout\<close>

lemma earliest_fold:
  "fold earliest_step l m = None \<longleftrightarrow> m = None \<and> (\<forall>t \<in> set l. \<not> m_active t)"
  by (induction l arbitrary: m) (auto simp: earliest_step_def split: option.splits)

lemma earliest_None: "earliest l = None \<longleftrightarrow> (\<forall>t \<in> set l. \<not> m_active t)"
  by (simp add: earliest_def earliest_fold)

lemma earliest_fold_min:
  assumes "\<forall>t \<in> set l. m_active t \<longrightarrow> normal (m_ts t)"
    and "\<forall>t. m = Some t \<longrightarrow> normal (m_ts t) \<and> m_active t"
    and "fold earliest_step l m = Some r"
  shows "m_active r \<and> (r \<in> set l \<or> m = Some r) \<and> normal (m_ts r) \<and>
    (\<forall>t \<in> set l. m_active t \<longrightarrow> ns (m_ts r) \<le> ns (m_ts t)) \<and>
    (\<forall>t. m = Some t \<longrightarrow> ns (m_ts r) \<le> ns (m_ts t))"
  using assms
proof (induction l arbitrary: m)
  case Nil
  then show ?case by simp
next
  case (Cons a l)
  have step: "\<forall>t. earliest_step a m = Some t \<longrightarrow> normal (m_ts t) \<and> m_active t"
    using Cons.prems by (auto simp: earliest_step_def split: if_splits option.splits)
  have IH: "m_active r \<and> (r \<in> set l \<or> earliest_step a m = Some r) \<and> normal (m_ts r) \<and>
    (\<forall>t \<in> set l. m_active t \<longrightarrow> ns (m_ts r) \<le> ns (m_ts t)) \<and>
    (\<forall>t. earliest_step a m = Some t \<longrightarrow> ns (m_ts r) \<le> ns (m_ts t))"
    using Cons.prems step by (intro Cons.IH) auto
  show ?case
  proof (cases "m_active a")
    case False
    then show ?thesis using IH by (simp add: earliest_step_def)
  next
    case True
    then have na: "normal (m_ts a)" using Cons.prems(1) by simp
    show ?thesis
    proof (cases m)
      case None
      then show ?thesis using IH True by (auto simp: earliest_step_def)
    next
      case (Some mt)
      then have "normal (m_ts mt)" using Cons.prems(2) by simp
      then show ?thesis
        using IH True Some na by (auto simp: earliest_step_def ts_after_ns split: if_splits)
    qed
  qed
qed

lemma earliest_min:
  assumes "\<forall>t \<in> set l. m_active t \<longrightarrow> normal (m_ts t)" "earliest l = Some r"
  shows "r \<in> set l" "m_active r" "normal (m_ts r)"
    "t \<in> set l \<Longrightarrow> m_active t \<Longrightarrow> ns (m_ts r) \<le> ns (m_ts t)"
  using earliest_fold_min [of l None r] assms by (auto simp: earliest_def)

text \<open>Truncating division of a nanosecond difference loses less than a millisecond.\<close>

lemma sdiv_million_bounds:
  "d < (d sdiv 1000000 + 1) * 1000000" "(d sdiv 1000000) * 1000000 < d + (1000000 :: int)"
proof -
  have "\<bar>d\<bar> div 1000000 * 1000000 \<le> \<bar>d\<bar>" "\<bar>d\<bar> < \<bar>d\<bar> div 1000000 * 1000000 + 1000000"
    using div_mult_mod_eq [of "\<bar>d\<bar>" 1000000] pos_mod_bound [of 1000000 "\<bar>d\<bar>"]
      pos_mod_sign [of 1000000 "\<bar>d\<bar>"] by linarith+
  then show "d < (d sdiv 1000000 + 1) * 1000000" "(d sdiv 1000000) * 1000000 < d + 1000000"
    by (auto simp: signed_divide_int_def sgn_if split: if_splits)
qed

text \<open>
  C23. The poll timeout is safe and tight: with an active timer (and the distance within the
  range of an int) the returned number of milliseconds is non-negative, the earliest active
  timer is due once that time has passed, and unless it is already past its deadline the
  wake-up is less than two milliseconds late.
\<close>

theorem getNextTimerBegin_tight:
  assumes "normal cur" "\<forall>t \<in> set l. m_active t \<longrightarrow> normal (m_ts t)" "earliest l = Some t"
    and "\<bar>ns (m_ts t) - ns cur\<bar> < 2000000000 * 1000000"
  shows "0 \<le> getNextTimerBegin cur l \<and>
    (\<forall>now. normal now \<and> ns now \<ge> ns cur + getNextTimerBegin cur l * 1000000 \<longrightarrow> timer_due now t) \<and>
    (ns cur \<le> ns (m_ts t) \<longrightarrow>
       ns cur + getNextTimerBegin cur l * 1000000 < ns (m_ts t) + 2000000)"
proof -
  define x where
    "x = (tv_sec (m_ts t) - tv_sec cur) * 1000 + (tv_nsec (m_ts t) - tv_nsec cur) sdiv 1000000 + 1"
  have R: "ns (m_ts t) - ns cur =
    (tv_sec (m_ts t) - tv_sec cur) * 1000000000 + (tv_nsec (m_ts t) - tv_nsec cur)"
    by (simp add: ns_def)
  have lo: "ns (m_ts t) - ns cur < x * 1000000" and hi: "x * 1000000 < ns (m_ts t) - ns cur + 2000000"
    unfolding R x_def using sdiv_million_bounds [of "tv_nsec (m_ts t) - tv_nsec cur"]
    by (simp_all add: algebra_simps)
  have "s32 x = x"
    using assms(4) lo hi by (intro s32_id) auto
  then have m: "getNextTimerBegin cur l = max 0 x"
    unfolding getNextTimerBegin_def Let_def x_def using assms(3) by (simp add: max_def)
  have due: "timer_due now t" if "normal now" "ns now \<ge> ns cur + max 0 x * 1000000" for now
  proof -
    have "x \<le> max 0 x" by simp
    then have "ns (m_ts t) < ns now" using that(2) lo by linarith
    then show ?thesis
      using that(1) earliest_min [OF assms(2,3)] by (simp add: timer_due_def ts_after_ns)
  qed
  show ?thesis unfolding m using due lo hi by (auto simp: max_def)
qed

theorem getNextTimerBegin_tight_witness:
  "0 \<le> getNextTimerBegin \<lparr>tv_sec = 5, tv_nsec = 900000000\<rparr>
     [timer_start \<lparr>tv_sec = 5, tv_nsec = 0\<rparr> 4000 True
        (timer_new 0 \<lparr>tv_sec = 0, tv_nsec = 0\<rparr> ''x'')]"
  using getNextTimerBegin_tight [of "\<lparr>tv_sec = 5, tv_nsec = 900000000\<rparr>"
      "[timer_start \<lparr>tv_sec = 5, tv_nsec = 0\<rparr> 4000 True (timer_new 0 \<lparr>tv_sec = 0, tv_nsec = 0\<rparr> ''x'')]"
      "timer_start \<lparr>tv_sec = 5, tv_nsec = 0\<rparr> 4000 True (timer_new 0 \<lparr>tv_sec = 0, tv_nsec = 0\<rparr> ''x'')"]
  by (simp add: normal_def ns_def timer_start_def deadline_def earliest_def earliest_step_def
      sdiv_nonneg smod_nonneg)

section \<open>The contract of a timer host\<close>

text \<open>
  A host gives access to its timer list and one handler per list position. Handlers neither
  create nor remove timers; a handler called for an active timer keeps the host's invariant once
  the timer has been settled.
\<close>

locale timer_host =
  fixes get :: "'s \<Rightarrow> timer_elem list"
    and upd :: "(timer_elem list \<Rightarrow> timer_elem list) \<Rightarrow> 's \<Rightarrow> 's"
    and handler :: "timespec \<Rightarrow> nat \<Rightarrow> 's \<Rightarrow> 's"
    and inv :: "'s \<Rightarrow> bool"
  assumes get_upd: "get (upd f s) = f (get s)"
    and handler_length: "length (get (handler cur i s)) = length (get s)"
    and inv_call: "inv s \<Longrightarrow> i < length (get s) \<Longrightarrow> m_active (get s ! i) \<Longrightarrow>
      inv (upd (\<lambda>l. l[i := settle cur (l ! i)]) (handler cur i s))"
begin

lemma call_length: "length (get (timer_call get upd (handler cur) cur i s)) = length (get s)"
  by (simp add: timer_call_def get_upd handler_length)

lemma call_inv:
  assumes "inv s" "i < length (get s)"
  shows "inv (timer_call get upd (handler cur) cur i s)"
  using assms by (simp add: timer_call_def inv_call)

lemma fold_call:
  assumes "inv s" "\<forall>i \<in> set is. i < length (get s)"
  shows "inv (fold (\<lambda>i s. if timer_due cur (get s ! i)
        then timer_call get upd (handler cur) cur i s else s) is s) \<and>
    length (get (fold (\<lambda>i s. if timer_due cur (get s ! i)
        then timer_call get upd (handler cur) cur i s else s) is s)) = length (get s)"
  using assms
proof (induction "is" arbitrary: s)
  case Nil
  then show ?case by simp
next
  case (Cons i "is")
  let ?s = "if timer_due cur (get s ! i) then timer_call get upd (handler cur) cur i s else s"
  have "inv ?s" "length (get ?s) = length (get s)"
    using Cons.prems by (auto intro: call_inv simp: call_length)
  then show ?case using Cons.IH [of ?s] Cons.prems by simp
qed

lemma callNextTimer_inv: "inv s \<Longrightarrow> inv (callNextTimer get upd (handler cur) cur s)"
  unfolding callNextTimer_def using fold_call [of s "[0..<length (get s)]" cur] by simp

lemma callNextTimer_length:
  "inv s \<Longrightarrow> length (get (callNextTimer get upd (handler cur) cur s)) = length (get s)"
  unfolding callNextTimer_def using fold_call [of s "[0..<length (get s)]" cur] by simp

end

text \<open>Without a due timer the dispatch does nothing.\<close>

lemma callNextTimer_idle:
  assumes "\<forall>t \<in> set (get s). \<not> timer_due cur t"
  shows "callNextTimer get upd handler cur s = s"
proof -
  have "fold (\<lambda>i s. if timer_due cur (get s ! i) then timer_call get upd handler cur i s else s) is s = s"
    if "\<forall>i \<in> set is. i < length (get s)" for "is"
    using that assms by (induction "is") auto
  then show ?thesis by (simp add: callNextTimer_def)
qed

end
