(* ===== verification/C_Strings.thy ===== *)
theory C_Strings
  imports Satip_Prelude
begin

text \<open>
  Text as the program writes and reads it: decimal and hexadecimal numbers as the iostreams and
  printf print them, the reading side of decimal numbers, and splitting at a separator. Shown:
  printed numbers are read back, and joined fields are split again.
\<close>

section \<open>C strings\<close>

text \<open>\<^verbatim>\<open>c_str\<close>: what the C library sees of a text.\<close>

definition c_str :: "string \<Rightarrow> string" where
  "c_str s = takeWhile (\<lambda>c. c \<noteq> CHR 0x00) s"

lemma c_str_plain: "CHR 0x00 \<notin> set s \<Longrightarrow> c_str s = s"
  by (auto simp: c_str_def takeWhile_eq_all_conv)

section \<open>Printing numbers\<close>

definition digit_char :: "nat \<Rightarrow> char" where
  "digit_char d = (if d < 10 then char_of (48 + d) else char_of (87 + d))"

fun digits :: "nat \<Rightarrow> nat \<Rightarrow> string" where
  "digits b n = (if b < 2 \<or> n < b then [digit_char n] else digits b (n div b) @ [digit_char (n mod b)])"

declare digits.simps [simp del]

definition dec_nat :: "nat \<Rightarrow> string" where
  "dec_nat n = digits 10 n"

text \<open>\<^verbatim>\<open>operator<<\<close> for a signed integer.\<close>

definition dec :: "int \<Rightarrow> string" where
  "dec n = (if n < 0 then ''-'' @ dec_nat (nat (- n)) else dec_nat (nat n))"

text \<open>\<^verbatim>\<open>0x%04x\<close>: at least four digits of the unsigned 32-bit reading.\<close>

definition hex4 :: "int \<Rightarrow> string" where
  "hex4 n = (let ds = digits 16 (nat (n mod 2 ^ 32)) in ''0x'' @ replicate (4 - length ds) CHR ''0'' @ ds)"

section \<open>Reading decimal numbers\<close>

definition is_digit :: "char \<Rightarrow> bool" where
  "is_digit c \<longleftrightarrow> 48 \<le> (of_char c :: nat) \<and> (of_char c :: nat) \<le> 57"

definition digit_val :: "char \<Rightarrow> nat" where
  "digit_val c = of_char c - 48"

definition read_nat :: "string \<Rightarrow> nat" where
  "read_nat cs = foldl (\<lambda>n c. 10 * n + digit_val c) 0 cs"

definition read_int :: "string \<Rightarrow> int" where
  "read_int cs = (case cs of c # ds \<Rightarrow> if c = CHR ''-'' then - int (read_nat ds) else int (read_nat cs) | [] \<Rightarrow> 0)"

lemma digit_char_props:
  assumes "d < 10"
  shows "is_digit (digit_char d)" "digit_val (digit_char d) = d"
  using assms by (simp_all add: is_digit_def digit_char_def digit_val_def)

lemma read_nat_append: "read_nat (xs @ ys) = read_nat xs * 10 ^ length ys + read_nat ys"
proof (induction ys rule: rev_induct)
  case (snoc y ys)
  then show ?case by (simp add: read_nat_def algebra_simps)
qed (simp add: read_nat_def)

lemma dec_nat_digits: "c \<in> set (dec_nat n) \<Longrightarrow> is_digit c"
proof (induction n rule: less_induct)
  case (less n)
  have "n div 10 < n" if "\<not> n < 10" using that by simp
  then show ?case
    using less.IH [of "n div 10"] less.prems
    by (auto simp: dec_nat_def digits.simps [of 10 n] digit_char_props split: if_splits)
qed

lemma dec_nat_nonempty [simp]: "dec_nat n \<noteq> []"
  by (simp add: dec_nat_def digits.simps [of 10 n])

lemma read_dec_nat [simp]: "read_nat (dec_nat n) = n"
proof (induction n rule: less_induct)
  case (less n)
  show ?case
  proof (cases "n < 10")
    case True
    then show ?thesis
      by (simp add: dec_nat_def digits.simps [of 10 n] read_nat_def digit_char_props)
  next
    case False
    then have "read_nat (dec_nat n) = read_nat (dec_nat (n div 10)) * 10 + n mod 10"
      by (simp add: dec_nat_def digits.simps [of 10 n] read_nat_append)
        (simp add: read_nat_def digit_char_props)
    then show ?thesis using less [of "n div 10"] False by simp
  qed
qed

lemma not_digits [simp]: "\<not> is_digit CHR '',''" "\<not> is_digit CHR ''-''" "\<not> is_digit CHR ''&''"
  "\<not> is_digit CHR ''=''" "\<not> is_digit CHR ''.''"
  by (simp_all add: is_digit_def)

lemma read_dec [simp]: "read_int (dec n) = n"
proof (cases "n < 0")
  case True
  then show ?thesis by (simp add: dec_def read_int_def)
next
  case False
  obtain c ds where c: "dec_nat (nat n) = c # ds" by (cases "dec_nat (nat n)") auto
  then have "is_digit c" using dec_nat_digits [of c "nat n"] by simp
  then have "c \<noteq> CHR ''-''" by auto
  moreover have "read_nat (c # ds) = nat n" by (simp flip: c)
  ultimately show ?thesis using False by (simp add: dec_def read_int_def c)
qed

lemma dec_chars: "c \<in> set (dec n) \<Longrightarrow> is_digit c \<or> c = CHR ''-''"
  using dec_nat_digits by (auto simp: dec_def split: if_splits)

lemma not_in_dec: "\<not> is_digit c \<Longrightarrow> c \<noteq> CHR ''-'' \<Longrightarrow> c \<notin> set (dec n)"
  using dec_chars by blast

lemma dec_nonempty [simp]: "dec n \<noteq> []"
  by (simp add: dec_def)

section \<open>Joining and splitting\<close>

fun join_with :: "char \<Rightarrow> string list \<Rightarrow> string" where
  "join_with sep [] = []"
| "join_with sep [x] = x"
| "join_with sep (x # y # zs) = x @ sep # join_with sep (y # zs)"

fun split_at :: "char \<Rightarrow> string \<Rightarrow> string list" where
  "split_at sep [] = [[]]"
| "split_at sep (c # cs) =
     (if c = sep then [] # split_at sep cs
      else (case split_at sep cs of [] \<Rightarrow> [[c]] | x # xs \<Rightarrow> (c # x) # xs))"

lemma split_at_nonempty [simp]: "split_at sep cs \<noteq> []"
  by (induction cs) (auto split: list.splits)

lemma split_at_plain: "sep \<notin> set x \<Longrightarrow> split_at sep x = [x]"
  by (induction x) auto

lemma split_at_append: "sep \<notin> set x \<Longrightarrow> split_at sep (x @ sep # rest) = x # split_at sep rest"
  by (induction x) auto

lemma split_join:
  "xs \<noteq> [] \<Longrightarrow> \<forall>x \<in> set xs. sep \<notin> set x \<Longrightarrow> split_at sep (join_with sep xs) = xs"
  by (induction sep xs rule: join_with.induct) (auto simp: split_at_plain split_at_append)

lemma join_with_chars: "c \<in> set (join_with sep xs) \<Longrightarrow> c = sep \<or> (\<exists>x \<in> set xs. c \<in> set x)"
  by (induction sep xs rule: join_with.induct) auto

lemma join_with_eq_Nil: "\<forall>x \<in> set xs. x \<noteq> [] \<Longrightarrow> join_with sep xs = [] \<longleftrightarrow> xs = []"
  by (induction sep xs rule: join_with.induct) auto

end
