(* ===== verification/Config.thy ===== *)
theory Config
  imports Psi C_Strings
begin

text \<open>
  The tuning and pid configuration, \<^verbatim>\<open>satipConfig\<close> of \<^verbatim>\<open>src/config.h\<close> and \<^verbatim>\<open>src/config.cpp\<close>: the
  30-entry table of the kernel's pids, the conditional-access pids reported by the tap, the
  channel and pid status, and the query strings of the SETUP and PLAY requests. The constants
  of the kernel's \<^verbatim>\<open>frontend.h\<close> are the constructors of enumeration types, with one
  constructor for every other value, so nothing rests on their numbers.
\<close>

section \<open>State\<close>

definition MAX_PIDS :: nat where "MAX_PIDS = 30"

datatype fe_kind = FE_TYPE_SAT | FE_TYPE_CABLE | FE_TYPE_TERRESTRIAL | FE_TYPE_other int

datatype t_type_pol = CONFIG_POL_HORIZONTAL | CONFIG_POL_VERTICAL
datatype t_lnb_onoff = CONFIG_LNB_OFF | CONFIG_LNB_ON
datatype t_channel_status =
  CONFIG_STATUS_CHANNEL_INVALID | CONFIG_STATUS_CHANNEL_CHANGED | CONFIG_STATUS_CHANNEL_STABLE
datatype t_pid_status = CONFIG_STATUS_PID_STATIONARY | CONFIG_STATUS_PID_CHANGED
datatype t_pid_elem_status = PID_ADD | PID_DELETE | PID_VAILD | PID_INVALID

record pid_elem =
  pe_pid :: int
  pe_status :: t_pid_elem_status

text \<open>Enumerations of the kernel's frontend interface.\<close>

datatype fe_delsys = SYS_UNDEFINED | SYS_DVBS | SYS_DVBS2 | SYS_DVBT | SYS_DVBT2 | SYS_DVBC_ANNEX_A | SYS_other int
datatype fe_modulation =
  QPSK | PSK_8 | QAM_16 | QAM_32 | QAM_64 | QAM_128 | QAM_256 | MOD_other int
datatype fe_code_rate =
  FEC_AUTO | FEC_1_2 | FEC_2_3 | FEC_3_4 | FEC_5_6 | FEC_7_8 | FEC_8_9 | FEC_3_5 | FEC_4_5 | FEC_9_10
| FEC_other int
datatype fe_rolloff = ROLLOFF_AUTO | ROLLOFF_35 | ROLLOFF_20 | ROLLOFF_25 | ROLLOFF_other int
datatype fe_pilot = PILOT_ON | PILOT_OFF | PILOT_AUTO | PILOT_other int
datatype fe_transmode =
  TRANSMISSION_MODE_AUTO | TRANSMISSION_MODE_2K | TRANSMISSION_MODE_8K | TRANSMISSION_MODE_4K
| TRANSMISSION_MODE_1K | TRANSMISSION_MODE_16K | TRANSMISSION_MODE_32K | TRANSMISSION_MODE_other int
datatype fe_guard =
  GUARD_INTERVAL_AUTO | GUARD_INTERVAL_1_4 | GUARD_INTERVAL_1_8 | GUARD_INTERVAL_1_16
| GUARD_INTERVAL_1_32 | GUARD_INTERVAL_1_128 | GUARD_INTERVAL_19_128 | GUARD_INTERVAL_19_256
| GUARD_INTERVAL_other int
datatype fe_voltage = SEC_VOLTAGE_13 | SEC_VOLTAGE_18 | SEC_VOLTAGE_OFF | SEC_VOLTAGE_other int

text \<open>The settings of one virtual tuner, \<^verbatim>\<open>vtunerOpt\<close> of \<^verbatim>\<open>src/option.h\<close>.\<close>

record vtunerOpt =
  o_vtuner_type :: string
  o_ipaddr :: string
  o_tcpdata :: bool
  o_fe_type :: int
  o_fe_number :: int
  o_force_plts :: bool
  o_port :: string
  o_ca_pids :: bool
  o_ca_emm :: bool
  o_ca_caids :: "int set"

text \<open>
  The members of \<^verbatim>\<open>satipConfig\<close>. \<open>m_psi\<close> is the object itself when there is one: the
  configuration is its only owner. \<open>m_wakeups\<close> counts the bytes written to the wakeup pipe.
\<close>

record config =
  m_fe_type :: fe_kind
  m_pid_list :: "pid_elem list"
  m_requested_pids :: pids
  m_psi :: "psi option"
  m_ca_pids :: pids
  m_ca_dirty :: bool
  m_wakeup_fd :: int
  m_wakeups :: nat
  m_signal_source :: int
  m_frequency :: u32
  m_pol :: t_type_pol
  m_rolloff :: fe_rolloff
  m_msys :: fe_delsys
  m_mtype :: fe_modulation
  m_pilot :: fe_pilot
  m_symrate :: int
  m_fec :: fe_code_rate
  m_transmode :: fe_transmode
  m_guard_interval :: fe_guard
  m_bandwidth :: int
  m_plpid :: int
  m_pls_code :: int
  m_status :: t_channel_status
  m_pid_status :: t_pid_status
  m_tune_generation :: u64
  m_lnb_voltage_onoff :: t_lnb_onoff
  m_settings :: vtunerOpt

section \<open>Conditional access pids\<close>

text \<open>\<^verbatim>\<open>wakeup\<close>: one byte into the pipe; a failing write is only logged.\<close>

definition wakeup :: "config \<Rightarrow> config" where
  "wakeup c = (if m_wakeup_fd c < 0 then c else c\<lparr>m_wakeups := m_wakeups c + 1\<rparr>)"

definition setCaPids :: "pids \<Rightarrow> config \<Rightarrow> config" where
  "setCaPids pids c =
     (if pids \<noteq> m_ca_pids c then wakeup (c\<lparr>m_ca_pids := pids, m_ca_dirty := True\<rparr>) else c)"

text \<open>
  An operation of the tap on the object the configuration owns: the object's new state, and
  the reports it makes while it runs.
\<close>

definition run_psi :: "(psi \<Rightarrow> psi \<times> pids list) \<Rightarrow> config \<Rightarrow> config" where
  "run_psi f c = (case m_psi c of None \<Rightarrow> c
     | Some p \<Rightarrow> fold setCaPids (snd (f p)) (c\<lparr>m_psi := Some (fst (f p))\<rparr>))"

section \<open>Pid table\<close>

definition clearPidList :: "config \<Rightarrow> config" where
  "clearPidList c = c\<lparr>m_pid_list := map (\<lambda>e. e\<lparr>pe_status := PID_INVALID\<rparr>) (m_pid_list c)\<rparr>"

definition clearProperty :: "config \<Rightarrow> config" where
  "clearProperty c = (let c1 = c\<lparr>m_frequency := 0, m_symrate := 0, m_msys := SYS_UNDEFINED, m_mtype := QPSK,
       m_fec := FEC_AUTO, m_rolloff := ROLLOFF_AUTO, m_pilot := PILOT_AUTO,
       m_transmode := TRANSMISSION_MODE_AUTO, m_guard_interval := GUARD_INTERVAL_AUTO,
       m_bandwidth := 0, m_plpid := 0, m_pls_code := 0\<rparr>;
       c2 = (clearPidList c1)\<lparr>m_requested_pids := {}\<rparr> in
     run_psi reset c2)"

definition fresh_pid :: pid_elem where
  "fresh_pid = \<lparr>pe_pid = -1, pe_status = PID_INVALID\<rparr>"

text \<open>
  The constructor. The members it does not initialise (frequency to bandwidth) are set by
  \<^verbatim>\<open>clearProperty\<close> before anything reads them; \<open>raw\<close> holds their initial contents.
\<close>

definition satipConfig :: "config \<Rightarrow> fe_kind \<Rightarrow> vtunerOpt \<Rightarrow> config" where
  "satipConfig raw fe_type settings =
     (let c = raw\<lparr>m_fe_type := fe_type, m_signal_source := 1, m_pol := CONFIG_POL_HORIZONTAL,
            m_status := CONFIG_STATUS_CHANNEL_INVALID, m_pid_status := CONFIG_STATUS_PID_STATIONARY,
            m_tune_generation := 0, m_lnb_voltage_onoff := CONFIG_LNB_OFF, m_settings := settings,
            m_requested_pids := {}, m_ca_pids := {}, m_psi := None, m_ca_dirty := False,
            m_wakeup_fd := -1, m_wakeups := 0, m_pid_list := replicate MAX_PIDS fresh_pid\<rparr>;
          c = clearProperty c in
      if o_ca_pids settings
      then (let r = satipPSI True (o_ca_emm settings) (o_ca_caids settings) (o_fe_number settings) in
            (fold setCaPids (snd r) c)\<lparr>m_psi := Some (fst r)\<rparr>)
      else c)"

text \<open>The entry of a received pid that is already in the table; \<^verbatim>\<open>PID_DELETE\<close> falls through.\<close>

definition revive :: "int \<Rightarrow> pid_elem \<Rightarrow> pid_elem" where
  "revive new_pid e =
     (if pe_pid e = new_pid then
        (case pe_status e of PID_ADD \<Rightarrow> e
         | PID_DELETE \<Rightarrow> e\<lparr>pe_status := PID_VAILD\<rparr>
         | PID_VAILD \<Rightarrow> e
         | PID_INVALID \<Rightarrow> e\<lparr>pe_status := PID_ADD\<rparr>)
      else e)"

text \<open>The search for a free entry; a full table leaves it as it is (an error is logged).\<close>

fun claim_slot :: "int \<Rightarrow> pid_elem list \<Rightarrow> pid_elem list" where
  "claim_slot new_pid [] = []"
| "claim_slot new_pid (e # es) =
     (if pe_status e = PID_INVALID then \<lparr>pe_pid = new_pid, pe_status = PID_ADD\<rparr> # es
      else e # claim_slot new_pid es)"

definition add_pid :: "int \<Rightarrow> pid_elem list \<Rightarrow> pid_elem list" where
  "add_pid new_pid es =
     (if new_pid \<ge> 0x2000 then es
      else if \<exists>e \<in> set es. pe_pid e = new_pid then map (revive new_pid) es
      else claim_slot new_pid es)"

definition del_pid :: "int list \<Rightarrow> pid_elem \<Rightarrow> pid_elem" where
  "del_pid news e =
     (if pe_pid e \<ge> 0x2000 then e
      else if \<exists>n \<in> set news. \<not> n \<ge> 0x2000 \<and> pe_pid e = n then e
      else (case pe_status e of PID_ADD \<Rightarrow> e\<lparr>pe_status := PID_INVALID\<rparr>
         | PID_DELETE \<Rightarrow> e
         | PID_VAILD \<Rightarrow> e\<lparr>pe_status := PID_DELETE\<rparr>
         | PID_INVALID \<Rightarrow> e))"

definition updatePidStatus :: "config \<Rightarrow> config" where
  "updatePidStatus c =
     (let pid_changed = list_ex (\<lambda>e. pe_status e = PID_ADD \<or> pe_status e = PID_DELETE) (m_pid_list c) in
      c\<lparr>m_pid_status := (if pid_changed then CONFIG_STATUS_PID_CHANGED
                          else CONFIG_STATUS_PID_STATIONARY)\<rparr>)"

definition collectActivePids :: "config \<Rightarrow> pids \<Rightarrow> pids" where
  "collectActivePids c pids =
     fold (\<lambda>e A. if pe_status e = PID_ADD \<or> pe_status e = PID_VAILD then insert (pe_pid e) A else A)
       (m_pid_list c) pids"

definition notifyPidList :: "config \<Rightarrow> config" where
  "notifyPidList c = run_psi (setJoinedPids (collectActivePids c {})) c"

text \<open>The parameter is an array of \<^verbatim>\<open>MAX_PIDS\<close> 16-bit numbers.\<close>

definition updatePidList :: "u16 list \<Rightarrow> config \<Rightarrow> config" where
  "updatePidList new_pid_list c =
     (let news = map uint (take MAX_PIDS new_pid_list);
          added = fold add_pid news (m_pid_list c);
          c1 = c\<lparr>m_pid_list := map (del_pid news) added\<rparr> in
      notifyPidList (updatePidStatus c1))"

section \<open>Status\<close>

definition setVoltage :: "fe_voltage \<Rightarrow> config \<Rightarrow> config" where
  "setVoltage voltage c0 =
     (let c = c0\<lparr>m_lnb_voltage_onoff := CONFIG_LNB_ON\<rparr> in
      case voltage of SEC_VOLTAGE_13 \<Rightarrow> c\<lparr>m_pol := CONFIG_POL_VERTICAL\<rparr>
      | SEC_VOLTAGE_18 \<Rightarrow> c\<lparr>m_pol := CONFIG_POL_HORIZONTAL\<rparr>
      | _ \<Rightarrow> c\<lparr>m_lnb_voltage_onoff := CONFIG_LNB_OFF, m_status := CONFIG_STATUS_CHANNEL_INVALID\<rparr>)"

text \<open>The setters of the tuning parameters.\<close>

definition setPosition :: "int \<Rightarrow> config \<Rightarrow> config" where
  "setPosition pos c = c\<lparr>m_signal_source := pos\<rparr>"

definition setFrequency :: "u32 \<Rightarrow> config \<Rightarrow> config" where
  "setFrequency freq c = c\<lparr>m_frequency := freq\<rparr>"

definition setModsys :: "fe_delsys \<Rightarrow> config \<Rightarrow> config" where
  "setModsys system c = c\<lparr>m_msys := system\<rparr>"

definition setModtype :: "fe_modulation \<Rightarrow> config \<Rightarrow> config" where
  "setModtype modulation c = c\<lparr>m_mtype := modulation\<rparr>"

definition setSymrate :: "int \<Rightarrow> config \<Rightarrow> config" where
  "setSymrate symrate c = c\<lparr>m_symrate := symrate\<rparr>"

definition setFec :: "fe_code_rate \<Rightarrow> config \<Rightarrow> config" where
  "setFec fec c = c\<lparr>m_fec := fec\<rparr>"

definition setRolloff :: "fe_rolloff \<Rightarrow> config \<Rightarrow> config" where
  "setRolloff rolloff c = c\<lparr>m_rolloff := rolloff\<rparr>"

definition setPilots :: "fe_pilot \<Rightarrow> config \<Rightarrow> config" where
  "setPilots pilots c = c\<lparr>m_pilot := pilots\<rparr>"

definition setTransmode :: "fe_transmode \<Rightarrow> config \<Rightarrow> config" where
  "setTransmode transmode c = c\<lparr>m_transmode := transmode\<rparr>"

definition setGuardInterval :: "fe_guard \<Rightarrow> config \<Rightarrow> config" where
  "setGuardInterval gi c = c\<lparr>m_guard_interval := gi\<rparr>"

definition setBandwidth :: "int \<Rightarrow> config \<Rightarrow> config" where
  "setBandwidth bandwidth c = c\<lparr>m_bandwidth := bandwidth\<rparr>"

definition setPLP :: "int \<Rightarrow> config \<Rightarrow> config" where
  "setPLP plpid c = c\<lparr>m_plpid := plpid\<rparr>"

definition setPLScode :: "int \<Rightarrow> config \<Rightarrow> config" where
  "setPLScode pls_code c = c\<lparr>m_pls_code := pls_code\<rparr>"

definition setWakeupFd :: "int \<Rightarrow> config \<Rightarrow> config" where
  "setWakeupFd fd c = c\<lparr>m_wakeup_fd := fd\<rparr>"

definition isTcpData :: "config \<Rightarrow> bool" where
  "isTcpData c = o_tcpdata (m_settings c)"

definition getChannelStatus :: "config \<Rightarrow> t_channel_status" where
  "getChannelStatus c = m_status c"

definition setChannelChanged :: "config \<Rightarrow> config" where
  "setChannelChanged c =
     c\<lparr>m_tune_generation := m_tune_generation c + 1, m_status := CONFIG_STATUS_CHANNEL_CHANGED\<rparr>"

definition setChannelRetry :: "config \<Rightarrow> config" where
  "setChannelRetry c = c\<lparr>m_status := CONFIG_STATUS_CHANNEL_CHANGED\<rparr>"

definition clearChannelChanged :: "config \<Rightarrow> config" where
  "clearChannelChanged c =
     (if m_status c = CONFIG_STATUS_CHANNEL_CHANGED
      then c\<lparr>m_status := CONFIG_STATUS_CHANNEL_STABLE\<rparr> else c)"

definition getPidStatus :: "config \<Rightarrow> t_pid_status" where
  "getPidStatus c =
     (if m_pid_status c = CONFIG_STATUS_PID_CHANGED then CONFIG_STATUS_PID_CHANGED
      else if m_ca_dirty c then CONFIG_STATUS_PID_CHANGED
      else CONFIG_STATUS_PID_STATIONARY)"

definition addCaPids :: "config \<Rightarrow> pids \<Rightarrow> config \<times> pids" where
  "addCaPids c pids = (c\<lparr>m_ca_dirty := False\<rparr>, pids \<union> m_ca_pids c)"

definition commit_elem :: "pid_elem \<Rightarrow> pid_elem" where
  "commit_elem e =
     (if pe_status e = PID_ADD then e\<lparr>pe_status := PID_VAILD\<rparr>
      else if pe_status e = PID_DELETE then e\<lparr>pe_status := PID_INVALID\<rparr>
      else e)"

definition commitPidStates :: "config \<Rightarrow> config" where
  "commitPidStates c = c\<lparr>m_pid_list := map commit_elem (m_pid_list c)\<rparr>"

section \<open>The pid table as a pair of sets\<close>

text \<open>
  The table stands for two sets: the pids the kernel wants and the pids the server was told.
  \<^verbatim>\<open>PID_ADD\<close> is wanted and not told, \<^verbatim>\<open>PID_VAILD\<close> is both, \<^verbatim>\<open>PID_DELETE\<close> is told and no longer wanted.
\<close>

definition pids_with :: "t_pid_elem_status set \<Rightarrow> pid_elem list \<Rightarrow> pids" where
  "pids_with S es = pe_pid ` {e \<in> set es. pe_status e \<in> S}"

abbreviation wanted_pids :: "pid_elem list \<Rightarrow> pids" where
  "wanted_pids \<equiv> pids_with {PID_ADD, PID_VAILD}"

abbreviation told_pids :: "pid_elem list \<Rightarrow> pids" where
  "told_pids \<equiv> pids_with {PID_VAILD, PID_DELETE}"

abbreviation used_pids :: "pid_elem list \<Rightarrow> pids" where
  "used_pids \<equiv> pids_with {PID_ADD, PID_VAILD, PID_DELETE}"

definition pids_ok :: "pid_elem list \<Rightarrow> bool" where
  "pids_ok es \<longleftrightarrow> length es = MAX_PIDS \<and> distinct (filter (\<lambda>p. p \<noteq> -1) (map pe_pid es)) \<and>
     (\<forall>e \<in> set es. -1 \<le> pe_pid e \<and> pe_pid e < 0x2000 \<and> (pe_pid e = -1 \<longrightarrow> pe_status e = PID_INVALID))"

lemma pids_with_Un: "pids_with S es \<union> pids_with T es = pids_with (S \<union> T) es"
  by (auto simp: pids_with_def)

lemma used_pids_split: "used_pids es = wanted_pids es \<union> told_pids es"
  unfolding pids_with_Un by (simp add: insert_commute)

lemma finite_pids_with [simp]: "finite (pids_with S es)"
  by (simp add: pids_with_def)

lemma pids_with_Nil [simp]: "pids_with S [] = {}"
  by (simp add: pids_with_def)

lemma pids_with_Cons [simp]:
  "pids_with S (e # es) = (if pe_status e \<in> S then insert (pe_pid e) (pids_with S es) else pids_with S es)"
  by (auto simp: pids_with_def)

lemma collectActivePids_eq: "collectActivePids c A = A \<union> wanted_pids (m_pid_list c)"
  unfolding collectActivePids_def fold_insert_if by (auto simp: pids_with_def)

text \<open>Two entries with the same pid are the same entry.\<close>

lemma pids_ok_inj:
  assumes "pids_ok es" "e \<in> set es" "f \<in> set es" "pe_pid e = pe_pid f" "pe_pid e \<noteq> -1"
  shows "e = f"
proof -
  have "distinct (filter (\<lambda>p. p \<noteq> -1) (map pe_pid es))" using assms(1) by (simp add: pids_ok_def)
  then show ?thesis
    using assms(2-5) by (induction es) (auto split: if_splits, (metis imageI)+)
qed

lemma pids_ok_pid: "pids_ok es \<Longrightarrow> e \<in> set es \<Longrightarrow> pe_status e \<noteq> PID_INVALID \<Longrightarrow> pe_pid e \<noteq> -1"
  by (auto simp: pids_ok_def)

text \<open>The table has a free entry unless 30 pids are in use.\<close>

lemma free_slot:
  assumes "pids_ok es" "card (used_pids es) < MAX_PIDS"
  shows "\<exists>e \<in> set es. pe_status e = PID_INVALID"
proof (rule ccontr)
  assume no: "\<not> ?thesis"
  then have "\<forall>e \<in> set es. pe_pid e \<noteq> -1" using assms(1) pids_ok_pid by blast
  then have "filter (\<lambda>p. p \<noteq> -1) (map pe_pid es) = map pe_pid es" by (simp add: filter_id_conv)
  then have "distinct (map pe_pid es)" using assms(1) by (simp add: pids_ok_def)
  moreover have "pe_status e \<in> {PID_ADD, PID_VAILD, PID_DELETE}" if "e \<in> set es" for e
    using no that by (cases "pe_status e") auto
  then have "used_pids es = set (map pe_pid es)" by (auto simp: pids_with_def)
  ultimately have "card (used_pids es) = length es" using distinct_card [of "map pe_pid es"] by simp
  then show False using assms by (simp add: pids_ok_def)
qed

text \<open>Entries changed in their status only.\<close>

lemma pids_ok_map:
  assumes "pids_ok es" "\<And>e. pe_pid (f e) = pe_pid e"
    and "\<And>e. e \<in> set es \<Longrightarrow> pe_pid e = -1 \<Longrightarrow> pe_status e = PID_INVALID \<Longrightarrow> pe_status (f e) = PID_INVALID"
  shows "pids_ok (map f es)"
proof -
  have "map pe_pid (map f es) = map pe_pid es" using assms(2) by simp
  then show ?thesis using assms(1) unfolding pids_ok_def by (auto simp: assms(2,3) simp del: map_map)
qed

lemma pids_with_map:
  assumes "\<And>e. pe_pid (f e) = pe_pid e"
  shows "pids_with S (map f es) = pe_pid ` {e \<in> set es. pe_status (f e) \<in> S}"
  by (induction es) (auto simp: assms)

lemma revive_pid [simp]: "pe_pid (revive n e) = pe_pid e"
  by (simp add: revive_def split: t_pid_elem_status.splits)

lemma revive_status:
  "pe_status (revive n e) \<in> {PID_ADD, PID_VAILD} \<longleftrightarrow> pe_pid e = n \<or> pe_status e \<in> {PID_ADD, PID_VAILD}"
  "pe_status (revive n e) \<in> {PID_VAILD, PID_DELETE} \<longleftrightarrow> pe_status e \<in> {PID_VAILD, PID_DELETE}"
  by (cases "pe_status e"; simp add: revive_def)+

lemma revive_sets:
  assumes "e \<in> set es" "pe_pid e = n"
  shows "wanted_pids (map (revive n) es) = insert n (wanted_pids es)"
    "told_pids (map (revive n) es) = told_pids es"
  unfolding pids_with_map [OF revive_pid] revive_status using assms
  by (auto simp: pids_with_def)

lemma claim_slot_sets:
  assumes "\<exists>e \<in> set es. pe_status e = PID_INVALID"
  shows "wanted_pids (claim_slot n es) = insert n (wanted_pids es)"
    "told_pids (claim_slot n es) = told_pids es"
  using assms by (induction es) auto

lemma claim_slot_full: "\<not> (\<exists>e \<in> set es. pe_status e = PID_INVALID) \<Longrightarrow> claim_slot n es = es"
  by (induction es) auto

lemma length_claim_slot [simp]: "length (claim_slot n es) = length es"
  by (induction es) auto

lemma set_claim_slot:
  "set (map pe_pid (claim_slot n es)) \<subseteq> insert n (set (map pe_pid es))"
  by (induction es) auto

lemma claim_slot_ok:
  assumes "pids_ok es" "0 \<le> n" "n < 0x2000" "\<not> (\<exists>e \<in> set es. pe_pid e = n)"
  shows "pids_ok (claim_slot n es)"
proof -
  have "distinct (filter (\<lambda>p. p \<noteq> -1) (map pe_pid es))" "n \<notin> set (map pe_pid es)"
    using assms by (auto simp: pids_ok_def)
  then have "distinct (filter (\<lambda>p. p \<noteq> -1) (map pe_pid (claim_slot n es)))"
  proof (induction es)
    case (Cons e es)
    then show ?case using set_claim_slot [of n es] by (auto split: if_splits)
  qed simp
  moreover have "\<forall>e \<in> set (claim_slot n es). e \<in> set es \<or> e = \<lparr>pe_pid = n, pe_status = PID_ADD\<rparr>"
    by (induction es) auto
  ultimately show ?thesis using assms(1-3) by (auto simp: pids_ok_def)
qed

text \<open>The pids of a received list: entries from 0x2000 on are unused.\<close>

definition listed :: "int list \<Rightarrow> pids" where
  "listed news = {n \<in> set news. n < 0x2000}"

lemma add_pid_ok:
  assumes "pids_ok es" "0 \<le> n"
  shows "pids_ok (add_pid n es)" "told_pids (add_pid n es) = told_pids es"
    "wanted_pids (add_pid n es) \<subseteq> insert n (wanted_pids es)"
    "n < 0x2000 \<Longrightarrow> card (insert n (used_pids es)) \<le> MAX_PIDS \<Longrightarrow>
       wanted_pids (add_pid n es) = insert n (wanted_pids es)"
proof -
  let ?found = "\<exists>e \<in> set es. pe_pid e = n" and ?free = "\<exists>e \<in> set es. pe_status e = PID_INVALID"
  have ok: "pids_ok (map (revive n) es)"
    by (rule pids_ok_map [OF assms(1) revive_pid]) (use assms(2) in \<open>simp add: revive_def\<close>)
  show "pids_ok (add_pid n es)"
    using ok assms claim_slot_ok [of es n] by (auto simp: add_pid_def)
  show "told_pids (add_pid n es) = told_pids es"
    using revive_sets(2) claim_slot_sets(2) claim_slot_full by (metis add_pid_def)
  show "wanted_pids (add_pid n es) \<subseteq> insert n (wanted_pids es)"
    using revive_sets(1) claim_slot_sets(1) claim_slot_full by (metis add_pid_def subset_insertI subset_refl)
  assume n: "n < 0x2000" "card (insert n (used_pids es)) \<le> MAX_PIDS"
  have "?free" if "\<not> ?found"
  proof -
    have "n \<notin> used_pids es" using that by (auto simp: pids_with_def)
    then show ?thesis using free_slot [OF assms(1)] n(2) by simp
  qed
  then show "wanted_pids (add_pid n es) = insert n (wanted_pids es)"
    using revive_sets(1) [of _ es n] claim_slot_sets(1) [of es n] n(1) by (auto simp: add_pid_def)
qed

lemma fold_add_pid:
  assumes "pids_ok es" "\<forall>n \<in> set news. 0 \<le> n"
  shows "pids_ok (fold add_pid news es) \<and> told_pids (fold add_pid news es) = told_pids es \<and>
    wanted_pids (fold add_pid news es) \<subseteq> wanted_pids es \<union> set news \<and>
    (card (used_pids es \<union> listed news) \<le> MAX_PIDS \<longrightarrow>
       wanted_pids (fold add_pid news es) = wanted_pids es \<union> listed news)"
  using assms
proof (induction news arbitrary: es)
  case Nil
  then show ?case by (simp add: listed_def)
next
  case (Cons n news)
  let ?es = "add_pid n es"
  have n: "0 \<le> n" using Cons.prems by simp
  note add = add_pid_ok [OF Cons.prems(1) n]
  note IH = Cons.IH [OF add(1)]
  have exact: "wanted_pids (fold add_pid news ?es) = wanted_pids es \<union> listed (n # news)"
    if room: "card (used_pids es \<union> listed (n # news)) \<le> MAX_PIDS"
  proof (cases "n < 0x2000")
    case True
    then have l: "listed (n # news) = insert n (listed news)" by (auto simp: listed_def)
    have fin: "finite (used_pids es \<union> listed (n # news))" by (simp add: listed_def)
    have "card (insert n (used_pids es)) \<le> MAX_PIDS"
      by (rule order_trans [OF card_mono [OF fin] room]) (auto simp: l)
    then have w: "wanted_pids ?es = insert n (wanted_pids es)" using add(4) True by blast
    then have "used_pids ?es \<union> listed news = used_pids es \<union> listed (n # news)"
      unfolding used_pids_split add(2) l by auto
    then show ?thesis using IH room w l Cons.prems(2) by auto
  next
    case False
    then have "listed (n # news) = listed news" "add_pid n es = es"
      by (auto simp: listed_def add_pid_def)
    then show ?thesis using Cons.IH [OF Cons.prems(1)] Cons.prems(2) that by simp
  qed
  show ?case using IH add(2,3) exact Cons.prems(2) by auto
qed

lemma del_pid_pid [simp]: "pe_pid (del_pid news e) = pe_pid e"
  by (simp add: del_pid_def split: t_pid_elem_status.splits)

lemma del_pid_status:
  assumes "pe_pid e < 0x2000"
  shows "pe_status (del_pid news e) \<in> {PID_ADD, PID_VAILD} \<longleftrightarrow>
      pe_pid e \<in> listed news \<and> pe_status e \<in> {PID_ADD, PID_VAILD}"
    "pe_status (del_pid news e) \<in> {PID_VAILD, PID_DELETE} \<longleftrightarrow> pe_status e \<in> {PID_VAILD, PID_DELETE}"
  using assms by (cases "pe_status e"; auto simp: del_pid_def listed_def)+

lemma del_pid_sets:
  assumes "pids_ok es"
  shows "pids_ok (map (del_pid news) es)"
    "wanted_pids (map (del_pid news) es) = wanted_pids es \<inter> listed news"
    "told_pids (map (del_pid news) es) = told_pids es"
proof -
  show "pids_ok (map (del_pid news) es)"
    by (rule pids_ok_map [OF assms del_pid_pid]) (simp add: del_pid_def)
  have "pe_pid e < 0x2000" if "e \<in> set es" for e using assms that by (simp add: pids_ok_def)
  then show "wanted_pids (map (del_pid news) es) = wanted_pids es \<inter> listed news"
    "told_pids (map (del_pid news) es) = told_pids es"
    unfolding pids_with_map [OF del_pid_pid] using del_pid_status [of _ news]
    by (auto simp: pids_with_def simp del: insert_iff)
qed

text \<open>A change is pending exactly when the two sets differ.\<close>

lemma pending_iff:
  assumes "pids_ok es"
  shows "(\<exists>e \<in> set es. pe_status e = PID_ADD \<or> pe_status e = PID_DELETE) \<longleftrightarrow> wanted_pids es \<noteq> told_pids es"
proof
  assume "\<exists>e \<in> set es. pe_status e = PID_ADD \<or> pe_status e = PID_DELETE"
  then obtain e where e: "e \<in> set es" "pe_status e = PID_ADD \<or> pe_status e = PID_DELETE" by blast
  then have "pe_pid e \<noteq> -1" using pids_ok_pid [OF assms e(1)] by auto
  then have uniq: "f = e" if "f \<in> set es" "pe_pid f = pe_pid e" for f
    using that pids_ok_inj [OF assms _ e(1)] by simp
  have only: "pe_pid e \<in> pids_with S es \<longleftrightarrow> pe_status e \<in> S" for S
  proof
    assume "pe_pid e \<in> pids_with S es"
    then obtain f where "f \<in> set es" "pe_status f \<in> S" "pe_pid f = pe_pid e"
      unfolding pids_with_def by force
    then show "pe_status e \<in> S" using uniq by blast
  next
    assume "pe_status e \<in> S"
    then show "pe_pid e \<in> pids_with S es" using e(1) unfolding pids_with_def by blast
  qed
  have "(pe_pid e \<in> wanted_pids es) \<noteq> (pe_pid e \<in> told_pids es)"
    unfolding only using e(2) by auto
  then show "wanted_pids es \<noteq> told_pids es" by metis
next
  assume ne: "wanted_pids es \<noteq> told_pids es"
  show "\<exists>e \<in> set es. pe_status e = PID_ADD \<or> pe_status e = PID_DELETE"
  proof (rule ccontr)
    assume "\<not> ?thesis"
    then have "{e \<in> set es. pe_status e \<in> {PID_ADD, PID_VAILD}} = {e \<in> set es. pe_status e \<in> {PID_VAILD, PID_DELETE}}"
      by auto
    then show False using ne by (simp add: pids_with_def)
  qed
qed

section \<open>Invariant of the configuration\<close>

text \<open>
  The table is in order, and when there is a tap, it is consistent, it knows the kernel's current
  pids, and the configuration has its latest report.
\<close>

definition config_ok :: "config \<Rightarrow> bool" where
  "config_ok c \<longleftrightarrow> pids_ok (m_pid_list c) \<and> finite (m_requested_pids c) \<and>
     (case m_psi c of None \<Rightarrow> m_ca_pids c = {}
      | Some p \<Rightarrow> psi_ok p \<and> m_cfg p \<and> m_ca_pids c = m_derived_pids p \<and>
          m_joined_pids p = wanted_pids (m_pid_list c))"

lemma setCaPids_same [simp]: "m_ca_pids c = pids \<Longrightarrow> setCaPids pids c = c"
  by (simp add: setCaPids_def)

lemma fold_setCaPids:
  assumes "chain (m_ca_pids c) reps d"
  shows "fold setCaPids reps c = c\<lparr>m_ca_pids := d, m_ca_dirty := (m_ca_dirty c \<or> reps \<noteq> []),
    m_wakeups := m_wakeups c + (if m_wakeup_fd c < 0 then 0 else length reps)\<rparr>"
  using assms
proof (induction reps arbitrary: c)
  case (Cons r reps)
  let ?c = "setCaPids r c"
  have c: "?c = c\<lparr>m_ca_pids := r, m_ca_dirty := True,
      m_wakeups := m_wakeups c + (if m_wakeup_fd c < 0 then 0 else 1)\<rparr>"
    using Cons.prems by (simp add: setCaPids_def wakeup_def)
  have "fold setCaPids reps ?c = ?c\<lparr>m_ca_pids := d, m_ca_dirty := (m_ca_dirty ?c \<or> reps \<noteq> []),
      m_wakeups := m_wakeups ?c + (if m_wakeup_fd ?c < 0 then 0 else length reps)\<rparr>"
    using Cons.prems by (intro Cons.IH) (simp add: c)
  then show ?case by (cases "m_wakeup_fd c < 0") (simp_all add: c)
qed simp

lemma run_psi_eq:
  assumes "m_psi c = Some p" "f p = (p', reps)" "reported p reps p'" "m_cfg p"
    and "m_ca_pids c = m_derived_pids p"
  shows "run_psi f c = c\<lparr>m_psi := Some p', m_ca_pids := m_derived_pids p',
    m_ca_dirty := (m_ca_dirty c \<or> reps \<noteq> []),
    m_wakeups := m_wakeups c + (if m_wakeup_fd c < 0 then 0 else length reps)\<rparr>"
proof -
  have "chain (m_ca_pids (c\<lparr>m_psi := Some p'\<rparr>)) reps (m_derived_pids p')"
    using assms(3-5) by (simp add: reported_def)
  from fold_setCaPids [OF this] show ?thesis by (simp add: run_psi_def assms(1,2))
qed

lemma run_psi_None: "m_psi c = None \<Longrightarrow> run_psi f c = c"
  by (simp add: run_psi_def)

text \<open>The tap after the configuration has told it the kernel's pids.\<close>

lemma notifyPidList_ok:
  assumes "pids_ok (m_pid_list c)" "finite (m_requested_pids c)" "case m_psi c of None \<Rightarrow> m_ca_pids c = {}
    | Some p \<Rightarrow> psi_ok p \<and> m_cfg p \<and> m_ca_pids c = m_derived_pids p"
  shows "config_ok (notifyPidList c) \<and> m_pid_list (notifyPidList c) = m_pid_list c \<and>
    m_pid_status (notifyPidList c) = m_pid_status c \<and> m_requested_pids (notifyPidList c) = m_requested_pids c"
proof (cases "m_psi c")
  case None
  then show ?thesis using assms by (simp add: notifyPidList_def run_psi_None config_ok_def)
next
  case (Some p)
  let ?J = "wanted_pids (m_pid_list c)"
  have p: "psi_ok p" "m_cfg p" "m_ca_pids c = m_derived_pids p" using assms(3) Some by simp_all
  obtain p' reps where run: "setJoinedPids ?J p = (p', reps)" by fastforce
  note ok = setJoinedPids_ok [OF p(1) run]
  have "notifyPidList c = run_psi (setJoinedPids ?J) c"
    by (simp add: notifyPidList_def collectActivePids_eq)
  also have "\<dots> = c\<lparr>m_psi := Some p', m_ca_pids := m_derived_pids p',
      m_ca_dirty := (m_ca_dirty c \<or> reps \<noteq> []),
      m_wakeups := m_wakeups c + (if m_wakeup_fd c < 0 then 0 else length reps)\<rparr>"
    using ok by (intro run_psi_eq [where f = "setJoinedPids ?J", OF Some run _ p(2,3)]) simp
  finally show ?thesis using ok assms(1,2) p(2) by (simp add: config_ok_def reported_def)
qed

lemma updatePidStatus_eq:
  assumes "pids_ok (m_pid_list c)"
  shows "updatePidStatus c = c\<lparr>m_pid_status :=
    (if wanted_pids (m_pid_list c) \<noteq> told_pids (m_pid_list c) then CONFIG_STATUS_PID_CHANGED
     else CONFIG_STATUS_PID_STATIONARY)\<rparr>"
  unfolding updatePidStatus_def Let_def list_ex_iff pending_iff [OF assms] by simp

lemma run_psi_pid_list [simp]: "m_pid_list (run_psi f c) = m_pid_list c"
proof -
  have "m_pid_list (fold setCaPids reps c) = m_pid_list c" for reps c
    by (induction reps arbitrary: c) (simp_all add: setCaPids_def wakeup_def)
  then show ?thesis by (simp add: run_psi_def split: option.split)
qed

lemma updatePidList_table:
  "m_pid_list (updatePidList ns c) =
     (let news = map uint (take MAX_PIDS ns) in map (del_pid news) (fold add_pid news (m_pid_list c)))"
  by (simp add: updatePidList_def notifyPidList_def updatePidStatus_def Let_def)

definition new_pids :: "u16 list \<Rightarrow> pids" where
  "new_pids ns = listed (map uint (take MAX_PIDS ns))"

lemma updatePidList_run:
  assumes "config_ok c"
  shows "config_ok (updatePidList ns c) \<and>
    told_pids (m_pid_list (updatePidList ns c)) = told_pids (m_pid_list c) \<and>
    wanted_pids (m_pid_list (updatePidList ns c)) \<subseteq> new_pids ns \<and>
    m_requested_pids (updatePidList ns c) = m_requested_pids c \<and>
    (m_pid_status (updatePidList ns c) = CONFIG_STATUS_PID_CHANGED \<longleftrightarrow>
       wanted_pids (m_pid_list (updatePidList ns c)) \<noteq> told_pids (m_pid_list c)) \<and>
    (card (used_pids (m_pid_list c) \<union> new_pids ns) \<le> MAX_PIDS \<longrightarrow>
       wanted_pids (m_pid_list (updatePidList ns c)) = new_pids ns)"
proof -
  let ?news = "map uint (take MAX_PIDS ns)" and ?es = "m_pid_list c"
  have ok: "pids_ok ?es" using assms by (simp add: config_ok_def)
  have nonneg: "\<forall>n \<in> set ?news. 0 \<le> n" by auto
  define added where "added = fold add_pid ?news ?es"
  have add: "pids_ok added" "told_pids added = told_pids ?es"
    "card (used_pids ?es \<union> listed ?news) \<le> MAX_PIDS \<longrightarrow> wanted_pids added = wanted_pids ?es \<union> listed ?news"
    using fold_add_pid [OF ok nonneg] unfolding added_def by blast+
  define c1 where "c1 = c\<lparr>m_pid_list := map (del_pid ?news) added\<rparr>"
  have del: "pids_ok (m_pid_list c1)" "wanted_pids (m_pid_list c1) = wanted_pids added \<inter> listed ?news"
    "told_pids (m_pid_list c1) = told_pids ?es"
    using del_pid_sets [OF add(1), of ?news] add(2) by (simp_all add: c1_def)
  define c2 where "c2 = updatePidStatus c1"
  have c2: "c2 = c1\<lparr>m_pid_status := (if wanted_pids (m_pid_list c1) \<noteq> told_pids (m_pid_list c1)
      then CONFIG_STATUS_PID_CHANGED else CONFIG_STATUS_PID_STATIONARY)\<rparr>"
    unfolding c2_def by (rule updatePidStatus_eq [OF del(1)])
  have upd: "updatePidList ns c = notifyPidList c2"
    by (simp only: updatePidList_def Let_def added_def c1_def c2_def)
  have "pids_ok (m_pid_list c2)" "finite (m_requested_pids c2)"
    using del(1) assms by (simp_all add: c2 c1_def config_ok_def)
  moreover have "case m_psi c2 of None \<Rightarrow> m_ca_pids c2 = {}
    | Some p \<Rightarrow> psi_ok p \<and> m_cfg p \<and> m_ca_pids c2 = m_derived_pids p"
    using assms by (simp add: c2 c1_def config_ok_def split: option.splits)
  ultimately have n: "config_ok (notifyPidList c2)" "m_pid_list (notifyPidList c2) = m_pid_list c1"
    "m_pid_status (notifyPidList c2) = m_pid_status c2"
    "m_requested_pids (notifyPidList c2) = m_requested_pids c"
    using notifyPidList_ok [of c2] by (simp_all add: c2 c1_def)
  have status: "m_pid_status c2 = CONFIG_STATUS_PID_CHANGED \<longleftrightarrow>
      wanted_pids (m_pid_list c1) \<noteq> told_pids ?es"
    by (simp add: c2 del(3))
  have exact: "wanted_pids (m_pid_list c1) = listed ?news"
    if "card (used_pids ?es \<union> listed ?news) \<le> MAX_PIDS"
    using add(3) that del(2) by simp
  show ?thesis
    unfolding upd new_pids_def n(2-4) status using n(1) del(2,3) exact by simp
qed

section \<open>Every operation keeps the invariant\<close>

lemma pids_ok_replicate: "pids_ok (replicate MAX_PIDS fresh_pid)"
proof -
  have "filter (\<lambda>p. p \<noteq> -1) (map pe_pid (replicate MAX_PIDS fresh_pid)) = []"
    by (simp add: fresh_pid_def)
  then show ?thesis by (auto simp: pids_ok_def fresh_pid_def)
qed

lemma clearPidList_sets:
  assumes "pids_ok (m_pid_list c)"
  shows "pids_ok (m_pid_list (clearPidList c))" "pids_with S (m_pid_list (clearPidList c)) =
    (if PID_INVALID \<in> S then pe_pid ` set (m_pid_list c) else {})"
proof -
  show "pids_ok (m_pid_list (clearPidList c))"
    unfolding clearPidList_def using pids_ok_map [OF assms, of "\<lambda>e. e\<lparr>pe_status := PID_INVALID\<rparr>"] by simp
  show "pids_with S (m_pid_list (clearPidList c)) =
    (if PID_INVALID \<in> S then pe_pid ` set (m_pid_list c) else {})"
    unfolding clearPidList_def by (simp add: pids_with_map)
qed

lemma clearProperty_ok:
  assumes "config_ok c"
  shows "config_ok (clearProperty c) \<and> m_requested_pids (clearProperty c) = {} \<and>
    wanted_pids (m_pid_list (clearProperty c)) = {} \<and> told_pids (m_pid_list (clearProperty c)) = {} \<and>
    m_pid_status (clearProperty c) = m_pid_status c \<and> m_status (clearProperty c) = m_status c"
proof -
  define c1 where "c1 = c\<lparr>m_frequency := 0, m_symrate := 0, m_msys := SYS_UNDEFINED, m_mtype := QPSK,
       m_fec := FEC_AUTO, m_rolloff := ROLLOFF_AUTO, m_pilot := PILOT_AUTO,
       m_transmode := TRANSMISSION_MODE_AUTO, m_guard_interval := GUARD_INTERVAL_AUTO,
       m_bandwidth := 0, m_plpid := 0, m_pls_code := 0\<rparr>"
  define c2 where "c2 = (clearPidList c1)\<lparr>m_requested_pids := {}\<rparr>"
  have run: "clearProperty c = run_psi reset c2"
    by (simp only: clearProperty_def Let_def c1_def c2_def)
  have ok: "pids_ok (m_pid_list c1)" using assms by (simp add: config_ok_def c1_def)
  have l: "pids_ok (m_pid_list c2)" "wanted_pids (m_pid_list c2) = {}" "told_pids (m_pid_list c2) = {}"
    using clearPidList_sets [OF ok] by (simp_all add: c2_def)
  have same: "m_psi c2 = m_psi c" "m_ca_pids c2 = m_ca_pids c" "m_requested_pids c2 = {}"
    "m_pid_status c2 = m_pid_status c" "m_status c2 = m_status c"
    by (simp_all add: c2_def c1_def clearPidList_def)
  show ?thesis
  proof (cases "m_psi c")
    case None
    then show ?thesis using assms l same by (simp add: run run_psi_None config_ok_def)
  next
    case (Some p)
    have p: "m_cfg p" "m_ca_pids c2 = m_derived_pids p"
      using assms Some same by (simp_all add: config_ok_def)
    obtain p' reps where r: "reset p = (p', reps)" by fastforce
    note reset = reset_ok [OF r]
    have "clearProperty c = c2\<lparr>m_psi := Some p', m_ca_pids := m_derived_pids p',
        m_ca_dirty := (m_ca_dirty c2 \<or> reps \<noteq> []),
        m_wakeups := m_wakeups c2 + (if m_wakeup_fd c2 < 0 then 0 else length reps)\<rparr>"
      unfolding run using Some same(1) reset(3) p by (intro run_psi_eq [where f = reset, OF _ r]) simp_all
    then show ?thesis using l same reset p(1) by (simp add: config_ok_def reported_def)
  qed
qed

lemma satipConfig_ok: "config_ok (satipConfig raw fe_type settings)"
proof -
  let ?c0 = "raw\<lparr>m_fe_type := fe_type, m_signal_source := 1, m_pol := CONFIG_POL_HORIZONTAL,
            m_status := CONFIG_STATUS_CHANNEL_INVALID, m_pid_status := CONFIG_STATUS_PID_STATIONARY,
            m_tune_generation := 0, m_lnb_voltage_onoff := CONFIG_LNB_OFF, m_settings := settings,
            m_requested_pids := {}, m_ca_pids := {}, m_psi := None, m_ca_dirty := False,
            m_wakeup_fd := -1, m_wakeups := 0, m_pid_list := replicate MAX_PIDS fresh_pid\<rparr>"
  define c where "c = clearProperty ?c0"
  have "config_ok ?c0" by (simp add: config_ok_def pids_ok_replicate)
  then have c: "pids_ok (m_pid_list c)" "wanted_pids (m_pid_list c) = {}" "config_ok c"
    using clearProperty_ok [of ?c0] by (simp_all add: c_def config_ok_def)
  have ca: "m_ca_pids c = {}" "m_psi c = None"
    by (simp_all add: c_def clearProperty_def run_psi_def clearPidList_def Let_def)
  let ?i = "psi_init True (o_ca_emm settings) (o_ca_caids settings) (o_fe_number settings)"
  obtain p reps where r: "reset ?i = (p, reps)" by fastforce
  note ok = reset_ok [OF r]
  have "chain (m_ca_pids c) reps (m_derived_pids p)" "m_cfg p"
    using ok(3) by (simp_all add: ca reported_def psi_init_def)
  then have "config_ok ((fold setCaPids reps c)\<lparr>m_psi := Some p\<rparr>)"
    using c ok by (simp add: fold_setCaPids config_ok_def)
  then show ?thesis
    using c(3) by (simp add: satipConfig_def Let_def satipPSI_def r flip: c_def)
qed

text \<open>Data of the RTP thread for the tap.\<close>

definition tap_data :: "int \<Rightarrow> int \<Rightarrow> u8 list \<Rightarrow> nat \<Rightarrow> config \<Rightarrow> config option" where
  "tap_data now0 now1 data len c = (case m_psi c of None \<Rightarrow> Some c
     | Some p \<Rightarrow> (case processTS now0 now1 data len p of None \<Rightarrow> None
         | Some r \<Rightarrow> Some (run_psi (\<lambda>_. r) c)))"

lemma tap_data_ok:
  assumes "config_ok c" "len \<le> length data"
  shows "\<exists>c'. tap_data now0 now1 data len c = Some c' \<and> config_ok c' \<and>
    m_pid_list c' = m_pid_list c \<and> m_requested_pids c' = m_requested_pids c \<and>
    m_status c' = m_status c \<and> m_pid_status c' = m_pid_status c \<and>
    (m_ca_pids c' \<noteq> m_ca_pids c \<longrightarrow> m_ca_dirty c') \<and> (m_ca_dirty c \<longrightarrow> m_ca_dirty c')"
proof (cases "m_psi c")
  case None
  then show ?thesis using assms(1) by (simp add: tap_data_def)
next
  case (Some p)
  have p: "psi_ok p" "m_cfg p" "m_ca_pids c = m_derived_pids p" "m_joined_pids p = wanted_pids (m_pid_list c)"
    using assms(1) Some by (simp_all add: config_ok_def)
  obtain p' reps where run: "processTS now0 now1 data len p = Some (p', reps)" "psi_ok p'"
    "reported p reps p'" "m_joined_pids p' = m_joined_pids p"
    using processTS_run [OF p(1) assms(2)] by blast
  have "tap_data now0 now1 data len c = Some (run_psi (\<lambda>_. (p', reps)) c)"
    by (simp add: tap_data_def Some run(1))
  also have "run_psi (\<lambda>_. (p', reps)) c = c\<lparr>m_psi := Some p', m_ca_pids := m_derived_pids p',
      m_ca_dirty := (m_ca_dirty c \<or> reps \<noteq> []),
      m_wakeups := m_wakeups c + (if m_wakeup_fd c < 0 then 0 else length reps)\<rparr>"
    by (rule run_psi_eq [where f = "\<lambda>_. (p', reps)", OF Some refl run(3) p(2,3)])
  moreover have "m_derived_pids p' \<noteq> m_ca_pids c \<longrightarrow> reps \<noteq> []"
    using run(3) p(2,3) by (auto simp: reported_def)
  ultimately show ?thesis
    using assms(1) run p by (simp add: config_ok_def reported_def)
qed

text \<open>
  C15. The kernel's pid list: when the table has room, an update makes exactly the listed
  pids wanted, keeps what the server was told, reports a change exactly when the two differ,
  and hands the new list to the tap. The table keeps its invariant in any case.
\<close>

theorem updatePidList_refines:
  assumes "config_ok c" "card (used_pids (m_pid_list c) \<union> new_pids ns) \<le> MAX_PIDS"
  shows "config_ok (updatePidList ns c) \<and>
    wanted_pids (m_pid_list (updatePidList ns c)) = new_pids ns \<and>
    told_pids (m_pid_list (updatePidList ns c)) = told_pids (m_pid_list c) \<and>
    (m_pid_status (updatePidList ns c) = CONFIG_STATUS_PID_CHANGED \<longleftrightarrow> new_pids ns \<noteq> told_pids (m_pid_list c)) \<and>
    (\<forall>p. m_psi (updatePidList ns c) = Some p \<longrightarrow> m_joined_pids p = new_pids ns)"
proof -
  note run = updatePidList_run [OF assms(1), of ns]
  then have w: "wanted_pids (m_pid_list (updatePidList ns c)) = new_pids ns" using assms(2) by blast
  have "m_joined_pids p = new_pids ns" if "m_psi (updatePidList ns c) = Some p" for p
    using run that w by (simp add: config_ok_def)
  with run w show ?thesis by simp
qed

definition blank_config :: config where
  "blank_config = \<lparr>m_fe_type = FE_TYPE_SAT, m_pid_list = [], m_requested_pids = {}, m_psi = None,
     m_ca_pids = {}, m_ca_dirty = False, m_wakeup_fd = 0, m_wakeups = 0, m_signal_source = 0,
     m_frequency = 0, m_pol = CONFIG_POL_HORIZONTAL, m_rolloff = ROLLOFF_AUTO, m_msys = SYS_UNDEFINED,
     m_mtype = QPSK, m_pilot = PILOT_AUTO, m_symrate = 0, m_fec = FEC_AUTO,
     m_transmode = TRANSMISSION_MODE_AUTO, m_guard_interval = GUARD_INTERVAL_AUTO, m_bandwidth = 0,
     m_plpid = 0, m_pls_code = 0, m_status = CONFIG_STATUS_CHANNEL_INVALID,
     m_pid_status = CONFIG_STATUS_PID_STATIONARY, m_tune_generation = 0,
     m_lnb_voltage_onoff = CONFIG_LNB_OFF,
     m_settings = \<lparr>o_vtuner_type = ''satip_client'', o_ipaddr = ''192.168.0.1'', o_tcpdata = False,
       o_fe_type = 0, o_fe_number = 0, o_force_plts = False, o_port = ''554'', o_ca_pids = True,
       o_ca_emm = True, o_ca_caids = {}\<rparr>\<rparr>"

lemma satipConfig_empty_table: "pids_with {PID_ADD, PID_VAILD, PID_DELETE} (m_pid_list (satipConfig raw fe o0)) = {}"
proof -
  have "m_pid_list (fold setCaPids reps c) = m_pid_list c" for reps c
    by (induction reps arbitrary: c) (simp_all add: setCaPids_def wakeup_def)
  then have "m_pid_list (satipConfig raw fe o0) =
      map (\<lambda>e. e\<lparr>pe_status := PID_INVALID\<rparr>) (replicate MAX_PIDS fresh_pid)"
    by (simp add: satipConfig_def clearProperty_def run_psi_def clearPidList_def Let_def)
  then show ?thesis by (simp add: pids_with_def)
qed

theorem updatePidList_refines_witness:
  "wanted_pids (m_pid_list (updatePidList ([0x10, 0x100] @ replicate 28 0xffff)
     (satipConfig blank_config FE_TYPE_SAT (m_settings blank_config)))) = {0x10, 0x100}"
proof -
  let ?c = "satipConfig blank_config FE_TYPE_SAT (m_settings blank_config)"
  let ?ns = "[0x10, 0x100] @ replicate 28 0xffff :: u16 list"
  have n: "new_pids ?ns = {0x10, 0x100}"
    by (auto simp: new_pids_def listed_def MAX_PIDS_def)
  then show ?thesis
    using updatePidList_refines [OF satipConfig_ok, of blank_config FE_TYPE_SAT "m_settings blank_config" ?ns]
    unfolding satipConfig_empty_table n by (simp add: MAX_PIDS_def)
qed

lemma full_table:
  assumes "pids_ok es" "card (used_pids es) = MAX_PIDS"
  shows "\<forall>e \<in> set es. pe_status e \<noteq> PID_INVALID"
proof (rule ccontr)
  assume "\<not> ?thesis"
  then obtain f where f: "f \<in> set es" "pe_status f = PID_INVALID" by blast
  let ?used = "{e \<in> set es. pe_status e \<in> {PID_ADD, PID_VAILD, PID_DELETE}}"
  have "f \<notin> ?used" using f(2) by simp
  then have "?used \<subset> set es" using f(1) by blast
  then have "card ?used < card (set es)" by (simp add: psubset_card_mono)
  also have "\<dots> \<le> MAX_PIDS" using assms(1) card_length [of es] by (simp add: pids_ok_def)
  finally show False
    using assms(2) card_image_le [of ?used pe_pid] by (simp add: pids_with_def)
qed

text \<open>
  C25. The table is updated by adding first and deleting afterwards: when it is full, a list
  of entirely different pids finds no free entry, all its pids are dropped, and nothing is wanted
  any more although the list would fit into the table.
\<close>

theorem updatePidList_full_table:
  assumes "config_ok c" "card (used_pids (m_pid_list c)) = MAX_PIDS"
    and "new_pids ns \<inter> used_pids (m_pid_list c) = {}"
  shows "wanted_pids (m_pid_list (updatePidList ns c)) = {}"
proof -
  let ?es = "m_pid_list c" and ?news = "map uint (take MAX_PIDS ns)"
  have ok: "pids_ok ?es" using assms(1) by (simp add: config_ok_def)
  note full = full_table [OF ok assms(2)]
  then have used: "pe_pid e \<in> used_pids ?es" if "e \<in> set ?es" for e
    using that by (cases "pe_status e") (auto simp: pids_with_def)
  have "add_pid n ?es = ?es" if "n \<in> set ?news" for n
  proof (cases "n < 0x2000")
    case True
    then have "n \<in> new_pids ns" using that by (simp add: new_pids_def listed_def)
    then have "\<not> (\<exists>e \<in> set ?es. pe_pid e = n)" using assms(3) used by blast
    then show ?thesis using full claim_slot_full [of ?es n] by (simp add: add_pid_def)
  qed (simp add: add_pid_def)
  then have "fold add_pid ?news ?es = ?es" by (rule fold_idle)
  then have "wanted_pids (m_pid_list (updatePidList ns c)) = wanted_pids (map (del_pid ?news) ?es)"
    by (simp only: updatePidList_table Let_def)
  also have "\<dots> = wanted_pids ?es \<inter> new_pids ns"
    unfolding new_pids_def by (rule del_pid_sets(2) [OF ok])
  finally show ?thesis using assms(3) by (auto simp: used_pids_split)
qed

theorem updatePidList_full_table_witness:
  "wanted_pids (m_pid_list (updatePidList (map word_of_nat [200..<230])
     (updatePidList (map word_of_nat [100..<130])
       (satipConfig blank_config FE_TYPE_SAT (m_settings blank_config))))) = {}"
proof -
  let ?c0 = "satipConfig blank_config FE_TYPE_SAT (m_settings blank_config)"
  let ?c = "updatePidList (map word_of_nat [100..<130]) ?c0"
  have u: "uint (word_of_nat n :: u16) = int n" if "n < 1000" for n
    using that by (simp add: unsigned_of_nat take_bit_nat_eq_self)
  have new: "new_pids (map word_of_nat [a..<a + 30]) = int ` {a..<a + 30}" if "a < 900" for a
    using that by (auto simp: new_pids_def listed_def MAX_PIDS_def u image_iff)
  have card: "card (new_pids (map word_of_nat [100..<130])) = 30"
    using new [of 100] by (simp add: card_image)
  have run: "config_ok ?c" "wanted_pids (m_pid_list ?c) = new_pids (map word_of_nat [100..<130])"
    "told_pids (m_pid_list ?c) = {}"
    using updatePidList_run [OF satipConfig_ok, of "map word_of_nat [100..<130]" blank_config FE_TYPE_SAT
        "m_settings blank_config"] card satipConfig_empty_table [of blank_config FE_TYPE_SAT "m_settings blank_config"]
    unfolding used_pids_split by (auto simp: MAX_PIDS_def)
  have used: "used_pids (m_pid_list ?c) = new_pids (map word_of_nat [100..<130])"
    unfolding used_pids_split run(2,3) by simp
  show ?thesis
    by (rule updatePidList_full_table [OF run(1)])
      (use used card new [of 100] new [of 200] in \<open>auto simp: MAX_PIDS_def\<close>)
qed

end
