(* ===== verification/Config_Query.thy ===== *)
theory Config_Query
  imports Config
begin

text \<open>
  The request strings of \<^verbatim>\<open>src/config.cpp\<close>: \<^verbatim>\<open>joinNumbers\<close>, \<^verbatim>\<open>pls_root2gold\<close>, \<^verbatim>\<open>getTuningData\<close>,
  \<^verbatim>\<open>getSetupData\<close> and \<^verbatim>\<open>getPlayData\<close>, and the reading of such a string as a SAT>IP server does
  it. Shown: the server reads back exactly the pids the client keeps as requested.
\<close>

section \<open>Printing\<close>

definition joinNumbers :: "int set \<Rightarrow> bool \<Rightarrow> string" where
  "joinNumbers values hex =
     join_with CHR '','' (map (if hex then hex4 else dec) (sorted_list_of_set values))"

text \<open>One turn of the shift register, and the loop of \<^verbatim>\<open>pls_root2gold\<close>.\<close>

definition pls_next :: "u32 \<Rightarrow> u32" where
  "pls_next x = push_bit 17 ((x XOR drop_bit 7 x) AND 1) OR drop_bit 1 x"

function root2gold_loop :: "u32 \<Rightarrow> nat \<Rightarrow> u32 \<Rightarrow> nat" where
  "root2gold_loop root g x =
     (if g < 0x3ffff then (if root = x then g else root2gold_loop root (g + 1) (pls_next x))
      else 0x3ffff)"
  by pat_completeness auto
termination
  by (relation "measure (\<lambda>(root, g, x). 0x3ffff - g)") auto

declare root2gold_loop.simps [simp del]

definition pls_root2gold :: "u32 \<Rightarrow> nat" where
  "pls_root2gold root = root2gold_loop root 0 1"

text \<open>\<^verbatim>\<open>oss << "&key=" << value\<close>.\<close>

type_synonym arg = "string \<times> string"

definition amp :: "arg \<Rightarrow> string" where
  "amp kv = ''&'' @ fst kv @ ''='' @ snd kv"

definition put :: "arg list \<Rightarrow> string" where
  "put args = concat (map amp args)"

definition freq_text :: "u32 \<Rightarrow> string" where
  "freq_text f = (if unat f mod 10 \<noteq> 0 then dec_nat (unat f div 10) @ ''.'' @ dec_nat (unat f mod 10)
     else dec_nat (unat f div 10))"

text \<open>The kernel interface's all-ones marker for \<open>no stream filter\<close>.\<close>

definition NO_STREAM_ID_FILTER :: u32 where "NO_STREAM_ID_FILTER = 0xffffffff"

text \<open>Input stream identifier and scrambling code of DVB-S2 multistream.\<close>

definition isi_args :: "config \<Rightarrow> arg list" where
  "isi_args c =
     (let isi = m_plpid c > 0 \<and> word_of_int (m_plpid c) \<noteq> NO_STREAM_ID_FILTER;
          pls_code = (word_of_int (m_pls_code c) :: u32);
          mode = drop_bit 26 (m_plpid c) AND 3;
          old = (drop_bit 8 (m_plpid c) AND 0x3ffff);
          pls_code = (if isi \<and> m_plpid c > 255
             then (if mode = 0 then word_of_nat (pls_root2gold (word_of_int old)) else word_of_int old)
             else pls_code) in
      (if isi then [(''isi'', dec (m_plpid c AND 0xff))] else []) @
      (if pls_code > 0 then [(''plsc'', dec_nat (unat pls_code))] else []))"

definition sat_args :: "config \<Rightarrow> arg list" where
  "sat_args c =
     [(''src'', dec (m_signal_source c)),
      (''freq'', freq_text (m_frequency c)),
      (''pol'', case m_pol c of CONFIG_POL_HORIZONTAL \<Rightarrow> ''h'' | CONFIG_POL_VERTICAL \<Rightarrow> ''v''),
      (''msys'', case m_msys c of SYS_DVBS \<Rightarrow> ''dvbs'' | SYS_DVBS2 \<Rightarrow> ''dvbs2'' | _ \<Rightarrow> ''dvbs''),
      (''sr'', dec (m_symrate c))] @
     (case m_fec c of FEC_1_2 \<Rightarrow> [(''fec'', ''12'')] | FEC_2_3 \<Rightarrow> [(''fec'', ''23'')]
      | FEC_3_4 \<Rightarrow> [(''fec'', ''34'')] | FEC_5_6 \<Rightarrow> [(''fec'', ''56'')] | FEC_7_8 \<Rightarrow> [(''fec'', ''78'')]
      | FEC_8_9 \<Rightarrow> [(''fec'', ''89'')] | FEC_3_5 \<Rightarrow> [(''fec'', ''35'')] | FEC_4_5 \<Rightarrow> [(''fec'', ''45'')]
      | FEC_9_10 \<Rightarrow> [(''fec'', ''910'')] | _ \<Rightarrow> []) @
     [(''ro'', case m_rolloff c of ROLLOFF_35 \<Rightarrow> ''0.35'' | ROLLOFF_20 \<Rightarrow> ''0.20''
                | ROLLOFF_25 \<Rightarrow> ''0.25'' | _ \<Rightarrow> ''0.35''),
      (''mtype'', case m_mtype c of QPSK \<Rightarrow> ''qpsk'' | PSK_8 \<Rightarrow> ''8psk'' | _ \<Rightarrow> ''qpsk'')] @
     (case m_pilot c of PILOT_ON \<Rightarrow> [(''plts'', ''on'')] | PILOT_OFF \<Rightarrow> [(''plts'', ''off'')] | _ \<Rightarrow> []) @
     (if m_msys c = SYS_DVBS2 then isi_args c else [])"

definition cable_args :: "config \<Rightarrow> arg list" where
  "cable_args c =
     [(''freq'', freq_text (m_frequency c)), (''msys'', ''dvbc'')] @
     (case m_mtype c of QAM_16 \<Rightarrow> [(''mtype'', ''16qam'')] | QAM_32 \<Rightarrow> [(''mtype'', ''32qam'')]
      | QAM_64 \<Rightarrow> [(''mtype'', ''64qam'')] | QAM_128 \<Rightarrow> [(''mtype'', ''128qam'')]
      | QAM_256 \<Rightarrow> [(''mtype'', ''256qam'')] | _ \<Rightarrow> []) @
     [(''sr'', dec (m_symrate c))]"

definition terrestrial_args :: "config \<Rightarrow> arg list" where
  "terrestrial_args c =
     [(''freq'', freq_text (m_frequency c))] @
     (if m_bandwidth c = 5000000 then [(''bw'', ''5'')] else
      if m_bandwidth c = 6000000 then [(''bw'', ''6'')] else
      if m_bandwidth c = 7000000 then [(''bw'', ''7'')] else
      if m_bandwidth c = 8000000 then [(''bw'', ''8'')] else
      if m_bandwidth c = 10000000 then [(''bw'', ''10'')] else
      if m_bandwidth c = 1712000 then [(''bw'', ''1.712'')] else []) @
     [(''msys'', case m_msys c of SYS_DVBT \<Rightarrow> ''dvbt'' | SYS_DVBT2 \<Rightarrow> ''dvbt2'' | _ \<Rightarrow> ''dvbt'')] @
     (case m_transmode c of TRANSMISSION_MODE_2K \<Rightarrow> [(''tmode'', ''2k'')]
      | TRANSMISSION_MODE_8K \<Rightarrow> [(''tmode'', ''8k'')] | TRANSMISSION_MODE_4K \<Rightarrow> [(''tmode'', ''4k'')]
      | TRANSMISSION_MODE_1K \<Rightarrow> [(''tmode'', ''1k'')] | TRANSMISSION_MODE_16K \<Rightarrow> [(''tmode'', ''16k'')]
      | TRANSMISSION_MODE_32K \<Rightarrow> [(''tmode'', ''32k'')] | _ \<Rightarrow> []) @
     (case m_mtype c of QPSK \<Rightarrow> [(''mtype'', ''qpsk'')] | QAM_16 \<Rightarrow> [(''mtype'', ''16qam'')]
      | QAM_64 \<Rightarrow> [(''mtype'', ''64qam'')] | QAM_256 \<Rightarrow> [(''mtype'', ''256qam'')] | _ \<Rightarrow> []) @
     (case m_guard_interval c of GUARD_INTERVAL_1_4 \<Rightarrow> [(''gi'', ''14'')]
      | GUARD_INTERVAL_1_8 \<Rightarrow> [(''gi'', ''18'')] | GUARD_INTERVAL_1_16 \<Rightarrow> [(''gi'', ''116'')]
      | GUARD_INTERVAL_1_32 \<Rightarrow> [(''gi'', ''132'')] | GUARD_INTERVAL_1_128 \<Rightarrow> [(''gi'', ''1128'')]
      | GUARD_INTERVAL_19_128 \<Rightarrow> [(''gi'', ''19128'')] | GUARD_INTERVAL_19_256 \<Rightarrow> [(''gi'', ''19256'')]
      | _ \<Rightarrow> []) @
     (case m_fec c of FEC_1_2 \<Rightarrow> [(''fec'', ''12'')] | FEC_3_5 \<Rightarrow> [(''fec'', ''35'')]
      | FEC_2_3 \<Rightarrow> [(''fec'', ''23'')] | FEC_3_4 \<Rightarrow> [(''fec'', ''34'')] | FEC_4_5 \<Rightarrow> [(''fec'', ''45'')]
      | FEC_5_6 \<Rightarrow> [(''fec'', ''56'')] | FEC_7_8 \<Rightarrow> [(''fec'', ''78'')] | _ \<Rightarrow> []) @
     (if m_msys c = SYS_DVBT2 \<and> word_of_int (m_plpid c) \<noteq> NO_STREAM_ID_FILTER
      then [(''plp'', dec (m_plpid c))] else [])"

text \<open>For a satellite frontend the pilots are set from the settings first.\<close>

definition set_pilots :: "config \<Rightarrow> config" where
  "set_pilots c = (if m_fe_type c = FE_TYPE_SAT
     then c\<lparr>m_pilot := (if o_force_plts (m_settings c) then PILOT_ON else PILOT_OFF)\<rparr> else c)"

definition tuning_args :: "config \<Rightarrow> arg list" where
  "tuning_args c =
     (if o_fe_number (m_settings c) > 0 then [(''fe'', dec (o_fe_number (m_settings c)))] else []) @
     (case m_fe_type c of FE_TYPE_SAT \<Rightarrow> sat_args c
      | FE_TYPE_CABLE \<Rightarrow> cable_args c
      | _ \<Rightarrow> terrestrial_args c)"

definition getTuningData :: "config \<Rightarrow> config \<times> string" where
  "getTuningData c = (let c1 = set_pilots c in (c1, put (tuning_args c1)))"

text \<open>The first ampersand of a non-empty query becomes the question mark.\<close>

definition query_mark :: "string \<Rightarrow> string" where
  "query_mark data =
     (if data \<noteq> [] then ''?'' @ (if data ! 0 = CHR ''&'' then tl data else data) else data)"

definition getSetupData :: "config \<Rightarrow> config \<times> string" where
  "getSetupData c =
     (let r = (if m_status c = CONFIG_STATUS_CHANNEL_CHANGED
               then (let t = getTuningData c in
                     ((fst t)\<lparr>m_status := CONFIG_STATUS_CHANNEL_STABLE\<rparr>, snd t))
               else (c, []));
          c1 = fst r;
          pids = collectActivePids c1 {};
          q = addCaPids c1 pids;
          c2 = commitPidStates (fst q);
          pids = snd q;
          c3 = c2\<lparr>m_requested_pids := pids\<rparr>;
          data = snd r @ (if pids \<noteq> {} then amp (''pids'', joinNumbers pids False)
                          else amp (''pids'', ''none'')) in
      (updatePidStatus c3, query_mark data))"

definition getPlayData :: "config \<Rightarrow> config \<times> string" where
  "getPlayData c =
     (let r = (if m_status c = CONFIG_STATUS_CHANNEL_CHANGED
               then (let t = getTuningData c in
                     ((fst t)\<lparr>m_status := CONFIG_STATUS_CHANNEL_STABLE, m_requested_pids := {}\<rparr>, snd t))
               else (c, []));
          c1 = fst r in
      if getPidStatus c1 = CONFIG_STATUS_PID_CHANGED then
        (let pids = collectActivePids c1 {};
             q = addCaPids c1 pids;
             c2 = commitPidStates (fst q);
             pids = snd q;
             addpids = {p \<in> pids. p \<notin> m_requested_pids c2};
             delpids = {p \<in> m_requested_pids c2. p \<notin> pids};
             c3 = c2\<lparr>m_requested_pids := pids\<rparr>;
             data = snd r @
               (if addpids \<noteq> {} then amp (''addpids'', joinNumbers addpids False) else []) @
               (if delpids \<noteq> {} then amp (''delpids'', joinNumbers delpids False) else []) in
         (updatePidStatus c3, query_mark data))
      else (c1, query_mark (snd r)))"

lemma root2gold_loop_spec:
  "g \<le> 0x3ffff \<Longrightarrow> x = (pls_next ^^ g) 1 \<Longrightarrow> \<forall>k < g. (pls_next ^^ k) 1 \<noteq> root \<Longrightarrow>
   (let r = root2gold_loop root g x in g \<le> r \<and> r \<le> 0x3ffff \<and>
     (r < 0x3ffff \<longrightarrow> (pls_next ^^ r) 1 = root) \<and> (\<forall>k < r. (pls_next ^^ k) 1 \<noteq> root))"
proof (induction "0x3ffff - g" arbitrary: g x rule: less_induct)
  case less
  show ?case
  proof (cases "g < 0x3ffff \<and> root \<noteq> x")
    case True
    have "\<forall>k < g + 1. (pls_next ^^ k) 1 \<noteq> root"
      using less.prems(2,3) True by (auto simp: less_Suc_eq)
    moreover have "pls_next x = (pls_next ^^ (g + 1)) 1" using less.prems(2) by simp
    ultimately have "let r = root2gold_loop root (g + 1) (pls_next x) in g + 1 \<le> r \<and> r \<le> 0x3ffff \<and>
        (r < 0x3ffff \<longrightarrow> (pls_next ^^ r) 1 = root) \<and> (\<forall>k < r. (pls_next ^^ k) 1 \<noteq> root)"
      using True by (intro less.hyps) auto
    then show ?thesis using True by (simp add: root2gold_loop.simps [of root g x] Let_def)
  next
    case False
    then have "root2gold_loop root g x = g"
      using less.prems(1) by (subst root2gold_loop.simps) auto
    then show ?thesis using less.prems False by (auto simp: Let_def)
  qed
qed

text \<open>
  C24. The conversion of a root scrambling code to its gold number always ends, and finds the
  least number of shift register turns from 1 to the code, or the end marker if none of
  the first 0x3ffff turns gives it.
\<close>

theorem pls_root2gold_correct:
  "pls_root2gold root \<le> 0x3ffff \<and>
   (pls_root2gold root < 0x3ffff \<longrightarrow> (pls_next ^^ pls_root2gold root) 1 = root) \<and>
   (\<forall>k < pls_root2gold root. (pls_next ^^ k) 1 \<noteq> root)"
  using root2gold_loop_spec [of 0 1 root] by (simp add: pls_root2gold_def Let_def)

theorem pls_root2gold_correct_witness:
  "pls_root2gold 0x10000 = 2 \<and> (pls_next ^^ pls_root2gold 0x10000) 1 = 0x10000"
proof -
  have "pls_next 1 = 0x20000" "pls_next 0x20000 = 0x10000"
    by (simp_all add: pls_next_def)
  then have "pls_root2gold 0x10000 = 2"
    by (simp add: pls_root2gold_def root2gold_loop.simps [of _ 0] root2gold_loop.simps [of _ "Suc 0"]
        root2gold_loop.simps [of _ 2] numeral_2_eq_2 [symmetric])
  then show ?thesis using pls_root2gold_correct [of "0x10000"] by simp
qed

section \<open>The server's reading\<close>

text \<open>
  A query is split at the ampersands and each part at its first equals sign. Of a SETUP the
  server takes the complete list, of a PLAY the additions and removals; new tuning parameters
  void the list it had.
\<close>

definition split_arg :: "string \<Rightarrow> arg" where
  "split_arg s = (takeWhile (\<lambda>c. c \<noteq> CHR ''='') s, tl (dropWhile (\<lambda>c. c \<noteq> CHR ''='') s))"

definition parse_query :: "string \<Rightarrow> arg list" where
  "parse_query q = (if q = [] then [] else map split_arg (split_at CHR ''&'' (tl q)))"

definition read_pids :: "string option \<Rightarrow> pids" where
  "read_pids v = (case v of None \<Rightarrow> {}
     | Some s \<Rightarrow> if s = ''none'' then {} else read_int ` set (split_at CHR '','' s))"

definition server_pids :: "pids \<Rightarrow> string \<Rightarrow> pids" where
  "server_pids S q =
     (let args = parse_query q;
          S0 = (if map_of args ''freq'' \<noteq> None \<or> map_of args ''pids'' \<noteq> None
                then read_pids (map_of args ''pids'') else S) in
      (S0 \<union> read_pids (map_of args ''addpids'')) - read_pids (map_of args ''delpids''))"

definition arg_ok :: "arg \<Rightarrow> bool" where
  "arg_ok kv \<longleftrightarrow> CHR ''&'' \<notin> set (fst kv) \<and> CHR ''='' \<notin> set (fst kv) \<and> CHR ''&'' \<notin> set (snd kv)"

lemma split_arg_amp: "CHR ''='' \<notin> set k \<Longrightarrow> split_arg (k @ ''='' @ v) = (k, v)"
  by (induction k) (auto simp: split_arg_def)

lemma put_join:
  "args \<noteq> [] \<Longrightarrow> put args = CHR ''&'' # join_with CHR ''&'' (map (\<lambda>kv. fst kv @ ''='' @ snd kv) args)"
proof (induction args)
  case (Cons kv args)
  then show ?case by (cases args) (auto simp: put_def amp_def)
qed simp

lemma parse_query_put:
  assumes "\<forall>kv \<in> set args. arg_ok kv"
  shows "parse_query (query_mark (put args)) = args"
proof (cases "args = []")
  case True
  then show ?thesis by (simp add: put_def query_mark_def parse_query_def)
next
  case False
  let ?fields = "map (\<lambda>kv. fst kv @ ''='' @ snd kv) args"
  have "query_mark (put args) = ''?'' @ join_with CHR ''&'' ?fields"
    using put_join [OF False] by (simp add: query_mark_def)
  then have "parse_query (query_mark (put args)) = map split_arg (split_at CHR ''&'' (join_with CHR ''&'' ?fields))"
    by (simp add: parse_query_def)
  also have "split_at CHR ''&'' (join_with CHR ''&'' ?fields) = ?fields"
    by (rule split_join) (use False assms in \<open>auto simp: arg_ok_def\<close>)
  also have "map split_arg ?fields = args"
    unfolding map_map comp_def using assms
    by (intro map_idI) (auto simp: arg_ok_def split_arg_amp [simplified])
  finally show ?thesis .
qed

lemma read_pids_join:
  assumes "finite A" "A \<noteq> {}"
  shows "read_pids (Some (joinNumbers A False)) = A" "CHR ''&'' \<notin> set (joinNumbers A False)"
proof -
  let ?fields = "map dec (sorted_list_of_set A)"
  have chars: "c \<in> set (joinNumbers A False) \<Longrightarrow> is_digit c \<or> c = CHR ''-'' \<or> c = CHR '',''" for c
    using join_with_chars [of c "CHR '',''" ?fields] dec_chars by (auto simp: joinNumbers_def)
  then show "CHR ''&'' \<notin> set (joinNumbers A False)" by force
  have "CHR ''n'' \<notin> set (joinNumbers A False)" using chars by (force simp: is_digit_def)
  then have none: "joinNumbers A False \<noteq> ''none''" by auto
  have "split_at CHR '','' (joinNumbers A False) = ?fields"
    unfolding joinNumbers_def using assms dec_chars
    by (auto intro!: split_join) (force simp: is_digit_def)
  then have "read_int ` set (split_at CHR '','' (joinNumbers A False)) = A"
    using assms(1) by (simp add: image_image)
  with none show "read_pids (Some (joinNumbers A False)) = A" by (simp add: read_pids_def)
qed

text \<open>The tuning parameters: well-formed, none of them about pids, the frequency among them.\<close>

lemma dec_no_amp: "CHR ''&'' \<notin> set (dec n)" "CHR ''&'' \<notin> set (dec_nat m)"
  using dec_chars [of "CHR ''&''" n] dec_nat_digits [of "CHR ''&''" m] by auto

lemma freq_no_amp: "CHR ''&'' \<notin> set (freq_text f)"
  by (auto simp: freq_text_def dec_no_amp)

definition tuning_key :: "string \<Rightarrow> bool" where
  "tuning_key k \<longleftrightarrow> k \<in> set [''fe'', ''src'', ''freq'', ''pol'', ''msys'', ''sr'', ''fec'', ''ro'', ''mtype'',
     ''plts'', ''isi'', ''plsc'', ''bw'', ''tmode'', ''gi'', ''plp'']"

definition plain_args :: "arg list \<Rightarrow> bool" where
  "plain_args args \<longleftrightarrow> list_all (\<lambda>kv. tuning_key (fst kv) \<and> CHR ''&'' \<notin> set (snd kv)) args"

lemma plain_args_simps [simp]:
  "plain_args []" "plain_args (kv # args) \<longleftrightarrow> tuning_key (fst kv) \<and> CHR ''&'' \<notin> set (snd kv) \<and> plain_args args"
  "plain_args (as @ bs) \<longleftrightarrow> plain_args as \<and> plain_args bs"
  by (auto simp: plain_args_def)

lemma plain_isi: "plain_args (isi_args c)"
  by (auto simp: isi_args_def Let_def tuning_key_def dec_no_amp)

lemma plain_sat: "plain_args (sat_args c)"
  unfolding sat_args_def plain_args_simps fst_conv snd_conv
  by (intro conjI) (simp_all add: tuning_key_def dec_no_amp freq_no_amp plain_isi
      split: t_type_pol.split fe_delsys.split fe_code_rate.split fe_rolloff.split fe_modulation.split
        fe_pilot.split)

lemma plain_cable: "plain_args (cable_args c)"
  unfolding cable_args_def plain_args_simps fst_conv snd_conv
  by (intro conjI) (simp_all add: tuning_key_def dec_no_amp freq_no_amp split: fe_modulation.split)

lemma plain_terrestrial: "plain_args (terrestrial_args c)"
  unfolding terrestrial_args_def plain_args_simps fst_conv snd_conv
  by (intro conjI) (simp_all add: tuning_key_def dec_no_amp freq_no_amp
      split: fe_delsys.split fe_transmode.split fe_modulation.split fe_guard.split fe_code_rate.split)

lemma plain_tuning: "plain_args (tuning_args c)"
  by (cases "m_fe_type c")
    (simp_all add: tuning_args_def plain_sat plain_cable plain_terrestrial tuning_key_def dec_no_amp)

lemma tuning_has_freq: "map_of (tuning_args c) ''freq'' = Some (freq_text (m_frequency c))"
  by (cases "m_fe_type c"; cases "o_fe_number (m_settings c) > 0")
    (simp_all add: tuning_args_def sat_args_def cable_args_def terrestrial_args_def split del: if_split)

lemma plain_args_ok: "plain_args args \<Longrightarrow> kv \<in> set args \<Longrightarrow> arg_ok kv"
  by (auto simp: plain_args_def list_all_iff arg_ok_def tuning_key_def)

lemma plain_args_no_pids:
  assumes "plain_args args"
  shows "map_of args ''pids'' = None" "map_of args ''addpids'' = None" "map_of args ''delpids'' = None"
  using assms by (induction args) (auto simp: tuning_key_def)

section \<open>The requests keep client and server in step\<close>

lemma commit_elem_pid [simp]: "pe_pid (commit_elem e) = pe_pid e"
  by (simp add: commit_elem_def)

lemma commit_sets:
  assumes "pids_ok es"
  shows "pids_ok (map commit_elem es)" "wanted_pids (map commit_elem es) = wanted_pids es"
    "told_pids (map commit_elem es) = wanted_pids es"
proof -
  show "pids_ok (map commit_elem es)"
    by (rule pids_ok_map [OF assms commit_elem_pid]) (simp add: commit_elem_def)
  have "pe_status (commit_elem e) \<in> {PID_ADD, PID_VAILD} \<longleftrightarrow> pe_status e \<in> {PID_ADD, PID_VAILD}"
    "pe_status (commit_elem e) \<in> {PID_VAILD, PID_DELETE} \<longleftrightarrow> pe_status e \<in> {PID_ADD, PID_VAILD}" for e
    by (cases "pe_status e"; simp add: commit_elem_def)+
  then show "wanted_pids (map commit_elem es) = wanted_pids es"
    "told_pids (map commit_elem es) = wanted_pids es"
    unfolding pids_with_map [OF commit_elem_pid] by (simp_all add: pids_with_def)
qed

lemma config_ok_finite:
  assumes "config_ok c"
  shows "finite (m_ca_pids c)" "finite (m_requested_pids c)" "pids_ok (m_pid_list c)"
proof -
  have "finite (m_derived_pids p)" if "psi_ok p" for p
    using that unfolding psi_ok_def by (metis finite_first_n)
  then show "finite (m_ca_pids c)" "finite (m_requested_pids c)" "pids_ok (m_pid_list c)"
    using assms by (auto simp: config_ok_def split: option.splits)
qed

text \<open>The part SETUP and PLAY share: what is wanted, and the state with it requested.\<close>

definition all_wanted :: "config \<Rightarrow> pids" where
  "all_wanted c = wanted_pids (m_pid_list c) \<union> m_ca_pids c"

definition requested :: "config \<Rightarrow> config" where
  "requested c = c\<lparr>m_ca_dirty := False, m_pid_list := map commit_elem (m_pid_list c),
     m_requested_pids := all_wanted c, m_pid_status := CONFIG_STATUS_PID_STATIONARY\<rparr>"

lemma request_steps:
  assumes "config_ok c"
  shows "snd (addCaPids c (collectActivePids c {})) = all_wanted c"
    "updatePidStatus ((commitPidStates (fst (addCaPids c (collectActivePids c {}))))
       \<lparr>m_requested_pids := all_wanted c\<rparr>) = requested c"
proof -
  note ok = config_ok_finite [OF assms]
  show "snd (addCaPids c (collectActivePids c {})) = all_wanted c"
    by (simp add: addCaPids_def collectActivePids_eq all_wanted_def)
  let ?d = "(commitPidStates (fst (addCaPids c (collectActivePids c {}))))\<lparr>m_requested_pids := all_wanted c\<rparr>"
  have l: "m_pid_list ?d = map commit_elem (m_pid_list c)"
    by (simp add: commitPidStates_def addCaPids_def)
  have "updatePidStatus ?d = ?d\<lparr>m_pid_status := CONFIG_STATUS_PID_STATIONARY\<rparr>"
    using updatePidStatus_eq [of ?d] commit_sets [OF ok(3)] unfolding l by simp
  then show "updatePidStatus ?d = requested c"
    by (simp add: requested_def commitPidStates_def addCaPids_def)
qed

lemma requested_ok:
  assumes "config_ok c"
  shows "config_ok (requested c)" "getPidStatus (requested c) = CONFIG_STATUS_PID_STATIONARY"
    "wanted_pids (m_pid_list (requested c)) = wanted_pids (m_pid_list c)"
    "told_pids (m_pid_list (requested c)) = wanted_pids (m_pid_list c)"
    "finite (all_wanted c)"
proof -
  note ok = config_ok_finite [OF assms]
  show fin: "finite (all_wanted c)" using ok by (simp add: all_wanted_def)
  show "config_ok (requested c)"
    using assms commit_sets [OF ok(3)] fin by (simp add: config_ok_def requested_def split: option.splits)
  show "getPidStatus (requested c) = CONFIG_STATUS_PID_STATIONARY"
    by (simp add: getPidStatus_def requested_def)
  show "wanted_pids (m_pid_list (requested c)) = wanted_pids (m_pid_list c)"
    "told_pids (m_pid_list (requested c)) = wanted_pids (m_pid_list c)"
    using commit_sets [OF ok(3)] by (simp_all add: requested_def)
qed

text \<open>The tuning part of a request, empty unless the channel changed.\<close>

definition tuned :: "config \<Rightarrow> config" where
  "tuned c = (if m_status c = CONFIG_STATUS_CHANNEL_CHANGED
     then (set_pilots c)\<lparr>m_status := CONFIG_STATUS_CHANNEL_STABLE\<rparr> else c)"

definition tune_part :: "config \<Rightarrow> arg list" where
  "tune_part c = (if m_status c = CONFIG_STATUS_CHANNEL_CHANGED then tuning_args (set_pilots c) else [])"

lemma plain_tune_part: "plain_args (tune_part c)"
  by (simp add: tune_part_def plain_tuning)

lemma tune_part_freq: "map_of (tune_part c) ''freq'' \<noteq> None \<longleftrightarrow> m_status c = CONFIG_STATUS_CHANNEL_CHANGED"
  by (simp add: tune_part_def tuning_has_freq)

lemma tuned_ok:
  assumes "config_ok c"
  shows "config_ok (tuned c)" "all_wanted (tuned c) = all_wanted c" "getPidStatus (tuned c) = getPidStatus c"
    "m_requested_pids (tuned c) = m_requested_pids c"
  using assms by (auto simp: tuned_def set_pilots_def config_ok_def all_wanted_def getPidStatus_def
      split: option.splits)

lemma requested_pids_update:
  "config_ok c \<Longrightarrow> finite S \<Longrightarrow> config_ok (c\<lparr>m_requested_pids := S\<rparr>)"
  "all_wanted (c\<lparr>m_requested_pids := S\<rparr>) = all_wanted c"
  "getPidStatus (c\<lparr>m_requested_pids := S\<rparr>) = getPidStatus c"
  by (simp_all add: config_ok_def all_wanted_def getPidStatus_def split: option.splits)

definition pid_arg :: "string \<Rightarrow> pids \<Rightarrow> arg list" where
  "pid_arg key A = (if A \<noteq> {} then [(key, joinNumbers A False)] else [])"

lemma getSetupData_eq:
  assumes "config_ok c"
  shows "getSetupData c = (requested (tuned c), query_mark (put (tune_part c @
    (if all_wanted c \<noteq> {} then [(''pids'', joinNumbers (all_wanted c) False)] else [(''pids'', ''none'')]))))"
proof -
  note ok = tuned_ok [OF assms]
  have r: "(if m_status c = CONFIG_STATUS_CHANNEL_CHANGED
      then ((fst (getTuningData c))\<lparr>m_status := CONFIG_STATUS_CHANNEL_STABLE\<rparr>, snd (getTuningData c))
      else (c, [])) = (tuned c, put (tune_part c))"
    by (simp add: tuned_def tune_part_def getTuningData_def Let_def put_def)
  show ?thesis
    unfolding getSetupData_def Let_def r fst_conv snd_conv
    unfolding request_steps [OF ok(1), unfolded ok(2)] by (simp add: put_def)
qed

lemma getPlayData_eq:
  assumes "config_ok c"
  defines "S \<equiv> (if m_status c = CONFIG_STATUS_CHANNEL_CHANGED then {} else m_requested_pids c)"
  shows "getPlayData c =
    (if getPidStatus c = CONFIG_STATUS_PID_CHANGED
     then (requested (tuned c), query_mark (put (tune_part c @ pid_arg ''addpids'' (all_wanted c - S) @
             pid_arg ''delpids'' (S - all_wanted c))))
     else ((tuned c)\<lparr>m_requested_pids := S\<rparr>, query_mark (put (tune_part c))))"
proof -
  note ok = tuned_ok [OF assms(1)]
  let ?c = "(tuned c)\<lparr>m_requested_pids := S\<rparr>"
  have r: "(if m_status c = CONFIG_STATUS_CHANNEL_CHANGED
      then ((fst (getTuningData c))\<lparr>m_status := CONFIG_STATUS_CHANNEL_STABLE, m_requested_pids := {}\<rparr>,
            snd (getTuningData c))
      else (c, [])) = (?c, put (tune_part c))"
    by (simp add: tuned_def tune_part_def getTuningData_def Let_def put_def S_def)
  have c: "config_ok ?c" "all_wanted ?c = all_wanted c" "getPidStatus ?c = getPidStatus c"
    using ok config_ok_finite(2) [OF assms(1)] by (simp_all add: requested_pids_update S_def)
  have m: "m_requested_pids (commitPidStates (fst (addCaPids ?c A))) = S" for A
    by (simp add: commitPidStates_def addCaPids_def)
  have q: "requested ?c = requested (tuned c)"
    by (simp add: requested_def all_wanted_def)
  have sets: "{p \<in> all_wanted c. p \<notin> S} = all_wanted c - S" "{p \<in> S. p \<notin> all_wanted c} = S - all_wanted c"
    by auto
  show ?thesis
    unfolding getPlayData_def Let_def r fst_conv snd_conv
    unfolding request_steps [OF c(1), unfolded c(2)] c(3) m q sets
    by (simp add: put_def pid_arg_def)
qed

lemma server_reads:
  assumes "plain_args ts" "\<forall>kv \<in> set ps. arg_ok kv"
  shows "server_pids S (query_mark (put (ts @ ps))) =
    ((if map_of ts ''freq'' \<noteq> None \<or> map_of ps ''freq'' \<noteq> None \<or> map_of ps ''pids'' \<noteq> None
      then read_pids (map_of ps ''pids'') else S) \<union> read_pids (map_of ps ''addpids'')) -
    read_pids (map_of ps ''delpids'')"
proof -
  have "\<forall>kv \<in> set (ts @ ps). arg_ok kv" using assms plain_args_ok by auto
  then have "parse_query (query_mark (put (ts @ ps))) = ts @ ps" by (rule parse_query_put)
  moreover have "map_of (ts @ ps) k = map_of ps k" if "map_of ts k = None" for k
    using that by (simp add: map_add_def split: option.splits)
  ultimately show ?thesis
    using plain_args_no_pids [OF assms(1)]
    by (cases "map_of ts ''freq''") (simp_all add: server_pids_def Let_def)
qed

lemma pid_arg_ok: "finite A \<Longrightarrow> CHR ''&'' \<notin> set k \<Longrightarrow> CHR ''='' \<notin> set k \<Longrightarrow> \<forall>kv \<in> set (pid_arg k A). arg_ok kv"
  by (simp add: pid_arg_def arg_ok_def read_pids_join)

lemma read_pid_arg: "finite A \<Longrightarrow> read_pids (map_of (pid_arg k A) k) = A"
  by (cases "A = {}") (simp_all add: pid_arg_def read_pids_join, simp add: read_pids_def)

text \<open>What a server that has the list \<open>R\<close> has after reading a request.\<close>

lemma setup_server:
  assumes "config_ok c"
  shows "server_pids R (snd (getSetupData c)) = all_wanted c"
proof -
  have fin: "finite (all_wanted c)" using requested_ok(5) [OF assms] .
  let ?ps = "if all_wanted c \<noteq> {} then [(''pids'', joinNumbers (all_wanted c) False)] else [(''pids'', ''none'')]"
  have "\<forall>kv \<in> set ?ps. arg_ok kv" using fin by (simp add: arg_ok_def read_pids_join)
  moreover have "read_pids (map_of ?ps ''pids'') = all_wanted c"
    using fin by (cases "all_wanted c = {}") (simp_all add: read_pids_join, simp add: read_pids_def)
  moreover have "map_of ?ps ''pids'' \<noteq> None" "map_of ?ps ''addpids'' = None" "map_of ?ps ''delpids'' = None"
    by simp_all
  ultimately show ?thesis
    using server_reads [OF plain_tune_part, of ?ps R c]
    by (simp add: getSetupData_eq [OF assms] read_pids_def)
qed

lemma play_server:
  fixes R :: pids
  assumes "config_ok c"
  defines "S \<equiv> (if m_status c = CONFIG_STATUS_CHANNEL_CHANGED then {} else m_requested_pids c)"
    and "R' \<equiv> (if m_status c = CONFIG_STATUS_CHANNEL_CHANGED then {} else R)"
  shows "server_pids R (snd (getPlayData c)) =
    (if getPidStatus c = CONFIG_STATUS_PID_CHANGED then (R' \<union> (all_wanted c - S)) - (S - all_wanted c) else R')"
proof -
  let ?A = "all_wanted c"
  have fin: "finite ?A" "finite S" using requested_ok(5) [OF assms(1)] config_ok_finite(2) [OF assms(1)] by (simp_all add: S_def)
  show ?thesis
  proof (cases "getPidStatus c = CONFIG_STATUS_PID_CHANGED")
    case True
    let ?ps = "pid_arg ''addpids'' (?A - S) @ pid_arg ''delpids'' (S - ?A)"
    have args: "\<forall>kv \<in> set ?ps. arg_ok kv"
      using fin pid_arg_ok [of "?A - S" "''addpids''"] pid_arg_ok [of "S - ?A" "''delpids''"] by auto
    have add: "map_of ?ps ''addpids'' = map_of (pid_arg ''addpids'' (?A - S)) ''addpids''"
      and del: "map_of ?ps ''delpids'' = map_of (pid_arg ''delpids'' (S - ?A)) ''delpids''"
      and none: "map_of ?ps ''freq'' = None" "map_of ?ps ''pids'' = None"
      by (simp_all add: pid_arg_def map_add_def split: option.splits)
    have "server_pids R (query_mark (put (tune_part c @ ?ps))) = (R' \<union> (?A - S)) - (S - ?A)"
      unfolding server_reads [OF plain_tune_part args] add del none tune_part_freq
      using fin by (simp add: read_pid_arg R'_def) (simp add: read_pids_def)
    then show ?thesis using True by (simp add: getPlayData_eq [OF assms(1)] S_def)
  next
    case False
    have "server_pids R (query_mark (put (tune_part c @ []))) = R'"
      using server_reads [OF plain_tune_part, of "[]" R c]
      unfolding tune_part_freq by (simp add: read_pids_def R'_def)
    then show ?thesis using False by (simp add: getPlayData_eq [OF assms(1)])
  qed
qed

lemma play_requested:
  assumes "config_ok c"
  shows "m_requested_pids (fst (getPlayData c)) =
    (if getPidStatus c = CONFIG_STATUS_PID_CHANGED then all_wanted c
     else if m_status c = CONFIG_STATUS_CHANNEL_CHANGED then {} else m_requested_pids c)"
  using tuned_ok(2) [OF assms] by (simp add: getPlayData_eq [OF assms] requested_def)

text \<open>
  SETUP defines the server's list: whatever it had, after reading the query it has exactly
  the kernel's pids and the CA pids, which is what the client records; nothing is pending.
\<close>

theorem getSetupData_defines_list:
  assumes "config_ok c"
  shows "server_pids S (snd (getSetupData c)) = wanted_pids (m_pid_list c) \<union> m_ca_pids c \<and>
    m_requested_pids (fst (getSetupData c)) = wanted_pids (m_pid_list c) \<union> m_ca_pids c \<and>
    getPidStatus (fst (getSetupData c)) = CONFIG_STATUS_PID_STATIONARY \<and>
    m_status (fst (getSetupData c)) \<noteq> CONFIG_STATUS_CHANNEL_CHANGED \<and> config_ok (fst (getSetupData c))"
proof -
  note ok = tuned_ok [OF assms] and req = requested_ok [OF tuned_ok(1) [OF assms]]
  have "m_requested_pids (requested (tuned c)) = all_wanted c"
    "m_status (requested (tuned c)) \<noteq> CONFIG_STATUS_CHANNEL_CHANGED"
    using ok(2) by (simp_all add: requested_def tuned_def set_pilots_def)
  then show ?thesis
    unfolding setup_server [OF assms] unfolding getSetupData_eq [OF assms] fst_conv
    using req by (simp add: all_wanted_def)
qed

theorem getSetupData_defines_list_witness:
  "server_pids {} (snd (getSetupData (satipConfig blank_config FE_TYPE_SAT (m_settings blank_config)))) =
   wanted_pids (m_pid_list (satipConfig blank_config FE_TYPE_SAT (m_settings blank_config))) \<union>
   m_ca_pids (satipConfig blank_config FE_TYPE_SAT (m_settings blank_config))"
  using getSetupData_defines_list [OF satipConfig_ok] by blast

text \<open>
  C12. PLAY keeps client and server in step: a server that has the list the client recorded
  has, after reading the query, the list the client records now; and when a change was
  pending, that is exactly the kernel's pids and the CA pids, so a pid dropped by one side and
  still needed by the other one stays.
\<close>

theorem getPlayData_in_step:
  assumes "config_ok c"
  shows "server_pids (m_requested_pids c) (snd (getPlayData c)) = m_requested_pids (fst (getPlayData c)) \<and>
    (getPidStatus c = CONFIG_STATUS_PID_CHANGED \<longrightarrow>
       m_requested_pids (fst (getPlayData c)) = wanted_pids (m_pid_list c) \<union> m_ca_pids c) \<and>
    getPidStatus (fst (getPlayData c)) = CONFIG_STATUS_PID_STATIONARY \<and>
    m_status (fst (getPlayData c)) \<noteq> CONFIG_STATUS_CHANNEL_CHANGED \<and> config_ok (fst (getPlayData c))"
proof -
  note ok = tuned_ok [OF assms] and req = requested_ok [OF tuned_ok(1) [OF assms]]
  have st: "m_status (tuned c) \<noteq> CONFIG_STATUS_CHANNEL_CHANGED"
    by (simp add: tuned_def set_pilots_def)
  have fin: "finite (m_requested_pids c)" by (rule config_ok_finite(2) [OF assms])
  have "server_pids (m_requested_pids c) (snd (getPlayData c)) = m_requested_pids (fst (getPlayData c))"
    unfolding play_server [OF assms] play_requested [OF assms] by auto
  moreover have "getPidStatus (fst (getPlayData c)) = CONFIG_STATUS_PID_STATIONARY \<and>
      m_status (fst (getPlayData c)) \<noteq> CONFIG_STATUS_CHANNEL_CHANGED \<and> config_ok (fst (getPlayData c))"
  proof (cases "getPidStatus c = CONFIG_STATUS_PID_CHANGED")
    case True
    then show ?thesis using req st by (simp add: getPlayData_eq [OF assms] requested_def)
  next
    case False
    then have "getPidStatus c = CONFIG_STATUS_PID_STATIONARY" by (simp add: getPidStatus_def split: if_splits)
    then show ?thesis using False ok fin st by (simp add: getPlayData_eq [OF assms] requested_pids_update)
  qed
  ultimately show ?thesis by (simp add: play_requested [OF assms] all_wanted_def)
qed

theorem getPlayData_in_step_witness:
  "server_pids {} (snd (getPlayData (satipConfig blank_config FE_TYPE_SAT (m_settings blank_config)))) =
   m_requested_pids (fst (getPlayData (satipConfig blank_config FE_TYPE_SAT (m_settings blank_config))))"
proof -
  let ?c = "satipConfig blank_config FE_TYPE_SAT (m_settings blank_config)"
  have r: "m_requested_pids (fold setCaPids reps c) = m_requested_pids c" for reps c
    by (induction reps arbitrary: c) (simp_all add: setCaPids_def wakeup_def)
  have "m_requested_pids ?c = {}"
    by (simp add: satipConfig_def clearProperty_def run_psi_def clearPidList_def Let_def r)
  then show ?thesis
    using getPlayData_in_step [OF satipConfig_ok, of blank_config FE_TYPE_SAT "m_settings blank_config"]
    by simp
qed

text \<open>
  C26. A PLAY that retunes while no pid change is pending forgets the pids: it carries the tuning
  parameters and no pid at all, and both sides are left with an empty list although the
  kernel still wants its pids.
\<close>

theorem getPlayData_retune_without_pids:
  assumes "config_ok c" "m_status c = CONFIG_STATUS_CHANNEL_CHANGED"
    and "getPidStatus c = CONFIG_STATUS_PID_STATIONARY"
  shows "server_pids S (snd (getPlayData c)) = {} \<and> m_requested_pids (fst (getPlayData c)) = {} \<and>
    wanted_pids (m_pid_list (fst (getPlayData c))) = wanted_pids (m_pid_list c) \<and>
    getPidStatus (fst (getPlayData c)) = CONFIG_STATUS_PID_STATIONARY"
proof -
  have "server_pids S (query_mark (put (tune_part c @ []))) = {}"
    using server_reads [OF plain_tune_part, of "[]" S c] assms(2)
    unfolding tune_part_freq by (simp add: read_pids_def)
  then show ?thesis
    unfolding getPlayData_eq [OF assms(1)] using assms tuned_ok [OF assms(1)]
    by (simp add: requested_pids_update tuned_def set_pilots_def)
qed

theorem getPlayData_retune_without_pids_witness:
  "server_pids {0x10} (snd (getPlayData (setChannelRetry (fst (getSetupData (updatePidList
     ([0x10] @ replicate 29 0xffff) (satipConfig blank_config FE_TYPE_SAT (m_settings blank_config)))))))) = {} \<and>
   wanted_pids (m_pid_list (fst (getPlayData (setChannelRetry (fst (getSetupData (updatePidList
     ([0x10] @ replicate 29 0xffff) (satipConfig blank_config FE_TYPE_SAT (m_settings blank_config))))))))) = {0x10}"
proof -
  let ?ns = "[0x10] @ replicate 29 0xffff :: u16 list"
  let ?c0 = "satipConfig blank_config FE_TYPE_SAT (m_settings blank_config)"
  let ?c1 = "updatePidList ?ns ?c0"
  let ?c = "setChannelRetry (fst (getSetupData ?c1))"
  have n: "new_pids ?ns = {0x10}" by (auto simp: new_pids_def listed_def MAX_PIDS_def)
  have c1: "config_ok ?c1" "wanted_pids (m_pid_list ?c1) = {0x10}"
    using updatePidList_run [OF satipConfig_ok, of ?ns blank_config FE_TYPE_SAT "m_settings blank_config"]
    unfolding satipConfig_empty_table n by (simp_all add: MAX_PIDS_def)
  note t = tuned_ok [OF c1(1)]
  note r = requested_ok [OF t(1)]
  have "m_pid_list (tuned ?c1) = m_pid_list ?c1" by (simp add: tuned_def set_pilots_def)
  then have l: "wanted_pids (m_pid_list ?c) = {0x10}"
    using r(3) c1 by (simp add: setChannelRetry_def getSetupData_eq)
  have keep: "config_ok (setChannelRetry d) = config_ok d" "getPidStatus (setChannelRetry d) = getPidStatus d" for d
    by (simp_all add: setChannelRetry_def config_ok_def getPidStatus_def cong: option.case_cong)
  have "config_ok ?c" "m_status ?c = CONFIG_STATUS_CHANNEL_CHANGED" "getPidStatus ?c = CONFIG_STATUS_PID_STATIONARY"
    unfolding keep getSetupData_eq [OF c1(1)] using r(1,2) by (simp_all add: setChannelRetry_def)
  from getPlayData_retune_without_pids [OF this] l show ?thesis by simp
qed

section \<open>All histories\<close>

text \<open>Changes of the tuning parameters and of the channel status only.\<close>

definition same_pid_state :: "config \<Rightarrow> config \<Rightarrow> bool" where
  "same_pid_state c c' \<longleftrightarrow> m_pid_list c' = m_pid_list c \<and> m_requested_pids c' = m_requested_pids c \<and>
     m_psi c' = m_psi c \<and> m_ca_pids c' = m_ca_pids c \<and> m_ca_dirty c' = m_ca_dirty c \<and>
     m_pid_status c' = m_pid_status c \<and> m_wakeup_fd c' = m_wakeup_fd c \<and> m_wakeups c' = m_wakeups c"

lemma setters_same_pid_state:
  "same_pid_state c (setPosition n c)" "same_pid_state c (setFrequency f c)"
  "same_pid_state c (setModsys ms c)" "same_pid_state c (setModtype mt c)"
  "same_pid_state c (setSymrate n c)" "same_pid_state c (setFec fec c)"
  "same_pid_state c (setRolloff ro c)" "same_pid_state c (setPilots pl c)"
  "same_pid_state c (setTransmode tm c)" "same_pid_state c (setGuardInterval gi c)"
  "same_pid_state c (setBandwidth n c)" "same_pid_state c (setPLP n c)"
  "same_pid_state c (setPLScode n c)" "same_pid_state c (setVoltage v c)"
  "same_pid_state c (setChannelChanged c)"
  "same_pid_state c (setChannelRetry c)" "same_pid_state c (clearChannelChanged c)"
  by (simp_all add: same_pid_state_def setPosition_def setFrequency_def setModsys_def setModtype_def
      setSymrate_def setFec_def setRolloff_def setPilots_def setTransmode_def setGuardInterval_def
      setBandwidth_def setPLP_def setPLScode_def setVoltage_def setChannelChanged_def
      setChannelRetry_def clearChannelChanged_def Let_def split: fe_voltage.split)

inductive config_reach :: "config \<Rightarrow> bool" where
  on_start: "config_reach (satipConfig raw fe_type settings)"
| on_tune: "config_reach c \<Longrightarrow> same_pid_state c c' \<Longrightarrow> config_reach c'"
| on_wakeup: "config_reach c \<Longrightarrow> config_reach (wakeup c)"
| on_wakeup_fd: "config_reach c \<Longrightarrow> config_reach (setWakeupFd fd c)"
| on_clear: "config_reach c \<Longrightarrow> config_reach (clearProperty c)"
| on_pidlist: "config_reach c \<Longrightarrow> config_reach (updatePidList ns c)"
| on_setup: "config_reach c \<Longrightarrow> config_reach (fst (getSetupData c))"
| on_play: "config_reach c \<Longrightarrow> config_reach (fst (getPlayData c))"
| on_tap: "config_reach c \<Longrightarrow> len \<le> length data \<Longrightarrow> tap_data now0 now1 data len c = Some c' \<Longrightarrow>
    config_reach c'"

text \<open>
  Without a pending report of the tap the requested pids are those told for the kernel and the
  CA pids, or nothing after a retune; without a pending kernel change those told are the wanted ones.
\<close>

definition tracked_requests :: "config \<Rightarrow> bool" where
  "tracked_requests c \<longleftrightarrow>
     (m_pid_status c = CONFIG_STATUS_PID_STATIONARY \<longrightarrow>
        wanted_pids (m_pid_list c) = told_pids (m_pid_list c)) \<and>
     (\<not> m_ca_dirty c \<longrightarrow>
        m_requested_pids c = told_pids (m_pid_list c) \<union> m_ca_pids c \<or> m_requested_pids c = {})"

lemma pids_with_fold_setCaPids:
  "m_pid_list (fold setCaPids reps c) = m_pid_list c \<and> m_requested_pids (fold setCaPids reps c) = m_requested_pids c \<and>
   m_pid_status (fold setCaPids reps c) = m_pid_status c \<and> (m_ca_dirty c \<longrightarrow> m_ca_dirty (fold setCaPids reps c)) \<and>
   (\<not> m_ca_dirty (fold setCaPids reps c) \<longrightarrow> m_ca_pids (fold setCaPids reps c) = m_ca_pids c)"
proof (induction reps arbitrary: c)
  case (Cons r reps)
  have "m_pid_list (setCaPids r c) = m_pid_list c \<and> m_requested_pids (setCaPids r c) = m_requested_pids c \<and>
    m_pid_status (setCaPids r c) = m_pid_status c \<and> (m_ca_dirty c \<longrightarrow> m_ca_dirty (setCaPids r c)) \<and>
    (\<not> m_ca_dirty (setCaPids r c) \<longrightarrow> m_ca_pids (setCaPids r c) = m_ca_pids c)"
    by (simp add: setCaPids_def wakeup_def)
  then show ?case using Cons.IH [of "setCaPids r c"] by auto
qed simp

lemma tracked_run_psi: "tracked_requests c \<Longrightarrow> tracked_requests (run_psi f c)"
proof (cases "m_psi c")
  case (Some p)
  assume "tracked_requests c"
  then show ?thesis
    using pids_with_fold_setCaPids [of "snd (f p)" "c\<lparr>m_psi := Some (fst (f p))\<rparr>"]
    by (auto simp: tracked_requests_def run_psi_def Some)
qed (simp add: run_psi_def)

lemma same_pid_state_inv:
  assumes "same_pid_state c c'"
  shows "config_ok c' = config_ok c" "tracked_requests c' = tracked_requests c"
  using assms
  by (simp_all add: config_ok_def tracked_requests_def same_pid_state_def cong: option.case_cong)

lemma wakeup_inv:
  "config_ok (wakeup c) = config_ok c" "tracked_requests (wakeup c) = tracked_requests c"
  "config_ok (setWakeupFd fd c) = config_ok c" "tracked_requests (setWakeupFd fd c) = tracked_requests c"
  by (simp_all add: wakeup_def setWakeupFd_def config_ok_def tracked_requests_def cong: option.case_cong)

lemma tracked_updatePidList:
  assumes "config_ok c" "tracked_requests c"
  shows "tracked_requests (updatePidList ns c)"
proof -
  let ?news = "map uint (take MAX_PIDS ns)"
  let ?c1 = "c\<lparr>m_pid_list := map (del_pid ?news) (fold add_pid ?news (m_pid_list c))\<rparr>"
  have "pids_ok (m_pid_list c)" "\<forall>n \<in> set ?news. 0 \<le> n"
    using assms(1) by (auto simp: config_ok_def)
  note add = fold_add_pid [OF this]
  have del: "pids_ok (m_pid_list ?c1)" "told_pids (m_pid_list ?c1) = told_pids (m_pid_list c)"
    using del_pid_sets [of "fold add_pid ?news (m_pid_list c)" ?news] add by simp_all
  have "tracked_requests (updatePidStatus ?c1)"
    using assms(2) del(2) unfolding updatePidStatus_eq [OF del(1)] tracked_requests_def by simp
  then show ?thesis
    unfolding updatePidList_def Let_def notifyPidList_def by (rule tracked_run_psi)
qed

lemma tracked_requested: "config_ok c \<Longrightarrow> tracked_requests (requested c)"
  using requested_ok [of c] by (auto simp: tracked_requests_def) (simp_all add: requested_def all_wanted_def)

lemma tracked_play:
  assumes "config_ok c" "tracked_requests c"
  shows "tracked_requests (fst (getPlayData c))"
proof (cases "getPidStatus c = CONFIG_STATUS_PID_CHANGED")
  case True
  then show ?thesis
    using tracked_requested [OF tuned_ok(1) [OF assms(1)]] by (simp add: getPlayData_eq [OF assms(1)])
next
  case False
  have "same_pid_state c (tuned c)" by (simp add: same_pid_state_def tuned_def set_pilots_def)
  then have "tracked_requests ((tuned c)\<lparr>m_requested_pids :=
      if m_status c = CONFIG_STATUS_CHANNEL_CHANGED then {} else m_requested_pids c\<rparr>)"
    using assms(2) by (auto simp: tracked_requests_def same_pid_state_def)
  then show ?thesis using False by (simp add: getPlayData_eq [OF assms(1)])
qed

lemma config_ok_play: "config_ok c \<Longrightarrow> config_ok (fst (getPlayData c))"
  using requested_ok(1) [OF tuned_ok(1)] tuned_ok(1) config_ok_finite(2)
  by (simp add: getPlayData_eq requested_pids_update(1))

lemma tracked_start: "tracked_requests (satipConfig raw fe_type settings)"
proof -
  let ?c = "satipConfig raw fe_type settings"
  have "wanted_pids (m_pid_list ?c) = {}" "told_pids (m_pid_list ?c) = {}"
    using satipConfig_empty_table [of raw fe_type settings] unfolding used_pids_split by simp_all
  moreover have "m_requested_pids ?c = {}"
    using pids_with_fold_setCaPids
    by (simp add: satipConfig_def clearProperty_def run_psi_def clearPidList_def Let_def)
  ultimately show ?thesis by (simp add: tracked_requests_def)
qed

lemma config_reach_inv: "config_reach c \<Longrightarrow> config_ok c \<and> tracked_requests c"
proof (induction rule: config_reach.induct)
  case (on_start raw fe_type settings)
  then show ?case by (simp add: satipConfig_ok tracked_start)
next
  case (on_tune c c')
  then show ?case by (simp add: same_pid_state_inv)
next
  case (on_wakeup c)
  then show ?case by (simp add: wakeup_inv)
next
  case (on_wakeup_fd c fd)
  then show ?case by (simp add: wakeup_inv)
next
  case (on_clear c)
  then show ?case using clearProperty_ok [of c] by (simp add: tracked_requests_def)
next
  case (on_pidlist c ns)
  then show ?case using updatePidList_run [of c ns] by (simp add: tracked_updatePidList)
next
  case (on_setup c)
  then show ?case
    using requested_ok(1) [OF tuned_ok(1)] tracked_requested [OF tuned_ok(1)] by (simp add: getSetupData_eq)
next
  case (on_play c)
  then show ?case by (simp add: tracked_play config_ok_play)
next
  case (on_tap c len data now0 now1 c')
  then show ?case
    using tap_data_ok [of c len data now0 now1] tracked_run_psi [of c]
    by (auto simp: tap_data_def split: option.splits)
qed



end
