(* ===== verification/C_Scan.thy ===== *)
theory C_Scan
  imports C_Strings
begin

text \<open>
  The functions of the C library that the program reads text with: \<^verbatim>\<open>strstr\<close>, \<^verbatim>\<open>strchr\<close>,
  \<^verbatim>\<open>strcspn\<close>, \<^verbatim>\<open>isspace\<close>, \<^verbatim>\<open>strtol\<close>, \<^verbatim>\<open>atoi\<close> and the conversions of \<^verbatim>\<open>sscanf\<close>. A pointer into a
  C string is the rest of the string from there on; a null pointer is \<open>None\<close>. Numbers that do
  not fit are handled as the GNU library does: saturated to 64 bits, then cut to 32.
\<close>

section \<open>C strings in memory\<close>

definition byte_char :: "u8 \<Rightarrow> char" where
  "byte_char b = char_of (unat b)"

definition char_byte :: "char \<Rightarrow> u8" where
  "char_byte c = word_of_nat (of_char c)"

definition bytes :: "string \<Rightarrow> u8 list" where
  "bytes s = map char_byte s"

text \<open>The characters up to the terminating zero, which has to be inside the object.\<close>

definition c_string :: "u8 list \<Rightarrow> string option" where
  "c_string m =
     (let s = takeWhile (\<lambda>b. b \<noteq> 0) m in if length s < length m then Some (map byte_char s) else None)"

lemma byte_char_byte [simp]: "byte_char (char_byte c) = c"
  by (simp add: byte_char_def char_byte_def unat_of_nat)

lemma char_byte_char [simp]: "char_byte (byte_char b) = b"
  by (simp add: byte_char_def char_byte_def)

lemma byte_char_inj [simp]: "byte_char a = byte_char b \<longleftrightarrow> a = b"
  by (metis char_byte_char)

lemma char_byte_zero: "char_byte c = 0 \<longleftrightarrow> c = CHR 0x00"
proof -
  have "byte_char 0 = CHR 0x00" by (simp add: byte_char_def char_of_def)
  then show ?thesis by (metis byte_char_byte char_byte_char)
qed

lemma length_bytes [simp]: "length (bytes s) = length s"
  by (simp add: bytes_def)

lemma map_byte_char_bytes [simp]: "map byte_char (bytes s) = s"
  by (induction s) (simp_all add: bytes_def)

lemma c_string_length: "c_string m = Some s \<Longrightarrow> length s < length m"
  by (auto simp: c_string_def Let_def split: if_splits)

lemma takeWhile_nz_length:
  "i < length m \<Longrightarrow> m ! i = 0 \<Longrightarrow> length (takeWhile (\<lambda>b. b \<noteq> (0 :: u8)) m) \<le> i"
proof (induction m arbitrary: i)
  case (Cons b m)
  then show ?case by (cases i) auto
qed simp

lemma c_string_terminated:
  assumes "i < length m" "m ! i = 0"
  shows "\<exists>s. c_string m = Some s \<and> length s \<le> i"
  using takeWhile_nz_length [OF assms] assms(1) by (auto simp: c_string_def Let_def)

lemma c_string_text:
  assumes "CHR 0x00 \<notin> set s"
  shows "c_string (bytes s @ 0 # rest) = Some s"
proof -
  have "\<forall>b \<in> set (bytes s). b \<noteq> 0"
    using assms by (auto simp: bytes_def char_byte_zero)
  then have "takeWhile (\<lambda>b. b \<noteq> 0) (bytes s @ 0 # rest) = bytes s"
    by (induction "bytes s" arbitrary: s) (simp_all add: takeWhile_append2)
  then show ?thesis by (simp add: c_string_def)
qed

section \<open>Searching\<close>

fun strstr :: "string \<Rightarrow> string \<Rightarrow> string option" where
  "strstr [] pat = (if pat = [] then Some [] else None)"
| "strstr (c # cs) pat = (if take (length pat) (c # cs) = pat then Some (c # cs) else strstr cs pat)"

fun strchr :: "string \<Rightarrow> char \<Rightarrow> string option" where
  "strchr [] ch = None"
| "strchr (c # cs) ch = (if c = ch then Some (c # cs) else strchr cs ch)"

definition isspace :: "char \<Rightarrow> bool" where
  "isspace c \<longleftrightarrow> (let n = of_char c :: nat in n = 32 \<or> 9 \<le> n \<and> n \<le> 13)"

text \<open>The characters before the first one of the set, as \<^verbatim>\<open>strcspn\<close> counts them.\<close>

definition upto_any :: "char set \<Rightarrow> string \<Rightarrow> string" where
  "upto_any A s = takeWhile (\<lambda>c. c \<notin> A) s"

lemma strstr_suffix:
  "strstr s pat = Some t \<Longrightarrow> \<exists>u. s = u @ t \<and> take (length pat) t = pat"
  by (induction s) (auto split: if_splits intro: exI [of _ "[]"] exI [of _ "_ # _"])

lemma strstr_length: "strstr s pat = Some t \<Longrightarrow> length pat \<le> length t \<and> length t \<le> length s"
  using strstr_suffix [of s pat t] by (metis le_add2 length_append length_take min.cobounded1)

lemma strchr_suffix: "strchr s ch = Some t \<Longrightarrow> \<exists>u. s = u @ t \<and> t \<noteq> [] \<and> hd t = ch"
  by (induction s) (auto split: if_splits intro: exI [of _ "[]"] exI [of _ "_ # _"])

lemma strchr_append: "ch \<notin> set u \<Longrightarrow> strchr (u @ ch # v) ch = Some (ch # v)"
  by (induction u) auto

section \<open>Reading numbers\<close>

definition skip_space :: "string \<Rightarrow> string" where
  "skip_space s = dropWhile isspace s"

definition hex_val :: "char \<Rightarrow> nat option" where
  "hex_val c = (let n = of_char c :: nat in
     if 48 \<le> n \<and> n \<le> 57 then Some (n - 48)
     else if 97 \<le> n \<and> n \<le> 102 then Some (n - 87)
     else if 65 \<le> n \<and> n \<le> 70 then Some (n - 55) else None)"

definition is_digit_of :: "nat \<Rightarrow> char \<Rightarrow> bool" where
  "is_digit_of base c \<longleftrightarrow> (case hex_val c of None \<Rightarrow> False | Some d \<Rightarrow> d < base)"

definition digits_value :: "nat \<Rightarrow> string \<Rightarrow> nat" where
  "digits_value base ds = foldl (\<lambda>n c. base * n + (case hex_val c of None \<Rightarrow> 0 | Some d \<Rightarrow> d)) 0 ds"

definition clamp64 :: "int \<Rightarrow> int" where
  "clamp64 n = (if n > 2 ^ 63 - 1 then 2 ^ 63 - 1 else if n < - (2 ^ 63) then - (2 ^ 63) else n)"

definition split_sign :: "string \<Rightarrow> int \<times> string" where
  "split_sign s = (case s of c # cs \<Rightarrow>
       if c = CHR ''-'' then (-1, cs) else if c = CHR ''+'' then (1, cs) else (1, s)
     | [] \<Rightarrow> (1, []))"

text \<open>Base and digits after the prefix; \<^verbatim>\<open>0x\<close> counts only before a hexadecimal digit.\<close>

definition split_base :: "nat \<Rightarrow> string \<Rightarrow> nat \<times> string" where
  "split_base base s =
     (let hex = length s > 2 \<and> s ! 0 = CHR ''0'' \<and> (s ! 1 = CHR ''x'' \<or> s ! 1 = CHR ''X'') \<and> is_digit_of 16 (s ! 2) in
      if base = 0 then
        (if hex then (16, drop 2 s)
         else if s \<noteq> [] \<and> s ! 0 = CHR ''0'' then (8, s) else (10, s))
      else if base = 16 \<and> hex then (16, drop 2 s) else (base, s))"

definition strtol :: "nat \<Rightarrow> string \<Rightarrow> int" where
  "strtol base s =
     (let sg = split_sign (skip_space s); bs = split_base base (snd sg) in
      clamp64 (fst sg * int (digits_value (fst bs) (takeWhile (is_digit_of (fst bs)) (snd bs)))))"

definition atoi :: "string \<Rightarrow> int" where
  "atoi s = s32 (strtol 10 s)"

text \<open>A \<^verbatim>\<open>%d\<close> conversion: the number and the rest, or a matching failure.\<close>

definition scan_d :: "string \<Rightarrow> (int \<times> string) option" where
  "scan_d s =
     (let sg = split_sign (skip_space s); ds = takeWhile is_digit (snd sg) in
      if ds = [] then None
      else Some (s32 (clamp64 (fst sg * int (read_nat ds))), dropWhile is_digit (snd sg)))"

text \<open>A literal character of a format, and a \<^verbatim>\<open>%*s\<close> conversion.\<close>

definition scan_char :: "char \<Rightarrow> string \<Rightarrow> string option" where
  "scan_char ch s = (case s of c # cs \<Rightarrow> if c = ch then Some cs else None | [] \<Rightarrow> None)"

definition scan_text :: "string \<Rightarrow> string \<Rightarrow> string option" where
  "scan_text lit s = (if take (length lit) s = lit then Some (drop (length lit) s) else None)"

definition scan_word :: "string \<Rightarrow> string option" where
  "scan_word s = (let t = skip_space s; w = takeWhile (\<lambda>c. \<not> isspace c) t in
     if w = [] then None else Some (dropWhile (\<lambda>c. \<not> isspace c) t))"

lemma is_digit_not_space: "is_digit c \<Longrightarrow> \<not> isspace c"
  by (auto simp: is_digit_def isspace_def Let_def)

lemma is_digit_not_sign: "is_digit c \<Longrightarrow> c \<noteq> CHR ''-'' \<and> c \<noteq> CHR ''+''"
  by (auto simp: is_digit_def)

lemma takeWhile_stop: "\<forall>c \<in> set u. P c \<Longrightarrow> v = [] \<or> \<not> P (hd v) \<Longrightarrow> takeWhile P (u @ v) = u \<and> dropWhile P (u @ v) = v"
  by (induction u) (cases v; auto)+

text \<open>Digits are read back by every way of reading numbers.\<close>

lemma dec_nat_first: "\<exists>d ds. dec_nat n = d # ds \<and> is_digit d"
  using dec_nat_digits [of "hd (dec_nat n)" n] by (cases "dec_nat n") auto

lemma split_sign_dec_nat: "split_sign (skip_space (dec_nat n @ rest)) = (1, dec_nat n @ rest)"
proof -
  obtain d ds where "dec_nat n = d # ds" "is_digit d" using dec_nat_first by blast
  then show ?thesis
    using is_digit_not_space is_digit_not_sign by (simp add: split_sign_def skip_space_def)
qed

lemma scan_d_dec_nat:
  assumes "n < 2 ^ 31" "rest = [] \<or> \<not> is_digit (hd rest)"
  shows "scan_d (dec_nat n @ rest) = Some (int n, rest)"
proof -
  have "takeWhile is_digit (dec_nat n @ rest) = dec_nat n \<and> dropWhile is_digit (dec_nat n @ rest) = rest"
    using dec_nat_digits assms(2) by (intro takeWhile_stop) auto
  moreover have "s32 (clamp64 (int n)) = int n"
    using assms(1) by (simp add: clamp64_def s32_id)
  ultimately show ?thesis by (simp add: scan_d_def split_sign_dec_nat)
qed

lemma digit_hex_val: "is_digit c \<Longrightarrow> hex_val c = Some (digit_val c)"
  by (simp add: is_digit_def hex_val_def digit_val_def)

lemma is_digit_of_10: "is_digit_of 10 c \<longleftrightarrow> is_digit c"
  by (auto simp: is_digit_of_def hex_val_def is_digit_def Let_def)

lemma digits_value_10: "\<forall>c \<in> set ds. is_digit c \<Longrightarrow> digits_value 10 ds = read_nat ds"
proof (induction ds rule: rev_induct)
  case (snoc d ds)
  then show ?case by (simp add: digits_value_def read_nat_def digit_hex_val)
qed (simp add: digits_value_def read_nat_def)

lemma strtol_10_dec_nat:
  assumes "n < 2 ^ 63" "rest = [] \<or> \<not> is_digit (hd rest)"
  shows "strtol 10 (dec_nat n @ rest) = int n"
proof -
  have "takeWhile is_digit (dec_nat n @ rest) = dec_nat n"
    using takeWhile_stop [of "dec_nat n" is_digit rest] dec_nat_digits assms(2) by auto
  moreover have "is_digit_of 10 = is_digit" by (rule ext) (rule is_digit_of_10)
  moreover have "digits_value 10 (dec_nat n) = n" by (simp add: digits_value_10 dec_nat_digits)
  ultimately show ?thesis
    using assms(1) by (simp add: strtol_def split_sign_dec_nat split_base_def clamp64_def)
qed

lemma dec_nat_leading: "n > 0 \<Longrightarrow> hd (dec_nat n) \<noteq> CHR ''0''"
proof (induction n rule: less_induct)
  case (less n)
  show ?case
  proof (cases "n < 10")
    case True
    have "of_char (digit_char n) \<noteq> (48 :: nat)"
      using True less.prems by (simp add: digit_char_def)
    then show ?thesis using True by (auto simp: dec_nat_def digits.simps [of 10 n])
  next
    case False
    then have "hd (dec_nat n) = hd (dec_nat (n div 10))"
      using dec_nat_nonempty [of "n div 10"] by (simp add: dec_nat_def digits.simps [of 10 n] hd_append)
    then show ?thesis using less.IH [of "n div 10"] False by simp
  qed
qed

text \<open>Base 0 reads a decimal number without leading zero as decimal.\<close>

lemma strtol_0_dec_nat:
  assumes "0 < n" "n < 2 ^ 63" "rest = [] \<or> \<not> is_digit (hd rest)"
  shows "strtol 0 (dec_nat n @ rest) = int n"
proof -
  obtain d ds where d: "dec_nat n = d # ds" using dec_nat_first by blast
  then have "d \<noteq> CHR ''0''" using dec_nat_leading [OF assms(1)] by simp
  then have "split_base 0 (dec_nat n @ rest) = split_base 10 (dec_nat n @ rest)"
    by (simp add: split_base_def d)
  then show ?thesis
    using strtol_10_dec_nat [OF assms(2,3)] by (simp add: strtol_def split_sign_dec_nat)
qed

end
