(* ===== verification/Rtp.thy ===== *)
theory Rtp
  imports Config C_Scan
begin

text \<open>
  \<^verbatim>\<open>src/rtp.h\<close> and \<^verbatim>\<open>src/rtp.cpp\<close>: the pair of UDP ports, the thread that copies the payload of RTP
  datagrams to the vtuner device and to the transport stream tap, the same for data interleaved
  in the RTSP connection, and the signal report in RTCP APP packets. System calls are arguments:
  what \<^verbatim>\<open>write\<close> and \<^verbatim>\<open>recv\<close> return, which ports can be bound. \<open>r_written\<close> collects the bytes the
  device accepted. Memory reads are checked, so \<open>None\<close> is undefined behaviour.
\<close>

section \<open>State\<close>

definition BUFFER_SIZE :: nat where "BUFFER_SIZE = 1328"
definition PORT_BASE :: int where "PORT_BASE = 45000"
definition PORT_RANGE :: int where "PORT_RANGE = 2000"

text \<open>\<open>m_tap\<close>: the pointer \<^verbatim>\<open>m_psi\<close> is set, to the tap that the configuration owns.\<close>

record rtp =
  m_vtuner_fd :: int
  m_rtp_port :: int
  m_rtp_socket :: int
  m_rtcp_port :: int
  m_rtcp_socket :: int
  m_thread :: bool
  m_tcp_data :: bool
  m_rtp_running :: bool
  m_hasLock :: bool
  m_signalStrength :: int
  m_signalQuality :: int
  m_openok :: bool
  m_tap :: bool
  r_written :: "u8 list"

definition unset :: "rtp \<Rightarrow> rtp" where
  "unset r = r\<lparr>m_signalStrength := 0, m_hasLock := False, m_signalQuality := 0\<rparr>"

section \<open>Opening the ports\<close>

text \<open>One turn of the loop: the random number, the two sockets, and whether the binds succeed.\<close>

record port_try =
  t_random :: nat
  t_rtp_sock :: int
  t_rtcp_sock :: int
  t_rtp_bind :: bool
  t_rtcp_bind :: bool

text \<open>
  The loop \<^verbatim>\<open>while (--attempts > 0)\<close>. The result is the try that succeeded, if any, and the
  descriptors closed on the way.
\<close>

fun openRTP_loop :: "(nat \<Rightarrow> port_try) \<Rightarrow> nat \<Rightarrow> int list \<Rightarrow> port_try option \<times> int list" where
  "openRTP_loop tries attempts closed =
     (if attempts - 1 > 0 then
        (let t = tries (attempts - 1) in
         if t_rtp_bind t \<and> t_rtcp_bind t then (Some t, closed)
         else openRTP_loop tries (attempts - 1) (closed @ [t_rtp_sock t, t_rtcp_sock t]))
      else (None, closed))"

declare openRTP_loop.simps [simp del]

definition openRTP :: "(nat \<Rightarrow> port_try) \<Rightarrow> rtp \<Rightarrow> rtp \<times> int \<times> int list" where
  "openRTP tries r =
     (case openRTP_loop tries (nat (PORT_RANGE div 2)) [] of
        (None, closed) \<Rightarrow> (r, -1, closed)
      | (Some t, closed) \<Rightarrow>
          (let rtp_port = PORT_BASE + int (t_random t) mod (PORT_RANGE - 1) in
           (r\<lparr>m_rtp_port := rtp_port, m_rtp_socket := t_rtp_sock t, m_rtcp_port := rtp_port + 1,
              m_rtcp_socket := t_rtcp_sock t\<rparr>, 0, closed)))"

definition satipRTP :: "int \<Rightarrow> bool \<Rightarrow> (nat \<Rightarrow> port_try) \<Rightarrow> rtp" where
  "satipRTP vtuner_fd tcp_data tries =
     (let r = \<lparr>m_vtuner_fd = vtuner_fd, m_rtp_port = -1, m_rtp_socket = -1, m_rtcp_port = -1,
            m_rtcp_socket = -1, m_thread = False, m_tcp_data = tcp_data, m_rtp_running = False,
            m_hasLock = False, m_signalStrength = 0, m_signalQuality = 0, m_openok = False,
            m_tap = False, r_written = []\<rparr> in
      if tcp_data then r\<lparr>m_openok := True\<rparr>
      else (case openRTP tries r of (r1, e, _) \<Rightarrow> r1\<lparr>m_openok := (e = 0)\<rparr>))"

definition rtp_setPSI :: "config \<Rightarrow> rtp \<Rightarrow> rtp" where
  "rtp_setPSI c r = r\<lparr>m_tap := (m_psi c \<noteq> None)\<rparr>"

definition rtp_run :: "rtp \<Rightarrow> rtp" where
  "rtp_run r = r\<lparr>m_rtp_running := True, m_thread := (if \<not> m_tcp_data r then True else m_thread r)\<rparr>"

text \<open>\<^verbatim>\<open>stop\<close> waits for the end of the thread.\<close>

definition rtp_stop :: "rtp \<Rightarrow> rtp" where
  "rtp_stop r = r\<lparr>m_rtp_running := False, m_thread := False\<rparr>"

text \<open>The destructor: the descriptors it closes.\<close>

definition rtp_delete :: "rtp \<Rightarrow> int list" where
  "rtp_delete r = (let r = rtp_stop r in
     (if m_rtcp_socket r \<noteq> 0 then [m_rtcp_socket r] else []) @
     (if m_rtp_socket r \<noteq> 0 then [m_rtp_socket r] else []))"

section \<open>RTCP\<close>

text \<open>The integers that \<^verbatim>\<open>sscanf\<close> converts for the format \<^verbatim>\<open>",%d,%d,%d"\<close>, up to the first failure.\<close>

fun scan_ints :: "nat \<Rightarrow> string \<Rightarrow> int list" where
  "scan_ints 0 s = []"
| "scan_ints (Suc n) s =
     (case scan_char CHR '','' s of None \<Rightarrow> []
      | Some t \<Rightarrow> (case scan_d t of None \<Rightarrow> [] | Some (v, u) \<Rightarrow> v # scan_ints n u))"

text \<open>Using a variable that was not converted is undefined, as is a null pointer as input.\<close>

definition parseRtcpAppPayload :: "string \<Rightarrow> rtp \<Rightarrow> rtp option" where
  "parseRtcpAppPayload buffer r0 =
     (let r = unset r0 in
      case strstr buffer '';tuner='' of
        None \<Rightarrow> Some r
      | Some strp \<Rightarrow> do {
          strp \<leftarrow> strstr strp '','';
          let vals = scan_ints 3 strp;
          level \<leftarrow> rd vals 0;
          lock \<leftarrow> rd vals 1;
          let strength = (if level \<ge> 0 then s32 (level * 65535) sdiv 255 else 0);
          quality \<leftarrow> (if lock \<noteq> 0
             then do { q \<leftarrow> rd vals 2; Some (if q \<ge> 0 then s32 (q * 65535) sdiv 15 else 0) }
             else Some 0);
          Some (r\<lparr>m_signalStrength := strength, m_hasLock := (lock \<noteq> 0), m_signalQuality := quality\<rparr>)
        })"

text \<open>
  The body of \<^verbatim>\<open>case 204\<close>; \<open>m\<close> is the memory from the current packet on. The allocation of the
  copy succeeds.
\<close>

definition rtcp_app :: "u8 list \<Rightarrow> rtp \<Rightarrow> rtp option" where
  "rtcp_app m r = do {
     _ \<leftarrow> rd_range m 8 4;
     w \<leftarrow> rd_range m 12 4;
     let n = nat (be16 (w ! 2) (w ! 3));
     if n > 0 then do {
       payload \<leftarrow> rd_range m 16 n;
       text \<leftarrow> c_string (payload @ [0]);
       parseRtcpAppPayload text r
     } else Some r
   }"

function rtcp_loop :: "u8 list \<Rightarrow> nat \<Rightarrow> nat \<Rightarrow> rtp \<Rightarrow> rtp option" where
  "rtcp_loop m a_size done r =
     (if done < a_size then do {
        h \<leftarrow> rd_range m done 4;
        let pt = byte (h ! 1);
        let length = be16 (h ! 2) (h ! 3);
        r1 \<leftarrow> (if pt = 204 \<and> length > 1 then rtcp_app (drop done m) r else Some r);
        rtcp_loop m a_size (done + (nat length + 1) * 4) r1
      } else Some r)"
  by pat_completeness auto
termination
  by (relation "measure (\<lambda>(m, a_size, d, r). a_size - d)") auto

declare rtcp_loop.simps [simp del]

definition rtcpData :: "u8 list \<Rightarrow> nat \<Rightarrow> rtp \<Rightarrow> rtp option" where
  "rtcpData a_buffer a_size r = rtcp_loop a_buffer a_size 0 r"

section \<open>System calls on the data path\<close>

text \<open>
  The results of \<^verbatim>\<open>write\<close> in order; when the list ends the device accepts all that is left. A
  result above what is left cannot happen and counts as complete.
\<close>

datatype write_res = Wrote nat | Write_EINTR | Write_error

text \<open>\<open>write_loop\<close> gives the return value and the number of bytes accepted.\<close>

fun write_loop :: "write_res list \<Rightarrow> nat \<Rightarrow> nat \<Rightarrow> int \<times> nat" where
  "write_loop [] count sz = (int (max count sz), max count sz)"
| "write_loop (w # ws) count sz =
     (if count < sz then
        (case w of
           Wrote n \<Rightarrow> (let k = min n (sz - count) in
             if k = 0 then (-1, count) else write_loop ws (count + k) sz)
         | Write_EINTR \<Rightarrow> write_loop ws count sz
         | Write_error \<Rightarrow> (-1, count))
      else (int count, count))"

definition Write :: "write_res list \<Rightarrow> u8 list \<Rightarrow> rtp \<Rightarrow> rtp \<times> int" where
  "Write ws buffer r =
     (case write_loop ws 0 (length buffer) of
        (res, n) \<Rightarrow> (r\<lparr>r_written := r_written r @ take n buffer\<rparr>, res))"

datatype recv_res = Recv "u8 list" | Recv_EINTR | Recv_error

text \<open>Storing what was received: a longer datagram is cut to the size of the buffer.\<close>

definition store :: "u8 list \<Rightarrow> u8 list \<Rightarrow> u8 list" where
  "store d buf = (let d' = take (length buf) d in d' @ drop (length d') buf)"

fun Read :: "recv_res list \<Rightarrow> u8 list \<Rightarrow> u8 list \<times> int" where
  "Read [] buf = (buf, -1)"
| "Read (Recv_EINTR # rs) buf = Read rs buf"
| "Read (Recv_error # rs) buf = (buf, -1)"
| "Read (Recv d # rs) buf = (store d buf, int (min (length d) (length buf)))"

section \<open>The receiving thread\<close>

text \<open>What one turn of the loop meets: poll's answer and the results of the calls.\<close>

record dump_env =
  d_rtp_in :: bool
  d_read :: "recv_res list"
  d_write :: "write_res list"
  d_now0 :: int
  d_now1 :: int
  d_rtcp_in :: bool
  d_recv :: recv_res

definition to_tap :: "int \<Rightarrow> int \<Rightarrow> u8 list \<Rightarrow> rtp \<times> config \<Rightarrow> (rtp \<times> config) option" where
  "to_tap now0 now1 data s =
     (if m_tap (fst s) then do { c \<leftarrow> tap_data now0 now1 data (length data) (snd s); Some (fst s, c) }
      else Some s)"

text \<open>One turn; \<open>buf\<close> is the local array \<^verbatim>\<open>rx_data\<close>.\<close>

definition rtpDump_step :: "dump_env \<Rightarrow> u8 list \<times> rtp \<times> config \<Rightarrow> (u8 list \<times> rtp \<times> config) option" where
  "rtpDump_step e st = (case st of (buf, r, c) \<Rightarrow> do {
     st1 \<leftarrow> (if d_rtp_in e then
         (let (buf1, rx_bytes) = Read (d_read e) buf in
          if rx_bytes > 12 then do {
            b \<leftarrow> rd buf1 12;
            if b = 0x47 then do {
              data \<leftarrow> rd_range buf1 12 (nat rx_bytes - 12);
              let w = Write (d_write e) data r;
              s \<leftarrow> to_tap (d_now0 e) (d_now1 e) data (fst w, c);
              Some (buf1, s)
            } else Some (buf1, r, c)
          } else Some (buf1, r, c))
       else Some (buf, r, c));
     (if d_rtcp_in e then
        (case d_recv e of
           Recv d \<Rightarrow> (let buf2 = store d (fst st1); n = min (length d) (length (fst st1)) in
             if n > 0 then do {
               r2 \<leftarrow> rtcpData buf2 n (fst (snd st1));
               Some (buf2, r2, snd (snd st1))
             } else Some (buf2, snd st1))
         | _ \<Rightarrow> Some st1)
      else Some st1)
   })"

fun rtpDump :: "dump_env list \<Rightarrow> u8 list \<times> rtp \<times> config \<Rightarrow> (u8 list \<times> rtp \<times> config) option" where
  "rtpDump [] st = Some st"
| "rtpDump (e # es) st =
     (if m_rtp_running (fst (snd st)) then do { st1 \<leftarrow> rtpDump_step e st; rtpDump es st1 } else Some st)"

section \<open>Data interleaved in the RTSP connection\<close>

text \<open>What a frame meets: the results of writing, and the two readings of the clock by the tap.\<close>

record frame_env =
  f_write :: "write_res list"
  f_now0 :: int
  f_now1 :: int

text \<open>\<open>data\<close> is the memory from the frame on, \<open>sz\<close> the length of the frame.\<close>

definition rtpTcpData :: "frame_env \<Rightarrow> u8 list \<Rightarrow> nat \<Rightarrow> rtp \<times> config \<Rightarrow> ((rtp \<times> config) \<times> int) option" where
  "rtpTcpData e data sz s =
     (if sz \<le> 4 + 12 then Some (s, 0)
      else do {
        ch \<leftarrow> rd data 1;
        if ch = 0 then do {
          p \<leftarrow> rd_range data (4 + 12) (sz - 4 - 12);
          let w = Write (f_write e) p (fst s);
          s1 \<leftarrow> to_tap (f_now0 e) (f_now1 e) p (fst w, snd s);
          Some (s1, 0)
        } else if ch = 1 then do {
          r1 \<leftarrow> rtcpData (drop 4 data) (sz - 4) (fst s);
          Some ((r1, snd s), 0)
        } else Some (s, 0)
      })"

section \<open>The ports\<close>

definition bound :: "port_try \<Rightarrow> bool" where
  "bound t \<longleftrightarrow> t_rtp_bind t \<and> t_rtcp_bind t"

definition socks :: "(nat \<Rightarrow> port_try) \<Rightarrow> nat list \<Rightarrow> int list" where
  "socks tries ks = concat (map (\<lambda>k. [t_rtp_sock (tries k), t_rtcp_sock (tries k)]) ks)"

lemma openRTP_loop_spec:
  "\<exists>res k. openRTP_loop tries (Suc n) closed = (res, closed @ socks tries (rev [Suc k..<Suc n])) \<and> k \<le> n \<and>
     (\<forall>j. k < j \<and> j \<le> n \<longrightarrow> \<not> bound (tries j)) \<and>
     (if k = 0 then res = None else res = Some (tries k) \<and> bound (tries k))"
proof (induction n arbitrary: closed)
  case 0
  then show ?case by (simp add: openRTP_loop.simps [of tries "Suc 0"] socks_def)
next
  case (Suc n)
  show ?case
  proof (cases "bound (tries (Suc n))")
    case True
    then show ?thesis
      by (intro exI [of _ "Some (tries (Suc n))"] exI [of _ "Suc n"])
        (auto simp: openRTP_loop.simps [of tries "Suc (Suc n)"] bound_def socks_def)
  next
    case False
    let ?c = "closed @ [t_rtp_sock (tries (Suc n)), t_rtcp_sock (tries (Suc n))]"
    obtain res k where k: "openRTP_loop tries (Suc n) ?c = (res, ?c @ socks tries (rev [Suc k..<Suc n]))"
      "k \<le> n" "\<forall>j. k < j \<and> j \<le> n \<longrightarrow> \<not> bound (tries j)"
      "if k = 0 then res = None else res = Some (tries k) \<and> bound (tries k)"
      using Suc.IH [of ?c] by blast
    have "openRTP_loop tries (Suc (Suc n)) closed = openRTP_loop tries (Suc n) ?c"
      using False by (subst openRTP_loop.simps) (auto simp: bound_def Let_def)
    moreover have "[Suc k..<Suc (Suc n)] = [Suc k..<Suc n] @ [Suc n]" using k(2) by simp
    ultimately have "openRTP_loop tries (Suc (Suc n)) closed =
        (res, closed @ socks tries (rev [Suc k..<Suc (Suc n)]))"
      by (simp add: k(1) socks_def)
    moreover have "\<forall>j. k < j \<and> j \<le> Suc n \<longrightarrow> \<not> bound (tries j)"
      using k(3) False by (metis le_SucE)
    ultimately show ?thesis using k(2,4) by (intro exI [of _ res] exI [of _ k]) simp
  qed
qed

text \<open>
  Opening the ports: at most 999 random pairs are tried, numbered 999 down to 1 here, and the
  first pair of which both ports can be bound is taken: two consecutive ports from 45000 on
  below 47000. Every socket of a pair that failed is closed and no other one, so nothing
  leaks; when no pair can be bound the object is left as it was and the call fails.
\<close>

theorem openRTP_ports:
  "\<exists>r' e closed. openRTP tries r = (r', e, closed) \<and>
     ((\<exists>k \<in> {1..999}. bound (tries k)) \<longrightarrow>
        (\<exists>k \<in> {1..999}. bound (tries k) \<and> (\<forall>j \<in> {k<..999}. \<not> bound (tries j)) \<and> e = 0 \<and>
           closed = socks tries (rev [Suc k..<1000]) \<and>
           m_rtp_socket r' = t_rtp_sock (tries k) \<and> m_rtcp_socket r' = t_rtcp_sock (tries k) \<and>
           45000 \<le> m_rtp_port r' \<and> m_rtcp_port r' = m_rtp_port r' + 1 \<and> m_rtcp_port r' < 47000)) \<and>
     ((\<forall>k \<in> {1..999}. \<not> bound (tries k)) \<longrightarrow>
        e = -1 \<and> r' = r \<and> closed = socks tries (rev [1..<1000]))"
proof -
  obtain res k where k: "openRTP_loop tries 1000 [] = (res, socks tries (rev [Suc k..<1000]))"
    "k \<le> 999" "\<forall>j. k < j \<and> j \<le> 999 \<longrightarrow> \<not> bound (tries j)"
    "if k = 0 then res = None else res = Some (tries k) \<and> bound (tries k)"
    using openRTP_loop_spec [of tries 999 "[]"] by auto
  have n: "nat (PORT_RANGE div 2) = 1000" by (simp add: PORT_RANGE_def)
  show ?thesis
  proof (cases "k = 0")
    case True
    then have "openRTP tries r = (r, -1, socks tries (rev [1..<1000]))"
      using k(1,4) by (simp add: openRTP_def n)
    then show ?thesis using k(3) True by auto
  next
    case False
    let ?p = "PORT_BASE + int (t_random (tries k)) mod (PORT_RANGE - 1)"
    have "openRTP tries r = (r\<lparr>m_rtp_port := ?p, m_rtp_socket := t_rtp_sock (tries k),
        m_rtcp_port := ?p + 1, m_rtcp_socket := t_rtcp_sock (tries k)\<rparr>, 0, socks tries (rev [Suc k..<1000]))"
      using k(1,4) False by (simp add: openRTP_def n Let_def)
    moreover have "45000 \<le> ?p" "?p + 1 < 47000"
      using pos_mod_bound [of 1999 "int (t_random (tries k))"] by (simp_all add: PORT_BASE_def PORT_RANGE_def)
    moreover have "k \<in> {1..999}" "bound (tries k)" "\<forall>j \<in> {k<..999}. \<not> bound (tries j)"
      using k(2,3,4) False by auto
    ultimately show ?thesis
      by (intro exI conjI) (rule refl | assumption | force)+
  qed
qed

theorem openRTP_ports_witness:
  "\<exists>r' e closed. openRTP (\<lambda>k. \<lparr>t_random = 0, t_rtp_sock = 7, t_rtcp_sock = 8, t_rtp_bind = (k = 998),
       t_rtcp_bind = True\<rparr>) (satipRTP 3 True undefined) = (r', e, closed) \<and> e = 0 \<and> m_rtp_socket r' = 7"
proof -
  let ?t = "\<lambda>k :: nat. \<lparr>t_random = 0, t_rtp_sock = 7, t_rtcp_sock = 8, t_rtp_bind = (k = 998), t_rtcp_bind = True\<rparr>"
  have "\<exists>k \<in> {1..999}. bound (?t k)" by (intro bexI [of _ 998]) (simp_all add: bound_def)
  then show ?thesis
    using openRTP_ports [of ?t "satipRTP 3 True undefined"] by auto
qed

section \<open>Writing\<close>

definition progress :: "write_res \<Rightarrow> bool" where
  "progress w \<longleftrightarrow> (case w of Wrote n \<Rightarrow> n > 0 | Write_EINTR \<Rightarrow> True | Write_error \<Rightarrow> False)"

lemma write_loop_spec:
  "count \<le> sz \<Longrightarrow> \<exists>res n. write_loop ws count sz = (res, n) \<and> count \<le> n \<and> n \<le> sz \<and>
     (res = int sz \<and> n = sz \<or> res = -1 \<and> n < sz) \<and> (list_all progress ws \<longrightarrow> n = sz)"
proof (induction ws arbitrary: count)
  case (Cons w ws)
  show ?case
  proof (cases "count < sz \<and> (w = Write_EINTR \<or> (\<exists>n > 0. w = Wrote n))")
    case True
    let ?k = "case w of Wrote n \<Rightarrow> min n (sz - count) | _ \<Rightarrow> 0"
    have "write_loop (w # ws) count sz = write_loop ws (count + ?k) sz" "count + ?k \<le> sz" "progress w"
      using True by (auto simp: Let_def progress_def)
    then show ?thesis using Cons.IH [of "count + ?k"] by fastforce
  next
    case False
    then show ?thesis using Cons.prems by (cases w) (auto simp: progress_def)
  qed
qed auto

lemma Write_run:
  "\<exists>n. Write ws buffer r = (r\<lparr>r_written := r_written r @ take n buffer\<rparr>,
      if n = length buffer then int n else -1) \<and> n \<le> length buffer \<and> (list_all progress ws \<longrightarrow> n = length buffer)"
proof -
  obtain res n where "write_loop ws 0 (length buffer) = (res, n)" "n \<le> length buffer"
    "res = int (length buffer) \<and> n = length buffer \<or> res = -1 \<and> n < length buffer"
    "list_all progress ws \<longrightarrow> n = length buffer"
    using write_loop_spec [of 0 "length buffer" ws] by blast
  then show ?thesis by (intro exI [of _ n]) (simp add: Write_def, linarith)
qed

text \<open>
  Writing to the device: it receives a prefix of the data, in order, all of it whenever the
  call returns the full length, and the call returns the full length however the writes
  were split or interrupted, as long as none failed or wrote nothing.
\<close>

theorem Write_delivers:
  "\<exists>n \<le> length buffer. r_written (fst (Write ws buffer r)) = r_written r @ take n buffer \<and>
     snd (Write ws buffer r) = (if n = length buffer then int n else -1) \<and>
     (list_all progress ws \<longrightarrow> n = length buffer)"
  using Write_run [of ws buffer r] by auto

theorem Write_delivers_witness:
  "snd (Write [Wrote 1, Write_EINTR, Wrote 1] [1, 2, 3] (satipRTP 3 True undefined)) = 3"
  using Write_delivers [of "[1, 2, 3]" "[Wrote 1, Write_EINTR, Wrote 1]" "satipRTP 3 True undefined"]
  by (auto simp: progress_def)

section \<open>Signal reports\<close>

text \<open>RTCP packets as a server builds them: header with the number of 32-bit words, then the body.\<close>

definition mk_rtcp :: "u8 \<Rightarrow> u8 list \<Rightarrow> u8 list" where
  "mk_rtcp pt body = [0x80, pt, hi8 (int (length body div 4)), lo8 (int (length body div 4))] @ body"

definition rtcp_body_ok :: "u8 list \<Rightarrow> bool" where
  "rtcp_body_ok body \<longleftrightarrow> length body mod 4 = 0 \<and> length body div 4 < 65536"

definition compound :: "(u8 \<times> u8 list) list \<Rightarrow> u8 list" where
  "compound ps = concat (map (\<lambda>p. mk_rtcp (fst p) (snd p)) ps)"

definition app_body :: "u8 list \<Rightarrow> string \<Rightarrow> u8 list \<Rightarrow> u8 list" where
  "app_body ssrc text pad =
     ssrc @ bytes ''SES1'' @ [0, 0, hi8 (int (length text)), lo8 (int (length text))] @ bytes text @ pad"

definition signal_text :: "nat \<Rightarrow> nat \<Rightarrow> nat \<Rightarrow> nat \<Rightarrow> nat \<Rightarrow> string \<Rightarrow> string" where
  "signal_text src fe level lock quality rest =
     ''ver=1.0;src='' @ dec_nat src @ '';tuner='' @ dec_nat fe @ '','' @ dec_nat level @ '','' @
     dec_nat lock @ '','' @ dec_nat quality @ '','' @ rest"

lemma strstr_skip: "c \<notin> set u \<Longrightarrow> strstr (u @ s) (c # pat) = strstr s (c # pat)"
  by (induction u) auto

lemma not_in_dec_nat: "\<not> is_digit c \<Longrightarrow> c \<notin> set (dec_nat n)"
  using dec_nat_digits by blast

lemma scan_ints_dec:
  assumes "n < 2 ^ 31" "s = [] \<or> \<not> is_digit (hd s)"
  shows "scan_ints (Suc k) (CHR '','' # dec_nat n @ s) = int n # scan_ints k s"
  using scan_d_dec_nat [OF assms] by (simp add: scan_char_def)

lemma signal_text_tuner:
  "strstr (signal_text src fe level lock quality rest) '';tuner='' =
     Some ('';tuner='' @ dec_nat fe @ '','' @ dec_nat level @ '','' @ dec_nat lock @ '','' @ dec_nat quality @ '','' @ rest)"
proof -
  have "CHR '';'' \<notin> set (dec_nat src)" by (rule not_in_dec_nat) (simp add: is_digit_def)
  then show ?thesis by (simp add: signal_text_def strstr_skip)
qed

lemma signal_text_values:
  assumes "level < 2 ^ 31" "lock < 2 ^ 31" "quality < 2 ^ 31"
  shows "strstr ('';tuner='' @ dec_nat fe @ '','' @ dec_nat level @ '','' @ dec_nat lock @ '','' @ dec_nat quality @ '','' @ rest) '','' =
      Some ('','' @ dec_nat level @ '','' @ dec_nat lock @ '','' @ dec_nat quality @ '','' @ rest)"
    and "scan_ints 3 ('','' @ dec_nat level @ '','' @ dec_nat lock @ '','' @ dec_nat quality @ '','' @ rest) =
      [int level, int lock, int quality]"
proof -
  have "CHR '','' \<notin> set (dec_nat fe)" by (rule not_in_dec_nat) simp
  then show "strstr ('';tuner='' @ dec_nat fe @ '','' @ dec_nat level @ '','' @ dec_nat lock @ '','' @ dec_nat quality @ '','' @ rest) '','' =
      Some ('','' @ dec_nat level @ '','' @ dec_nat lock @ '','' @ dec_nat quality @ '','' @ rest)"
    by (simp add: strstr_skip)
  show "scan_ints 3 ('','' @ dec_nat level @ '','' @ dec_nat lock @ '','' @ dec_nat quality @ '','' @ rest) =
      [int level, int lock, int quality]"
    using assms by (simp add: scan_ints_dec numeral_3_eq_3 del: scan_ints.simps(2))
qed

definition signalled :: "nat \<Rightarrow> nat \<Rightarrow> nat \<Rightarrow> rtp \<Rightarrow> rtp" where
  "signalled level lock quality r = r\<lparr>m_signalStrength := int level * 257, m_hasLock := (lock = 1),
     m_signalQuality := (if lock = 1 then int quality * 4369 else 0)\<rparr>"

lemma parse_signal_text:
  assumes "level \<le> 255" "lock \<le> 1" "quality \<le> 15"
  shows "parseRtcpAppPayload (signal_text src fe level lock quality rest) r = Some (signalled level lock quality r)"
proof -
  have "s32 (int level * 65535) sdiv 255 = int level * 257" "s32 (int quality * 65535) sdiv 15 = int quality * 4369"
    using assms by (simp_all add: s32_id sdiv_nonneg)
  then show ?thesis
    using assms signal_text_values(1) [of level lock quality fe rest] signal_text_values(2) [of level lock quality rest]
    unfolding parseRtcpAppPayload_def Let_def signal_text_tuner
    by (auto simp: rd_def signalled_def unset_def)
qed

lemma mk_rtcp_head:
  assumes "rtcp_body_ok body"
  shows "rd_range (pre @ mk_rtcp pt body @ post) (length pre) 4 =
      Some [0x80, pt, hi8 (int (length body div 4)), lo8 (int (length body div 4))]"
    "be16 (hi8 (int (length body div 4))) (lo8 (int (length body div 4))) = int (length body div 4)"
    "length (mk_rtcp pt body) = (length body div 4 + 1) * 4"
  using assms by (simp_all add: rd_range_def mk_rtcp_def be16_bytes rtcp_body_ok_def, presburger)

lemma rtcp_loop_step:
  assumes "rtcp_body_ok body" "length pre + length (mk_rtcp pt body) \<le> a_size"
  shows "rtcp_loop (pre @ mk_rtcp pt body @ post) a_size (length pre) r =
    Option.bind (if pt = 204 \<and> length body div 4 > 1 then rtcp_app (mk_rtcp pt body @ post) r else Some r)
      (rtcp_loop (pre @ mk_rtcp pt body @ post) a_size (length pre + length (mk_rtcp pt body)))"
proof -
  have "byte pt = 204 \<longleftrightarrow> pt = 204" by (simp add: word_uint_eq_iff)
  moreover have "length pre < a_size" using assms(2) by (simp add: mk_rtcp_def)
  ultimately show ?thesis
    using mk_rtcp_head(1) [OF assms(1), of pre pt post] mk_rtcp_head(2,3) [OF assms(1)] assms(2)
    by (subst rtcp_loop.simps) (simp add: Let_def add.commute)
qed

lemma rtcp_loop_skip:
  assumes "\<forall>p \<in> set ps. fst p \<noteq> 204 \<and> rtcp_body_ok (snd p)" "length pre + length (compound ps) \<le> a_size"
  shows "rtcp_loop (pre @ compound ps @ post) a_size (length pre) r =
    rtcp_loop (pre @ compound ps @ post) a_size (length pre + length (compound ps)) r"
  using assms
proof (induction ps arbitrary: pre)
  case (Cons p ps)
  let ?m = "mk_rtcp (fst p) (snd p)"
  have c: "compound (p # ps) = ?m @ compound ps" by (simp add: compound_def)
  have "rtcp_loop (pre @ ?m @ (compound ps @ post)) a_size (length pre) r =
      rtcp_loop ((pre @ ?m) @ compound ps @ post) a_size (length (pre @ ?m)) r"
    using rtcp_loop_step [of "snd p" pre "fst p" a_size "compound ps @ post" r] Cons.prems by (simp add: c)
  also have "\<dots> = rtcp_loop ((pre @ ?m) @ compound ps @ post) a_size (length (pre @ ?m) + length (compound ps)) r"
    using Cons.prems by (intro Cons.IH) (simp_all add: c)
  finally show ?case by (simp add: c add.assoc)
qed (simp add: compound_def)

lemma rtcp_app_text:
  assumes "length ssrc = 4" "0 < length text" "length text < 65536" "CHR 0x00 \<notin> set text"
  shows "rtcp_app (mk_rtcp pt (app_body ssrc text pad) @ post) r = parseRtcpAppPayload text r"
proof -
  let ?m = "mk_rtcp pt (app_body ssrc text pad) @ post"
  obtain a b c d where s: "ssrc = [a, b, c, d]"
    using assms(1) by (auto simp: numeral_eq_Suc length_Suc_conv)
  have "rd_range ?m 8 4 = Some (bytes ''SES1'')"
    "rd_range ?m 12 4 = Some [0, 0, hi8 (int (length text)), lo8 (int (length text))]"
    "rd_range ?m 16 (length text) = Some (bytes text)"
    by (simp_all add: rd_range_def mk_rtcp_def app_body_def s bytes_def)
  moreover have "be16 (hi8 (int (length text))) (lo8 (int (length text))) = int (length text)"
    using assms(3) by (simp add: be16_bytes)
  moreover have "c_string (bytes text @ [0]) = Some text" using c_string_text [OF assms(4), of "[]"] .
  ultimately show ?thesis using assms(2) by (simp add: rtcp_app_def)
qed

text \<open>
  C28. A server's signal report: in a compound RTCP packet, the application packet with level
  (0 to 255), lock and quality (0 to 15) of the tuner sets the lock flag and scales level
  and quality to 0..65535 (the quality is 0 without lock), whatever other packets surround it;
  reading stays inside the received data.
\<close>

theorem rtcpData_signal:
  assumes "\<forall>p \<in> set before \<union> set after. fst p \<noteq> 204 \<and> rtcp_body_ok (snd p)"
    and "level \<le> 255" "lock \<le> 1" "quality \<le> 15"
    and "text = signal_text src fe level lock quality rest" "length text < 65536" "CHR 0x00 \<notin> set text"
    and "length ssrc = 4" "rtcp_body_ok (app_body ssrc text pad)"
    and "buf = compound before @ mk_rtcp 204 (app_body ssrc text pad) @ compound after"
  shows "rtcpData buf (length buf) r = Some (signalled level lock quality r) \<and>
    m_signalStrength (signalled level lock quality r) \<in> {0..65535} \<and>
    m_signalQuality (signalled level lock quality r) \<in> {0..65535}"
proof -
  let ?app = "mk_rtcp 204 (app_body ssrc text pad)"
  have nonempty: "0 < length text" by (simp add: assms(5) signal_text_def)
  have b: "\<forall>p \<in> set before. fst p \<noteq> 204 \<and> rtcp_body_ok (snd p)"
    and a: "\<forall>p \<in> set after. fst p \<noteq> 204 \<and> rtcp_body_ok (snd p)"
    using assms(1) by auto
  have big: "length (app_body ssrc text pad) div 4 > 1"
    using assms(8) by (simp add: app_body_def)
  have "rtcpData buf (length buf) r = rtcp_loop buf (length buf) (length (compound before)) r"
    using rtcp_loop_skip [OF b, of "[]" "length buf" "?app @ compound after" r] by (simp add: rtcpData_def assms(10))
  also have "\<dots> = rtcp_loop buf (length buf) (length (compound before) + length ?app) (signalled level lock quality r)"
    using rtcp_loop_step [OF assms(9), of "compound before" 204 "length buf" "compound after" r] big
      rtcp_app_text [OF assms(8) nonempty assms(6,7)] parse_signal_text [OF assms(2-4)] assms(5)
    by (simp add: assms(10))
  also have "\<dots> = rtcp_loop buf (length buf) (length buf) (signalled level lock quality r)"
    using rtcp_loop_skip [OF a, of "compound before @ ?app" "length buf" "[]"] by (simp add: assms(10) add.assoc)
  also have "\<dots> = Some (signalled level lock quality r)"
    by (simp add: rtcp_loop.simps)
  finally show ?thesis using assms(2,4) by (simp add: signalled_def)
qed

theorem rtcpData_signal_witness:
  "\<exists>r'. rtcpData (mk_rtcp 200 [1, 2, 3, 4] @ mk_rtcp 204 (app_body [0, 0, 0, 1] (signal_text 1 1 224 1 15 ''11538'') []))
     (length (mk_rtcp 200 [1, 2, 3, 4] @ mk_rtcp 204 (app_body [0, 0, 0, 1] (signal_text 1 1 224 1 15 ''11538'') [])))
     (satipRTP 3 True undefined) = Some r' \<and> m_hasLock r' \<and> m_signalStrength r' = 57568"
proof -
  let ?t = "signal_text 1 1 224 1 15 ''11538''"
  have t: "?t = ''ver=1.0;src=1;tuner=1,224,1,15,11538''"
    by (simp add: signal_text_def dec_nat_def digits.simps digit_char_def char_of_def bit_Suc_0_iff)
  have "rtcp_body_ok (app_body [0, 0, 0, 1] ?t [])"
    unfolding t by (simp add: rtcp_body_ok_def app_body_def)
  then show ?thesis
    using rtcpData_signal [of "[(200, [1, 2, 3, 4])]" "[]" 224 1 15 ?t 1 1 "''11538''" "[0, 0, 0, 1]" "[]" _
        "satipRTP 3 True undefined", OF _ _ _ _ refl _ _ _ _ refl]
    unfolding t by (simp add: compound_def rtcp_body_ok_def signalled_def)
qed

section \<open>Reports that are safe\<close>

text \<open>
  The text of a report as a server builds it: without a tuner entry, or with one of the usual form; and
  a packet that holds such a text, or is no application packet.
\<close>

definition report_text :: "string \<Rightarrow> bool" where
  "report_text text \<longleftrightarrow> length text < 65536 \<and> CHR 0x00 \<notin> set text \<and>
     (strstr text '';tuner='' = None \<or>
      (\<exists>src fe level lock quality rest. level \<le> 255 \<and> lock \<le> 1 \<and> quality \<le> 15 \<and>
         text = signal_text src fe level lock quality rest))"

definition rtcp_packet_ok :: "u8 \<times> u8 list \<Rightarrow> bool" where
  "rtcp_packet_ok p \<longleftrightarrow> rtcp_body_ok (snd p) \<and>
     (fst p = 204 \<longrightarrow> (\<exists>ssrc text pad. length ssrc = 4 \<and> report_text text \<and> snd p = app_body ssrc text pad))"

lemma rtcp_app_report:
  assumes "length ssrc = 4" "report_text text"
  obtains r' where "rtcp_app (mk_rtcp pt (app_body ssrc text pad) @ post) r = Some r'"
    "r_written r' = r_written r" "m_tap r' = m_tap r" "m_rtp_running r' = m_rtp_running r"
proof (cases "text = []")
  case True
  obtain a b c d where s: "ssrc = [a, b, c, d]"
    using assms(1) by (auto simp: numeral_eq_Suc length_Suc_conv)
  have "rtcp_app (mk_rtcp pt (app_body ssrc text pad) @ post) r = Some r"
    by (simp add: rtcp_app_def rd_range_def mk_rtcp_def app_body_def s bytes_def True be16_bytes [of 0, simplified])
  then show thesis by (rule that) simp_all
next
  case False
  have eq: "rtcp_app (mk_rtcp pt (app_body ssrc text pad) @ post) r = parseRtcpAppPayload text r"
    using rtcp_app_text [OF assms(1)] False assms(2) by (simp add: report_text_def)
  show thesis
  proof (cases "strstr text '';tuner='' = None")
    case True
    then have "parseRtcpAppPayload text r = Some (unset r)" by (simp add: parseRtcpAppPayload_def)
    then show thesis using eq by (intro that [of "unset r"]) (simp_all add: unset_def)
  next
    case False
    then obtain src fe level lock quality rest where "level \<le> 255" "lock \<le> 1" "quality \<le> 15"
      "text = signal_text src fe level lock quality rest"
      using assms(2) by (auto simp: report_text_def)
    then have "parseRtcpAppPayload text r = Some (signalled level lock quality r)" using parse_signal_text by simp
    then show thesis using eq by (intro that [of "signalled level lock quality r"]) (simp_all add: signalled_def)
  qed
qed

lemma rtcp_loop_reports:
  assumes "\<forall>p \<in> set ps. rtcp_packet_ok p" "a_size = length pre + length (compound ps)"
  shows "\<exists>r'. rtcp_loop (pre @ compound ps @ post) a_size (length pre) r = Some r' \<and>
    r_written r' = r_written r \<and> m_tap r' = m_tap r \<and> m_rtp_running r' = m_rtp_running r"
  using assms
proof (induction ps arbitrary: pre r)
  case Nil
  then show ?case by (simp add: compound_def rtcp_loop.simps)
next
  case (Cons p ps)
  let ?m = "mk_rtcp (fst p) (snd p)"
  have c: "compound (p # ps) = ?m @ compound ps" by (simp add: compound_def)
  have ok: "rtcp_body_ok (snd p)" using Cons.prems(1) by (simp add: rtcp_packet_ok_def)
  obtain r1 where r1: "(if fst p = 204 \<and> length (snd p) div 4 > 1 then rtcp_app (?m @ compound ps @ post) r else Some r) = Some r1"
    "r_written r1 = r_written r" "m_tap r1 = m_tap r" "m_rtp_running r1 = m_rtp_running r"
  proof (cases "fst p = 204 \<and> length (snd p) div 4 > 1")
    case True
    then obtain ssrc msg pad where b: "length ssrc = 4" "report_text msg" "snd p = app_body ssrc msg pad"
      using Cons.prems(1) by (auto simp: rtcp_packet_ok_def)
    obtain r' where "rtcp_app (?m @ compound ps @ post) r = Some r'" "r_written r' = r_written r" "m_tap r' = m_tap r"
      "m_rtp_running r' = m_rtp_running r"
      unfolding b(3) by (rule rtcp_app_report [OF b(1,2)])
    then show thesis using True by (intro that [of r']) simp_all
  next
    case False
    then show thesis by (intro that [of r]) auto
  qed
  have "rtcp_loop (pre @ ?m @ compound ps @ post) a_size (length pre) r =
      rtcp_loop ((pre @ ?m) @ compound ps @ post) a_size (length (pre @ ?m)) r1"
    using rtcp_loop_step [OF ok, of pre "fst p" a_size "compound ps @ post" r] Cons.prems(2) r1(1) by (simp add: c)
  moreover have "a_size = length (pre @ ?m) + length (compound ps)" using Cons.prems(2) by (simp add: c)
  ultimately show ?case
    using Cons.IH [of "pre @ ?m" r1] Cons.prems(1) r1(2-4) by (simp add: c)
qed

text \<open>What a turn receives as RTCP data: nothing, an error, or a compound packet of the usual form that fits the buffer.\<close>

definition rtcp_usual :: "dump_env \<Rightarrow> bool" where
  "rtcp_usual e \<longleftrightarrow> (\<forall>d. d_rtcp_in e \<and> d_recv e = Recv d \<longrightarrow>
     (\<exists>ps. d = compound ps \<and> (\<forall>p \<in> set ps. rtcp_packet_ok p) \<and> length d \<le> BUFFER_SIZE))"

text \<open>The second half of a turn, on the state after the first one.\<close>

definition rtcp_turn :: "dump_env \<Rightarrow> u8 list \<times> rtp \<times> config \<Rightarrow> (u8 list \<times> rtp \<times> config) option" where
  "rtcp_turn e st1 = (if d_rtcp_in e then
      (case d_recv e of
         Recv d \<Rightarrow> (let buf2 = store d (fst st1); n = min (length d) (length (fst st1)) in
           if n > 0 then do {
             r2 \<leftarrow> rtcpData buf2 n (fst (snd st1));
             Some (buf2, r2, snd (snd st1))
           } else Some (buf2, snd st1))
       | _ \<Rightarrow> Some st1)
    else Some st1)"

lemma rtpDump_step_turn:
  "rtpDump_step e (buf, r, c) = do {
     st1 \<leftarrow> (if d_rtp_in e then
         (let (buf1, rx_bytes) = Read (d_read e) buf in
          if rx_bytes > 12 then do {
            b \<leftarrow> rd buf1 12;
            if b = 0x47 then do {
              data \<leftarrow> rd_range buf1 12 (nat rx_bytes - 12);
              let w = Write (d_write e) data r;
              s \<leftarrow> to_tap (d_now0 e) (d_now1 e) data (fst w, c);
              Some (buf1, s)
            } else Some (buf1, r, c)
          } else Some (buf1, r, c))
       else Some (buf, r, c));
     rtcp_turn e st1
   }"
  by (simp add: rtpDump_step_def rtcp_turn_def [abs_def])

lemma rtcp_turn_usual:
  assumes "rtcp_usual e" "length buf = BUFFER_SIZE"
  shows "\<exists>buf' r'. rtcp_turn e (buf, r, c) = Some (buf', r', c) \<and> length buf' = BUFFER_SIZE \<and>
    r_written r' = r_written r \<and> m_tap r' = m_tap r"
proof (cases "\<exists>d. d_rtcp_in e \<and> d_recv e = Recv d \<and> d \<noteq> []")
  case True
  then obtain d ps where d: "d_rtcp_in e" "d_recv e = Recv d" "d \<noteq> []" "d = compound ps" "\<forall>p \<in> set ps. rtcp_packet_ok p"
    "length d \<le> BUFFER_SIZE"
    using assms(1) unfolding rtcp_usual_def by blast
  have "\<exists>r'. rtcpData (d @ drop (length d) buf) (length d) r = Some r' \<and> r_written r' = r_written r \<and> m_tap r' = m_tap r"
    using rtcp_loop_reports [OF d(5), of "length d" "[]" "drop (length d) buf" r] by (auto simp: d(4) rtcpData_def)
  then show ?thesis using d(1-3,6) assms(2) by (auto simp: rtcp_turn_def store_def Let_def min_def)
next
  case False
  then show ?thesis using assms(2) by (auto simp: rtcp_turn_def store_def Let_def split: recv_res.split)
qed

section \<open>Lengths that are not checked\<close>

text \<open>
  C30. The string length in an RTCP application packet is not checked against the received data. Take a turn of the
  receiving thread that receives just such a packet, not longer than the buffer, whose length field of two or more words covers what was
  received, and whose string length is larger than what was received behind it. If
  the length is larger than the thread's buffer of 1328 bytes has behind the 16 bytes of headers, the copy reads
  outside the buffer, whatever it holds; otherwise the text that is parsed goes on with the bytes
  that the buffer held behind the received ones. And a tuner entry without a comma behind it passes a null pointer to \<^verbatim>\<open>sscanf\<close>.
\<close>

theorem rtcpData_unchecked_length:
  assumes "\<not> d_rtp_in e" "d_rtcp_in e" "d_recv e = Recv pkt" "length buf = BUFFER_SIZE" "length pkt \<le> BUFFER_SIZE"
    and "pkt = [0x80, 204, hi8 (int words), lo8 (int words)] @ ids @ [0, 0, hi8 (int n), lo8 (int n)] @ tail"
    and "length ids = 8" "1 < words" "words < 65536" "length pkt \<le> (words + 1) * 4" "length tail < n" "n < 65536"
  shows "(BUFFER_SIZE - 16 < n \<longrightarrow> rtpDump_step e (buf, r, c) = None) \<and>
    (n \<le> BUFFER_SIZE - 16 \<longrightarrow> rtpDump_step e (buf, r, c) = do {
       text \<leftarrow> c_string (take n (tail @ drop (length pkt) buf) @ [0]);
       r' \<leftarrow> parseRtcpAppPayload text r;
       Some (pkt @ drop (length pkt) buf, r', c)
     }) \<and>
    (strstr text '';tuner='' = Some p \<and> CHR '','' \<notin> set p \<longrightarrow> parseRtcpAppPayload text r = None)"
proof -
  let ?m = "pkt @ drop (length pkt) buf"
  obtain a0 a1 a2 a3 a4 a5 a6 a7 where s: "ids = [a0, a1, a2, a3, a4, a5, a6, a7]"
    using assms(7) by (auto simp: numeral_eq_Suc length_Suc_conv)
  have len: "length ?m = BUFFER_SIZE" "0 < length pkt" using assms(4,5) by (simp_all add: assms(6))
  have app: "rd_range ?m 0 4 = Some [0x80, 204, hi8 (int words), lo8 (int words)]" "rd_range ?m 8 4 \<noteq> None"
    "rd_range ?m 12 4 = Some [0, 0, hi8 (int n), lo8 (int n)]"
    by (simp_all add: assms(6) s rd_range_def)
  have payload: "rd_range ?m 16 n = (if 16 + n \<le> BUFFER_SIZE then Some (take n (tail @ drop (length pkt) buf)) else None)"
    using len(1) by (simp add: rd_range_def) (simp add: assms(6) s)
  have be: "be16 (hi8 (int words)) (lo8 (int words)) = int words" "be16 (hi8 (int n)) (lo8 (int n)) = int n"
    using assms(9,12) by (simp_all add: be16_bytes)
  have "rtcp_loop ?m (length pkt) ((words + 1) * 4) r' = Some r'" for r'
    using assms(10) by (simp add: rtcp_loop.simps)
  then have "rtcpData ?m (length pkt) r = rtcp_app ?m r"
    using app(1) be(1) assms(8) len(2)
    by (cases "rtcp_app ?m r") (simp_all add: rtcpData_def rtcp_loop.simps [of ?m "length pkt" 0] Let_def)
  moreover have "rtcp_app ?m r = (if 16 + n \<le> BUFFER_SIZE then do {
       text \<leftarrow> c_string (take n (tail @ drop (length pkt) buf) @ [0]); parseRtcpAppPayload text r } else None)"
    using app(2,3) be(2) assms(11) payload by (auto simp: rtcp_app_def)
  moreover have "rtpDump_step e (buf, r, c) = do { r' \<leftarrow> rtcpData ?m (length pkt) r; Some (?m, r', c) }"
    using assms(1-5) len(2) by (cases "buf = []") (simp_all add: rtpDump_step_def store_def Let_def BUFFER_SIZE_def)
  moreover have "parseRtcpAppPayload text r = None" if "strstr text '';tuner='' = Some p" "CHR '','' \<notin> set p"
    using strstr_skip [OF that(2), of "[]" "[]"] that(1) by (simp add: parseRtcpAppPayload_def)
  ultimately show ?thesis by (auto simp: BUFFER_SIZE_def)
qed

text \<open>Two packets of 20 bytes: one asks for more than the whole buffer, the other for 3 bytes that were not received.\<close>

theorem rtcpData_unchecked_length_witness:
  "rtpDump_step \<lparr>d_rtp_in = False, d_read = [], d_write = [], d_now0 = 0, d_now1 = 0, d_rtcp_in = True,
       d_recv = Recv ([0x80, 204, hi8 4, lo8 4] @ replicate 8 0 @ [0, 0, hi8 2000, lo8 2000] @ bytes ''tune'')\<rparr>
     (replicate 1328 0, satipRTP 3 True undefined, blank_config) = None \<and>
   rtpDump_step \<lparr>d_rtp_in = False, d_read = [], d_write = [], d_now0 = 0, d_now1 = 0, d_rtcp_in = True,
       d_recv = Recv ([0x80, 204, hi8 4, lo8 4] @ replicate 8 0 @ [0, 0, hi8 7, lo8 7] @ bytes '';tun'')\<rparr>
     (replicate 20 0 @ bytes ''er='' @ replicate 1305 0, satipRTP 3 True undefined, blank_config) = None"
proof -
  let ?e = "\<lambda>d. \<lparr>d_rtp_in = False, d_read = [], d_write = [], d_now0 = 0, d_now1 = 0, d_rtcp_in = True, d_recv = Recv d\<rparr>"
  let ?p = "\<lambda>n t. [0x80, 204, hi8 (int 4), lo8 (int 4)] @ replicate 8 0 @ [0, 0, hi8 (int n), lo8 (int n)] @ bytes t"
  have "rtpDump_step (?e (?p 2000 ''tune'')) (replicate 1328 0, satipRTP 3 True undefined, blank_config) = None"
    using rtcpData_unchecked_length [of "?e (?p 2000 ''tune'')" _ "replicate 1328 0" 4 "replicate 8 0" 2000 "bytes ''tune''", OF _ _ _ _ _ refl]
    by (simp add: BUFFER_SIZE_def)
  moreover have "rtpDump_step (?e (?p 7 '';tun'')) (replicate 20 0 @ bytes ''er='' @ replicate 1305 0, satipRTP 3 True undefined, blank_config) = None"
    using rtcpData_unchecked_length [of "?e (?p 7 '';tun'')" _ "replicate 20 0 @ bytes ''er='' @ replicate 1305 0" 4 "replicate 8 0" 7
        "bytes '';tun''" "satipRTP 3 True undefined" blank_config, OF _ _ _ _ _ refl, of "'';tuner=''" "'';tuner=''"]
      c_string_text [of "'';tuner=''" "[]"]
    by (simp add: BUFFER_SIZE_def bytes_def)
  ultimately show ?thesis by simp
qed


section \<open>The data path\<close>

lemma Read_prefix:
  assumes "list_all (\<lambda>x. x = Recv_EINTR) es"
  shows "Read (es @ rs) buf = Read rs buf"
  using assms by (induction es) auto

lemma length_store [simp]: "length (store d buf) = length buf"
  by (simp add: store_def Let_def)

lemma Read_length: "length (fst (Read rs buf)) = length buf" "snd (Read rs buf) \<le> int (length buf)"
  by (induction rs buf rule: Read.induct) auto

lemma to_tap_run:
  assumes "config_ok c"
  shows "\<exists>c'. to_tap now0 now1 data (r, c) = Some (r, c') \<and> config_ok c' \<and>
    (if m_tap r then tap_data now0 now1 data (length data) c = Some c' else c' = c)"
  using tap_data_ok [OF assms, of "length data" data now0 now1] assms by (auto simp: to_tap_def)

lemma rtpDump_step_safe:
  assumes "config_ok c" "rtcp_usual e" "length buf = BUFFER_SIZE"
  shows "\<exists>buf' r' c'. rtpDump_step e (buf, r, c) = Some (buf', r', c') \<and> length buf' = BUFFER_SIZE \<and> config_ok c'"
proof (cases "d_rtp_in e")
  case True
  obtain buf1 n where rd: "Read (d_read e) buf = (buf1, n)" by fastforce
  have len: "length buf1 = BUFFER_SIZE" "n \<le> int (length buf1)"
    using Read_length [of "d_read e" buf] assms(3) by (simp_all add: rd)
  show ?thesis
  proof (cases "n > 12 \<and> buf1 ! 12 = 0x47")
    case True
    let ?d = "take (nat n - 12) (drop 12 buf1)"
    have d: "rd buf1 12 = Some (buf1 ! 12)" "rd_range buf1 12 (nat n - 12) = Some ?d"
      using True len by (auto simp: rd_def rd_range_def)
    obtain c' where c': "to_tap (d_now0 e) (d_now1 e) ?d (fst (Write (d_write e) ?d r), c) =
        Some (fst (Write (d_write e) ?d r), c')" "config_ok c'"
      using to_tap_run [OF assms(1)] by blast
    show ?thesis
      using rtcp_turn_usual [OF assms(2) len(1), of "fst (Write (d_write e) ?d r)" c'] True \<open>d_rtp_in e\<close> d c'
      by (auto simp: rtpDump_step_turn rd)
  next
    case False
    have "rd buf1 12 = Some (buf1 ! 12)" if "n > 12" using that len by (auto simp: rd_def)
    then show ?thesis
      using rtcp_turn_usual [OF assms(2) len(1), of r c] False \<open>d_rtp_in e\<close> assms(1)
      by (cases "n > 12") (auto simp: rtpDump_step_turn rd)
  qed
next
  case False
  then show ?thesis using rtcp_turn_usual [OF assms(2,3), of r c] assms(1) by (auto simp: rtpDump_step_turn)
qed

lemma rtpDump_safe:
  "config_ok (snd (snd st)) \<Longrightarrow> \<forall>e \<in> set es. rtcp_usual e \<Longrightarrow> length (fst st) = BUFFER_SIZE \<Longrightarrow>
    \<exists>st'. rtpDump es st = Some st' \<and> length (fst st') = BUFFER_SIZE \<and> config_ok (snd (snd st'))"
proof (induction es arbitrary: st)
  case (Cons e es)
  obtain buf r c where st: "st = (buf, r, c)" by (cases st) auto
  obtain st1 where "rtpDump_step e st = Some st1" "length (fst st1) = BUFFER_SIZE" "config_ok (snd (snd st1))"
    using rtpDump_step_safe [of c e buf r] Cons.prems by (fastforce simp: st)
  moreover from this obtain st' where "rtpDump es st1 = Some st'" "length (fst st') = BUFFER_SIZE"
      "config_ok (snd (snd st'))"
    using Cons.IH [of st1] Cons.prems by auto
  ultimately show ?case using Cons.prems(1,3) by (cases st; cases st') simp
qed simp

text \<open>
  C29. The receiving thread: a datagram of at most 1328 bytes with the sync byte after the 12 byte
  header is passed on without its header, to the device (all of it when no write fails) and
  to the tap, which sees exactly the same bytes. Any sequence of turns is handled inside the receive buffer of 1328
  bytes and keeps the configuration's invariant, whatever the datagrams hold, as long as what is received as RTCP data is
  of the usual form: nothing, an error, or a compound packet that fits the buffer, with the lengths that its packets have
  and with texts whose tuner entry, if there is one, is of the usual form. C30 shows what other RTCP data does.
\<close>

theorem rtpDump_delivers:
  assumes "config_ok c" "length buf = BUFFER_SIZE" "length hdr = 12" "length ts < BUFFER_SIZE - 12"
    and "d_rtp_in e" "d_read e = es @ [Recv (hdr @ 0x47 # ts)]" "list_all (\<lambda>x. x = Recv_EINTR) es"
    and "list_all progress (d_write e)" "\<forall>e' \<in> set (e # rest). rtcp_usual e'" "m_rtp_running r"
  shows "(\<exists>buf' r' c'. rtpDump [e] (buf, r, c) = Some (buf', r', c') \<and>
      r_written r' = r_written r @ 0x47 # ts \<and>
      (m_tap r \<longrightarrow> tap_data (d_now0 e) (d_now1 e) (0x47 # ts) (length ts + 1) c = Some c')) \<and>
    (\<exists>buf' r' c'. rtpDump (e # rest) (buf, r, c) = Some (buf', r', c') \<and> length buf' = BUFFER_SIZE \<and> config_ok c')"
proof -
  let ?d = "hdr @ 0x47 # ts" and ?p = "0x47 # ts"
  have len: "length ?d \<le> length buf" using assms(2-4) by simp
  let ?buf = "?d @ drop (length ?d) buf"
  have rd: "Read (d_read e) buf = (?buf, int (length ?d))"
    using len Read_prefix [OF assms(7)] by (simp add: assms(6) store_def Let_def min_def)
  have b: "rd ?buf 12 = Some 0x47" "rd_range ?buf 12 (length ?d - 12) = Some ?p"
    using assms(3) by (simp_all add: rd_def rd_range_def nth_append)
  obtain n where w: "Write (d_write e) ?p r = (r\<lparr>r_written := r_written r @ ?p\<rparr>, n)"
    using Write_run [of "d_write e" ?p r] assms(8) by auto
  let ?r = "r\<lparr>r_written := r_written r @ ?p\<rparr>"
  obtain c' where c': "to_tap (d_now0 e) (d_now1 e) ?p (?r, c) = Some (?r, c')"
    "if m_tap ?r then tap_data (d_now0 e) (d_now1 e) ?p (length ?p) c = Some c' else c' = c"
    using to_tap_run [OF assms(1)] by blast
  have full: "length ?buf = BUFFER_SIZE" using len assms(2) by simp
  have "rtcp_usual e" using assms(9) by simp
  then obtain buf' r' where t: "rtcp_turn e (?buf, ?r, c') = Some (buf', r', c')" "r_written r' = r_written r @ ?p"
    using rtcp_turn_usual [OF _ full, of e ?r c'] by auto
  have "int (length ?d) > 12" "nat (int (length ?d)) - 12 = length ?d - 12" using assms(3) by simp_all
  then have "rtpDump_step e (buf, r, c) = Some (buf', r', c')"
    unfolding rtpDump_step_turn rd prod.case using b w c'(1) assms(5) t(1) by (simp del: of_nat_add append.simps append_assoc)
  moreover obtain st where "rtpDump (e # rest) (buf, r, c) = Some st" "length (fst st) = BUFFER_SIZE" "config_ok (snd (snd st))"
    using rtpDump_safe [of "(buf, r, c)" "e # rest"] assms(1,2,9) by auto
  moreover from this have "\<exists>buf' r' c'. rtpDump (e # rest) (buf, r, c) = Some (buf', r', c') \<and> length buf' = BUFFER_SIZE \<and> config_ok c'"
    by (cases st) auto
  ultimately show ?thesis using c'(2) t(2) assms(10) by auto
qed

text \<open>A turn with a datagram of the stream and a signal report.\<close>

definition sample_dump :: dump_env where
  "sample_dump = \<lparr>d_rtp_in = True, d_read = [Recv_EINTR, Recv (replicate 12 0 @ 0x47 # replicate 187 1)],
     d_write = [Wrote 100], d_now0 = 0, d_now1 = 0, d_rtcp_in = True,
     d_recv = Recv (compound [(200, [1, 2, 3, 4]), (204, app_body [0, 0, 0, 1] (signal_text 1 1 224 1 15 ''11538'') [])])\<rparr>"

lemma sample_dump_usual: "rtcp_usual sample_dump"
proof -
  let ?t = "signal_text 1 1 224 1 15 ''11538''"
  let ?ps = "[(200, [1, 2, 3, 4]), (204, app_body [0, 0, 0, 1] ?t [])]"
  have t: "?t = ''ver=1.0;src=1;tuner=1,224,1,15,11538''"
    by (simp add: signal_text_def dec_nat_def digits.simps digit_char_def char_of_def bit_Suc_0_iff)
  have "\<exists>src fe level lock quality rest. level \<le> 255 \<and> lock \<le> 1 \<and> quality \<le> 15 \<and> ?t = signal_text src fe level lock quality rest"
    by (intro exI [of _ 1] exI [of _ 224] exI [of _ 15] exI [of _ "''11538''"]) simp
  moreover have "length ?t < 65536 \<and> CHR 0x00 \<notin> set ?t" unfolding t by simp
  ultimately have "report_text ?t" unfolding report_text_def by blast
  have "rtcp_body_ok (app_body [0, 0, 0, 1] ?t [])"
    unfolding t by (simp add: rtcp_body_ok_def app_body_def)
  moreover note \<open>report_text ?t\<close>
  ultimately have "rtcp_packet_ok (204, app_body [0, 0, 0, 1] ?t [])"
    unfolding rtcp_packet_ok_def
    by (intro conjI impI exI [of _ "[0, 0, 0, 1 :: u8]"] exI [of _ ?t] exI [of _ "[]"]) simp_all
  moreover have "rtcp_packet_ok (200, [1, 2, 3, 4])" by (simp add: rtcp_packet_ok_def rtcp_body_ok_def)
  ultimately have "\<forall>p \<in> set ?ps. rtcp_packet_ok p" by simp
  moreover have "length (compound ?ps) \<le> BUFFER_SIZE"
    unfolding t by (simp add: compound_def mk_rtcp_def app_body_def BUFFER_SIZE_def)
  ultimately show ?thesis unfolding rtcp_usual_def sample_dump_def by (auto intro!: exI [of _ ?ps])
qed

theorem rtpDump_delivers_witness:
  "\<exists>buf' r' c'. rtpDump [sample_dump]
     (replicate 1328 0, rtp_run (satipRTP 3 True undefined), satipConfig blank_config FE_TYPE_SAT (m_settings blank_config)) =
     Some (buf', r', c') \<and> r_written r' = 0x47 # replicate 187 1"
proof -
  have e: "d_rtp_in sample_dump" "d_read sample_dump = [Recv_EINTR] @ [Recv (replicate 12 0 @ 0x47 # replicate 187 1)]"
    "list_all progress (d_write sample_dump)" "\<forall>e' \<in> set [sample_dump]. rtcp_usual e'"
    using sample_dump_usual by (simp_all add: sample_dump_def progress_def)
  have r: "m_rtp_running (rtp_run (satipRTP 3 True undefined))" "r_written (rtp_run (satipRTP 3 True undefined)) = []"
    by (simp_all add: rtp_run_def satipRTP_def)
  note d = rtpDump_delivers [OF satipConfig_ok _ _ _ e(1,2) _ e(3,4) r(1), of "replicate 1328 0" blank_config FE_TYPE_SAT
      "m_settings blank_config", unfolded r(2)]
  show ?thesis by (rule exE [OF conjunct1 [OF d]]) (simp_all add: BUFFER_SIZE_def del: rtpDump.simps, blast)
qed

end
