(* ===== verification/Rtsp.thy ===== *)
theory Rtsp
  imports Timer Config_Query Rtp
begin

text \<open>
  \<^verbatim>\<open>src/rtsp.h\<close> and \<^verbatim>\<open>src/rtsp.cpp\<close>: the RTSP client. Its state holds the configuration and the RTP
  object it works on, its three timers and the receive buffer. The clock, the outcome of name
  lookup and of each connection attempt, whether \<^verbatim>\<open>send\<close> succeeds and what \<^verbatim>\<open>recv\<close> delivers are
  arguments; one handler runs at one reading of the clock. \<open>k_open\<close> holds the descriptors the
  object has open, \<open>k_sent\<close> the requests sent on the present connection. This theory holds the
  operations; their properties are in the theories that follow.
\<close>

section \<open>State\<close>

datatype rtsp_status =
  RTSP_STATUS_CONFIG_WAITING | RTSP_STATUS_SERVER_CONNECTING | RTSP_STATUS_SESSION_ESTABLISHING
| RTSP_STATUS_SESSION_PLAYING | RTSP_STATUS_SESSION_TRANSMITTING | RTSP_STATUS_SESSION_TEARDOWNING

datatype rtsp_request =
  RTSP_REQUEST_NONE | RTSP_REQUEST_OPTION | RTSP_REQUEST_SETUP | RTSP_REQUEST_PLAY
| RTSP_REQUEST_TEARDOWN | RTSP_REQUEST_DESCRIBE

datatype rtsp_res = RTSP_FAILED | RTSP_OK | RTSP_ERROR | RTSP_RESPONSE_COMPLETE

record rtsp =
  m_host :: string
  m_port :: string
  m_rtp :: rtp
  m_satip_config :: config
  m_timer_list :: "timer_elem list"
  m_reconnect_attempts :: nat
  m_attempted_generation :: u64
  m_fd :: int
  m_rx_data :: "u8 list"
  m_rx_data_len :: int
  m_rx_data_pos :: int
  m_rtsp_status :: rtsp_status
  m_rtsp_request :: rtsp_request
  m_rtsp_session_id :: string
  m_rtsp_stream_id :: int
  m_rtsp_timeout :: int
  m_rtsp_cseq :: int
  m_wait_response :: bool
  k_open :: "int list"
  k_sent :: "string list"

text \<open>Positions in the timer list, in the order of creation.\<close>

abbreviation (input) T_RESET :: nat where "T_RESET \<equiv> 0"
abbreviation (input) T_KEEP :: nat where "T_KEEP \<equiv> 1"
abbreviation (input) T_RECONNECT :: nat where "T_RECONNECT \<equiv> 2"

definition with_timer :: "nat \<Rightarrow> (timer_elem \<Rightarrow> timer_elem) \<Rightarrow> rtsp \<Rightarrow> rtsp" where
  "with_timer i f s = s\<lparr>m_timer_list := (m_timer_list s)[i := f (m_timer_list s ! i)]\<rparr>"

definition timer_active :: "nat \<Rightarrow> rtsp \<Rightarrow> bool" where
  "timer_active i s = m_active (m_timer_list s ! i)"

section \<open>Timers\<close>

definition startTimerResetConnect :: "timespec \<Rightarrow> int \<Rightarrow> rtsp \<Rightarrow> rtsp" where
  "startTimerResetConnect now timeout s = with_timer T_RESET (timer_start now timeout True) s"

definition stopTimerResetConnect :: "rtsp \<Rightarrow> rtsp" where
  "stopTimerResetConnect s = with_timer T_RESET timer_stop s"

text \<open>The product is computed as a 32-bit \<^verbatim>\<open>int\<close>.\<close>

definition startTimerKeepAliveMessage :: "timespec \<Rightarrow> rtsp \<Rightarrow> rtsp" where
  "startTimerKeepAliveMessage now s =
     with_timer T_KEEP (timer_start now (s32 ((m_rtsp_timeout s - 5) * 1000)) True) s"

definition stopTimerKeepAliveMessage :: "rtsp \<Rightarrow> rtsp" where
  "stopTimerKeepAliveMessage s = with_timer T_KEEP timer_stop s"

text \<open>A 64-bit \<^verbatim>\<open>long\<close>.\<close>

definition s64 :: "int \<Rightarrow> int" where
  "s64 x = (x + 2 ^ 63) mod 2 ^ 64 - 2 ^ 63"

definition reconnect_delay :: "nat \<Rightarrow> int" where
  "reconnect_delay attempts =
     (let delay = s64 (push_bit attempts 1000) in if delay > 30000 \<or> delay \<le> 0 then 30000 else delay)"

definition startTimerReconnect :: "timespec \<Rightarrow> rtsp \<Rightarrow> rtsp" where
  "startTimerReconnect now s =
     (let delay = reconnect_delay (m_reconnect_attempts s);
          s1 = with_timer T_RECONNECT (timer_start now delay True) s in
      if delay < 30000 then s1\<lparr>m_reconnect_attempts := m_reconnect_attempts s1 + 1\<rparr> else s1)"

definition stopTimerReconnect :: "rtsp \<Rightarrow> rtsp" where
  "stopTimerReconnect s = with_timer T_RECONNECT timer_stop s"

definition resetReconnectBackoff :: "rtsp \<Rightarrow> rtsp" where
  "resetReconnectBackoff s = s\<lparr>m_reconnect_attempts := 0\<rparr>"

section \<open>Connection\<close>

text \<open>\<^verbatim>\<open>close(m_fd)\<close>: the connection and what was sent on it are gone.\<close>

definition close_fd :: "rtsp \<Rightarrow> rtsp" where
  "close_fd s = (if m_fd s \<noteq> -1
     then s\<lparr>k_open := remove1 (m_fd s) (k_open s), k_sent := [], m_fd := -1\<rparr> else s)"

definition resetConnect :: "timespec \<Rightarrow> bool \<Rightarrow> rtsp \<Rightarrow> rtsp" where
  "resetConnect now auto_reconnect s0 =
     (let s = s0\<lparr>m_rtsp_status := RTSP_STATUS_CONFIG_WAITING, m_rtsp_request := RTSP_REQUEST_NONE,
             m_rtsp_cseq := 1, m_rtsp_session_id := [], m_rtsp_stream_id := -1, m_rtsp_timeout := 60,
             m_rx_data_pos := 0, m_wait_response := False\<rparr>;
          s = stopTimerKeepAliveMessage (stopTimerResetConnect (close_fd s));
          c = m_satip_config s in
      if \<not> auto_reconnect \<or> getChannelStatus c = CONFIG_STATUS_CHANNEL_INVALID
      then resetReconnectBackoff (stopTimerReconnect s)
      else if getChannelStatus c = CONFIG_STATUS_CHANNEL_CHANGED \<and>
              m_tune_generation c > m_attempted_generation s
      then resetReconnectBackoff (stopTimerReconnect s)
      else startTimerReconnect now (s\<lparr>m_satip_config := clearChannelChanged c\<rparr>))"

definition rx_len :: "config \<Rightarrow> nat" where
  "rx_len c = (if isTcpData c then 256 * 1024 else 2048)"

text \<open>
  The constructor. \<open>mem\<close> is the content of the fresh buffer, \<open>raw\<close> holds the members that the
  constructor leaves unset, \<open>t0\<close> and \<open>ts0\<close> the unset members of the timers.
\<close>

definition satipRTSP ::
  "rtsp \<Rightarrow> timespec \<Rightarrow> (nat \<Rightarrow> u8) \<Rightarrow> int \<Rightarrow> timespec \<Rightarrow> config \<Rightarrow> string \<Rightarrow> string \<Rightarrow> rtp \<Rightarrow> rtsp" where
  "satipRTSP raw now mem t0 ts0 satip_config host rtsp_port rtp0 =
     (let s = raw\<lparr>m_host := host, m_port := rtsp_port, m_rtp := rtp0, m_satip_config := satip_config,
            m_reconnect_attempts := 0, m_attempted_generation := 0, m_fd := -1, m_rx_data_pos := 0,
            m_rtsp_status := RTSP_STATUS_CONFIG_WAITING, m_rtsp_request := RTSP_REQUEST_NONE,
            m_wait_response := False, m_rx_data_len := int (rx_len satip_config),
            m_rx_data := map mem [0..<rx_len satip_config], k_open := [], k_sent := []\<rparr>;
          l = timer_create (timer_new t0 ts0 ''reset connect'') [];
          l = timer_create (timer_new t0 ts0 ''keep alive message'') l;
          l = timer_create (timer_new t0 ts0 ''reconnect'') l in
      resetConnect now False (s\<lparr>m_timer_list := l\<rparr>))"

text \<open>
  One address of the list that \<^verbatim>\<open>getaddrinfo\<close> returns: how \<^verbatim>\<open>socket\<close>, \<^verbatim>\<open>fcntl\<close> and \<^verbatim>\<open>connect\<close> go;
  \<open>Connecting\<close> is success or \<^verbatim>\<open>EINPROGRESS\<close>. A descriptor is a natural number.
\<close>

datatype conn_try = Socket_failed | Fcntl_failed nat | Connect_failed nat | Connecting nat

fun connect_loop :: "conn_try list \<Rightarrow> rtsp \<Rightarrow> rtsp \<times> nat option" where
  "connect_loop [] s = (s, None)"
| "connect_loop (Socket_failed # rp) s = connect_loop rp s"
| "connect_loop (Fcntl_failed fd # rp) s =
     connect_loop rp (s\<lparr>k_open := remove1 (int fd) (int fd # k_open s)\<rparr>)"
| "connect_loop (Connecting fd # rp) s = (s\<lparr>k_open := int fd # k_open s\<rparr>, Some fd)"
| "connect_loop (Connect_failed fd # rp) s =
     connect_loop rp (s\<lparr>k_open := remove1 (int fd) (int fd # k_open s)\<rparr>)"

text \<open>\<open>None\<close> for the addresses is a failing \<^verbatim>\<open>getaddrinfo\<close>; the socket options only write to the log.\<close>

definition connectToServer :: "conn_try list option \<Rightarrow> rtsp \<Rightarrow> rtsp \<times> rtsp_res" where
  "connectToServer addrs s =
     (case addrs of None \<Rightarrow> (s, RTSP_ERROR)
      | Some result \<Rightarrow> (case connect_loop result s of
            (s1, None) \<Rightarrow> (s1, RTSP_ERROR)
          | (s1, Some fd) \<Rightarrow> (s1\<lparr>m_fd := int fd, k_sent := []\<rparr>, RTSP_OK)))"

section \<open>Requests\<close>

definition crlf :: string where
  "crlf = [CHR 0x0D, CHR 0x0A]"

definition send_msg :: "bool \<Rightarrow> string \<Rightarrow> rtsp \<Rightarrow> rtsp \<times> rtsp_res" where
  "send_msg ok tx_data s =
     (if ok then (s\<lparr>k_sent := k_sent s @ [tx_data]\<rparr>, RTSP_OK) else (s, RTSP_ERROR))"

definition base_url :: "rtsp \<Rightarrow> string" where
  "base_url s = ''rtsp://'' @ m_host s @ '':'' @ m_port s @ ''/''"

definition cseq_line :: "rtsp \<Rightarrow> string" where
  "cseq_line s = ''CSeq: '' @ dec (m_rtsp_cseq s) @ crlf"

definition session_line :: "rtsp \<Rightarrow> string" where
  "session_line s = ''Session: '' @ m_rtsp_session_id s @ crlf"

definition next_cseq :: "rtsp \<Rightarrow> rtsp" where
  "next_cseq s = s\<lparr>m_rtsp_cseq := s32 (m_rtsp_cseq s + 1)\<rparr>"

text \<open>The texts of the requests; the query of \<^verbatim>\<open>SETUP\<close> and \<^verbatim>\<open>PLAY\<close> is an argument.\<close>

definition setup_text :: "string \<Rightarrow> rtsp \<Rightarrow> string" where
  "setup_text query s =
     (let rtp_port = m_rtp_port (m_rtp s) in
      ''SETUP '' @ base_url s @
      (if m_rtsp_stream_id s \<noteq> -1 then ''stream='' @ dec (m_rtsp_stream_id s) else []) @
      query @ '' RTSP/1.0'' @ crlf @ cseq_line s @
      (if m_rtsp_session_id s \<noteq> [] then session_line s else []) @
      (if isTcpData (m_satip_config s) then ''Transport: RTP/AVP/TCP;interleaved=0-1'' @ crlf
       else ''Transport: RTP/AVP;unicast;client_port='' @ dec rtp_port @ ''-'' @ dec (rtp_port + 1) @ crlf) @
      crlf)"

definition play_text :: "string \<Rightarrow> rtsp \<Rightarrow> string" where
  "play_text query s = ''PLAY '' @ base_url s @ ''stream='' @ dec (m_rtsp_stream_id s) @ query @ '' RTSP/1.0'' @ crlf @
     cseq_line s @ session_line s @ crlf"

definition option_text :: "rtsp \<Rightarrow> string" where
  "option_text s = ''OPTIONS '' @ base_url s @ '' RTSP/1.0'' @ crlf @ cseq_line s @ session_line s @ crlf"

definition teardown_text :: "rtsp \<Rightarrow> string" where
  "teardown_text s = ''TEARDOWN '' @ base_url s @ ''stream='' @ dec (m_rtsp_stream_id s) @ '' RTSP/1.0'' @ crlf @
     cseq_line s @ session_line s @ crlf"

definition describe_text :: "rtsp \<Rightarrow> string" where
  "describe_text s = ''DESCRIBE '' @ base_url s @
     (if m_rtsp_stream_id s \<noteq> -1 then ''stream='' @ dec (m_rtsp_stream_id s) else []) @
     '' RTSP/1.0'' @ crlf @ cseq_line s @ ''Accept: application/sdp'' @ crlf @ crlf"

definition sendSetup :: "bool \<Rightarrow> rtsp \<Rightarrow> rtsp \<times> rtsp_res" where
  "sendSetup ok s =
     (let r = getSetupData (m_satip_config s); s1 = s\<lparr>m_satip_config := fst r\<rparr> in
      send_msg ok (setup_text (snd r) s1) (next_cseq s1))"

definition no_session :: "rtsp \<Rightarrow> bool" where
  "no_session s \<longleftrightarrow> m_rtsp_stream_id s = -1 \<or> m_rtsp_session_id s = []"

definition sendPlay :: "bool \<Rightarrow> rtsp \<Rightarrow> rtsp \<times> rtsp_res" where
  "sendPlay ok s =
     (if no_session s then (s, RTSP_ERROR)
      else (let r = getPlayData (m_satip_config s); s1 = s\<lparr>m_satip_config := fst r\<rparr> in
            send_msg ok (play_text (snd r) s1) (next_cseq s1)))"

definition sendOption :: "bool \<Rightarrow> rtsp \<Rightarrow> rtsp \<times> rtsp_res" where
  "sendOption ok s =
     (if no_session s then (s, RTSP_ERROR) else send_msg ok (option_text s) (next_cseq s))"

definition sendTearDown :: "bool \<Rightarrow> rtsp \<Rightarrow> rtsp \<times> rtsp_res" where
  "sendTearDown ok s =
     (if no_session s then (s, RTSP_ERROR) else send_msg ok (teardown_text s) (next_cseq s))"

definition sendDescribe :: "bool \<Rightarrow> rtsp \<Rightarrow> rtsp \<times> rtsp_res" where
  "sendDescribe ok s = send_msg ok (describe_text s) (next_cseq s)"

definition send_by_kind :: "bool \<Rightarrow> rtsp_request \<Rightarrow> rtsp \<Rightarrow> rtsp \<times> rtsp_res" where
  "send_by_kind ok request s =
     (case request of RTSP_REQUEST_OPTION \<Rightarrow> sendOption ok s
      | RTSP_REQUEST_SETUP \<Rightarrow> sendSetup ok s
      | RTSP_REQUEST_PLAY \<Rightarrow> sendPlay ok s
      | RTSP_REQUEST_TEARDOWN \<Rightarrow> sendTearDown ok s
      | RTSP_REQUEST_DESCRIBE \<Rightarrow> sendDescribe ok s
      | RTSP_REQUEST_NONE \<Rightarrow> (s, RTSP_ERROR))"

definition sendRequest :: "timespec \<Rightarrow> bool \<Rightarrow> rtsp_request \<Rightarrow> rtsp \<Rightarrow> rtsp \<times> rtsp_res" where
  "sendRequest now ok request s =
     (if m_wait_response s then (s, RTSP_FAILED)
      else (case send_by_kind ok request (stopTimerKeepAliveMessage s) of
          (s1, res) \<Rightarrow>
            if res = RTSP_OK
            then (startTimerResetConnect now 4000 (s1\<lparr>m_wait_response := True, m_rtsp_request := request\<rparr>), res)
            else (resetConnect now True s1, res)))"

section \<open>Responses\<close>

text \<open>
  \<^verbatim>\<open>handleResponseSetup\<close> on the text in the buffer. Copying 1024 or more characters into the
  local array is undefined.
\<close>

definition session_text :: "string \<Rightarrow> string" where
  "session_text s = rev (dropWhile isspace (rev (upto_any {CHR '';'', CHR 0x0A} s)))"

definition response_timeout :: "string \<Rightarrow> rtsp \<Rightarrow> rtsp" where
  "response_timeout rx s =
     (case Option.bind (strstr rx ''timeout'') (\<lambda>p. strchr p CHR ''='') of
        None \<Rightarrow> s | Some p \<Rightarrow> s\<lparr>m_rtsp_timeout := s32 (strtol 0 (tl p))\<rparr>)"

definition handleResponseSetup :: "string \<Rightarrow> rtsp \<Rightarrow> (rtsp \<times> rtsp_res) option" where
  "handleResponseSetup rx s =
     (case Option.bind (strstr rx ''Session'') (\<lambda>p. strchr p CHR '':'') of
        None \<Rightarrow> Some (s, RTSP_ERROR)
      | Some p \<Rightarrow>
          (let id = skip_space (tl p) in
           if length id \<ge> 1024 then None
           else (let s1 = response_timeout rx (s\<lparr>m_rtsp_session_id := session_text id\<rparr>) in
                 case Option.bind (strstr rx ''com.ses.streamID'') (\<lambda>p. strchr p CHR '':'') of
                   None \<Rightarrow> Some (s1, RTSP_ERROR)
                 | Some p \<Rightarrow> Some (s1\<lparr>m_rtsp_stream_id := s32 (strtol 0 (tl p))\<rparr>, RTSP_RESPONSE_COMPLETE))))"

definition handleResponsePlay :: "rtsp \<Rightarrow> rtsp \<times> rtsp_res" where
  "handleResponsePlay s = (s, RTSP_RESPONSE_COMPLETE)"

definition handleResponseOption :: "rtsp \<Rightarrow> rtsp \<times> rtsp_res" where
  "handleResponseOption s = (s, RTSP_RESPONSE_COMPLETE)"

definition handleResponseTeardown :: "rtsp \<Rightarrow> rtsp \<times> rtsp_res" where
  "handleResponseTeardown s = (s, RTSP_RESPONSE_COMPLETE)"

definition handleResponseDescribe :: "rtsp \<Rightarrow> rtsp \<times> rtsp_res" where
  "handleResponseDescribe s = (s, RTSP_RESPONSE_COMPLETE)"

text \<open>The \<^verbatim>\<open>sscanf\<close> of the status line; without a conversion the variable keeps its value.\<close>

definition scan_status :: "string \<Rightarrow> int \<Rightarrow> int" where
  "scan_status rx res_code =
     (case do { t \<leftarrow> scan_text ''RTSP/'' rx; u \<leftarrow> scan_word t; scan_d u } of
        None \<Rightarrow> res_code | Some v \<Rightarrow> fst v)"

text \<open>The second \<^verbatim>\<open>switch\<close>; a kind that is not handled leaves the variable as it is.\<close>

definition response_by_kind :: "string \<Rightarrow> rtsp_res \<Rightarrow> rtsp \<Rightarrow> (rtsp \<times> rtsp_res) option" where
  "response_by_kind rx res s =
     (case m_rtsp_request s of
        RTSP_REQUEST_NONE \<Rightarrow> Some (s, res)
      | RTSP_REQUEST_OPTION \<Rightarrow> Some (handleResponseOption s)
      | RTSP_REQUEST_SETUP \<Rightarrow> handleResponseSetup rx s
      | RTSP_REQUEST_PLAY \<Rightarrow> Some (handleResponsePlay s)
      | RTSP_REQUEST_TEARDOWN \<Rightarrow> Some (handleResponseTeardown s)
      | RTSP_REQUEST_DESCRIBE \<Rightarrow> Some (s, res))"

text \<open>
  From the end of the header to the label \<^verbatim>\<open>complete\<close>: the new state, the variables \<^verbatim>\<open>res\<close> and
  \<^verbatim>\<open>res_code\<close>, and whether the function goes on at \<^verbatim>\<open>complete\<close>.
\<close>

definition response_header ::
  "timespec \<Rightarrow> string \<Rightarrow> rtsp_res \<Rightarrow> int \<Rightarrow> rtsp \<Rightarrow> (rtsp \<times> rtsp_res \<times> int \<times> bool) option" where
  "response_header now rx res res_code s0 =
     (let s = s0\<lparr>m_wait_response := False\<rparr> in
      if m_rtsp_request s = RTSP_REQUEST_DESCRIBE
      then (case handleResponseDescribe (stopTimerResetConnect s) of (s1, res1) \<Rightarrow> Some (s1, res1, res_code, True))
      else do {
        let res_code1 = scan_status rx res_code;
        r \<leftarrow> (if res_code1 \<noteq> 200 then Some (s\<lparr>m_rx_data_pos := 0\<rparr>, RTSP_ERROR) else response_by_kind rx res s);
        if snd r = RTSP_ERROR then Some (resetConnect now True (fst r), RTSP_ERROR, res_code1, False)
        else if snd r = RTSP_RESPONSE_COMPLETE
        then Some (stopTimerResetConnect (fst r), snd r, res_code1, True)
        else Some (fst r, snd r, res_code1, True)
      })"

definition wr :: "'a list \<Rightarrow> int \<Rightarrow> 'a \<Rightarrow> 'a list option" where
  "wr m i v = (if 0 \<le> i \<and> i < int (length m) then Some (m[nat i := v]) else None)"

text \<open>\<^verbatim>\<open>memmove\<close> to the beginning of the buffer.\<close>

definition move_front :: "u8 list \<Rightarrow> nat \<Rightarrow> nat \<Rightarrow> u8 list option" where
  "move_front m from n = do { d \<leftarrow> rd_range m from n; Some (d @ drop n m) }"

definition header_end :: string where
  "header_end = crlf @ crlf"

lemmas timer_op_defs = startTimerResetConnect_def stopTimerResetConnect_def startTimerKeepAliveMessage_def
  stopTimerKeepAliveMessage_def stopTimerReconnect_def with_timer_def

lemma response_header_rx:
  assumes "response_header now rx res res_code s = Some (s1, res1, code1, True)"
  shows "m_rx_data_pos s1 = m_rx_data_pos s \<and> m_rx_data s1 = m_rx_data s"
  using assms
  by (auto simp: response_header_def response_by_kind_def handleResponseSetup_def handleResponsePlay_def
      handleResponseOption_def handleResponseTeardown_def handleResponseDescribe_def response_timeout_def
      timer_op_defs Let_def
      split: if_splits rtsp_request.splits option.splits Option.bind_splits)

lemma rx_text_bounds:
  assumes "wr m i 0 = Some m'" "c_string m' = Some rx" "strstr rx header_end = Some p"
  shows "length rx - length p + 4 \<le> nat i"
proof -
  have i: "nat i < length m'" "m' ! nat i = 0" using assms(1) by (auto simp: wr_def split: if_splits)
  then have "length rx \<le> nat i" using c_string_terminated assms(2) by fastforce
  moreover have "4 \<le> length p \<and> length p \<le> length rx"
    using strstr_length [OF assms(3)] by (simp add: header_end_def crlf_def)
  ultimately show ?thesis by linarith
qed

text \<open>Length of the frame at the beginning of the buffer, its header of 4 bytes included.\<close>

definition frame_length :: "rtsp \<Rightarrow> nat option" where
  "frame_length s = do {
     hi \<leftarrow> rd (m_rx_data s) 2;
     lo \<leftarrow> rd (m_rx_data s) 3;
     Some (4 + nat (be16 hi lo))
   }"

text \<open>A complete frame: the watchdog is restarted, the frame handled and removed from the buffer.\<close>

definition rx_frame :: "timespec \<Rightarrow> frame_env \<Rightarrow> nat \<Rightarrow> rtsp \<Rightarrow> (rtsp \<times> int) option" where
  "rx_frame now e len2 s = do {
     let s1 = startTimerResetConnect now 4000 s;
     t \<leftarrow> rtpTcpData e (m_rx_data s1) len2 (m_rtp s1, m_satip_config s1);
     d \<leftarrow> move_front (m_rx_data s1) len2 (nat (m_rx_data_pos s1) - len2);
     Some (s1\<lparr>m_rtp := fst (fst t), m_satip_config := snd (fst t), m_rx_data := d,
              m_rx_data_pos := m_rx_data_pos s1 - int len2\<rparr>, snd t)
   }"

text \<open>The label \<^verbatim>\<open>complete\<close>: a response of \<open>used\<close> bytes is removed from the buffer.\<close>

definition rx_complete :: "nat \<Rightarrow> rtsp \<Rightarrow> rtsp option" where
  "rx_complete used s = do {
     let len2 = nat (m_rx_data_pos s) - used;
     d \<leftarrow> move_front (m_rx_data s) used len2;
     Some (s\<lparr>m_rx_data := d, m_rx_data_pos := int len2, m_rtsp_request := RTSP_REQUEST_NONE\<rparr>)
   }"

lemma frame_length_min: "frame_length s = Some n \<Longrightarrow> 4 \<le> n"
  by (auto simp: frame_length_def elim!: bind_SomeE)

lemma rx_frame_pos: "rx_frame now e n s = Some (s1, x) \<Longrightarrow> m_rx_data_pos s1 = m_rx_data_pos s - int n"
  by (auto simp: rx_frame_def Let_def timer_op_defs elim!: bind_SomeE)

lemma rx_complete_pos: "rx_complete n s = Some s1 \<Longrightarrow> m_rx_data_pos s1 = int (nat (m_rx_data_pos s) - n)"
  by (auto simp: rx_complete_def Let_def elim!: bind_SomeE)

lemma rx_complete_less:
  assumes "wr (m_rx_data s) (m_rx_data_pos s) 0 = Some m" "c_string m = Some rx" "strstr rx header_end = Some p"
    "response_header now rx res code (s\<lparr>m_rx_data := m\<rparr>) = Some (s1, res1, code1, True)"
    "rx_complete (length rx - length p + 4) s1 = Some s2" "0 < m_rx_data_pos s2"
  shows "m_rx_data_pos s2 < m_rx_data_pos s"
  using response_header_rx [OF assms(4)] rx_text_bounds [OF assms(1-3)] rx_complete_pos [OF assms(5)] assms(6)
  by (auto split: if_splits)

text \<open>
  \<^verbatim>\<open>handleResponse\<close> from the label \<^verbatim>\<open>again\<close> on: interleaved frames, then a response, then again
  while data is left. \<open>env\<close> numbers what the frames meet.
\<close>

function response_loop ::
  "timespec \<Rightarrow> (nat \<Rightarrow> frame_env) \<Rightarrow> rtsp_res \<Rightarrow> int \<Rightarrow> rtsp \<Rightarrow> (rtsp \<times> rtsp_res) option" where
  "response_loop now env res res_code s = do {
     b \<leftarrow> rd (m_rx_data s) 0;
     if b = 0x24 then
       (if \<not> isTcpData (m_satip_config s) then Some (s, RTSP_ERROR)
        else if m_rx_data_pos s < 4 then Some (s, RTSP_OK)
        else do {
          len2 \<leftarrow> frame_length s;
          if m_rx_data_pos s < int len2 then Some (s, RTSP_OK)
          else do {
            t \<leftarrow> rx_frame now (env 0) len2 s;
            if snd t \<noteq> 0 then Some (fst t, RTSP_ERROR)
            else response_loop now (\<lambda>k. env (Suc k)) res res_code (fst t)
          }
        })
     else do {
       m \<leftarrow> wr (m_rx_data s) (m_rx_data_pos s) 0;
       rx \<leftarrow> c_string m;
       (case strstr rx header_end of
          None \<Rightarrow> Some (s\<lparr>m_rx_data := m\<rparr>, RTSP_OK)
        | Some p \<Rightarrow> do {
            r \<leftarrow> response_header now rx res res_code (s\<lparr>m_rx_data := m\<rparr>);
            (case r of (s1, res1, code1, go) \<Rightarrow>
               if \<not> go then Some (s1, res1)
               else do {
                 s2 \<leftarrow> rx_complete (length rx - length p + 4) s1;
                 if m_rx_data_pos s2 > 0 then response_loop now env res1 code1 s2 else Some (s2, res1)
               })
          })
     }
   }"
  by pat_completeness auto
termination
proof (relation "measure (\<lambda>(now, env, res, code, s). nat (m_rx_data_pos s))", goal_cases)
  case 1
  then show ?case by simp
next
  case (2 now env res res_code s b len2 t)
  then show ?case
    using frame_length_min [of s len2] rx_frame_pos [of now "env 0" len2 s "fst t" "snd t"] by (cases t) simp
next
  case (3 now env res res_code s)
  then show ?case by (auto dest: rx_complete_less)
qed

declare response_loop.simps [simp del]

text \<open>
  The beginning of \<^verbatim>\<open>handleResponse\<close>. A receive position outside the buffer is undefined. The end
  of the stream is \<open>Recv []\<close>; an error of \<^verbatim>\<open>recv\<close> (-1) is added to the position like any result.
\<close>

definition handleResponse ::
  "timespec \<Rightarrow> (nat \<Rightarrow> frame_env) \<Rightarrow> recv_res \<Rightarrow> rtsp \<Rightarrow> (rtsp \<times> rtsp_res) option" where
  "handleResponse now env rcv s =
     (let len = m_rx_data_len s - m_rx_data_pos s - 1 in
      if len = 0 then Some (s\<lparr>m_rx_data_pos := 0\<rparr>, RTSP_ERROR)
      else if len < 0 \<or> m_rx_data_pos s < 0 then None
      else (case rcv of
          Recv d0 \<Rightarrow>
            (let d = take (nat len) d0; p = nat (m_rx_data_pos s) in
             if d = [] then Some (s, RTSP_ERROR)
             else response_loop now env RTSP_ERROR 0
               (s\<lparr>m_rx_data := take p (m_rx_data s) @ d @ drop (p + length d) (m_rx_data s),
                  m_rx_data_pos := m_rx_data_pos s + int (length d)\<rparr>))
        | _ \<Rightarrow> response_loop now env RTSP_ERROR 0 (s\<lparr>m_rx_data_pos := m_rx_data_pos s - 1\<rparr>)))"

section \<open>The session state machine\<close>

definition handleRTSPStatus :: "timespec \<Rightarrow> conn_try list option \<Rightarrow> bool \<Rightarrow> rtsp \<Rightarrow> rtsp" where
  "handleRTSPStatus now addrs ok s =
     (let c = m_satip_config s in
      case m_rtsp_status s of
        RTSP_STATUS_CONFIG_WAITING \<Rightarrow>
          (case getChannelStatus c of
             CONFIG_STATUS_CHANNEL_INVALID \<Rightarrow>
               resetReconnectBackoff (if timer_active T_RECONNECT s then stopTimerReconnect s else s)
           | CONFIG_STATUS_CHANNEL_CHANGED \<Rightarrow>
               (let s1 = (if m_tune_generation c > m_attempted_generation s
                          then resetReconnectBackoff (stopTimerReconnect s) else s);
                    s2 = s1\<lparr>m_attempted_generation := m_tune_generation c\<rparr> in
                case connectToServer addrs s2 of (s3, res) \<Rightarrow>
                  if res = RTSP_OK
                  then startTimerResetConnect now 5000 (s3\<lparr>m_rtsp_status := RTSP_STATUS_SERVER_CONNECTING\<rparr>)
                  else startTimerReconnect now (s3\<lparr>m_satip_config := clearChannelChanged (m_satip_config s3)\<rparr>))
           | CONFIG_STATUS_CHANNEL_STABLE \<Rightarrow> s)
      | RTSP_STATUS_SERVER_CONNECTING \<Rightarrow> s
      | RTSP_STATUS_SESSION_ESTABLISHING \<Rightarrow> fst (sendRequest now ok RTSP_REQUEST_SETUP s)
      | RTSP_STATUS_SESSION_PLAYING \<Rightarrow> fst (sendRequest now ok RTSP_REQUEST_PLAY s)
      | RTSP_STATUS_SESSION_TRANSMITTING \<Rightarrow>
          (if getChannelStatus c = CONFIG_STATUS_CHANNEL_CHANGED \<or> getPidStatus c = CONFIG_STATUS_PID_CHANGED then
             (case sendRequest now ok RTSP_REQUEST_PLAY s of (s1, res) \<Rightarrow>
                if res = RTSP_OK then s1\<lparr>m_rtsp_status := RTSP_STATUS_SESSION_PLAYING\<rparr> else s1)
           else if getChannelStatus c = CONFIG_STATUS_CHANNEL_INVALID then
             (case sendRequest now ok RTSP_REQUEST_TEARDOWN s of (s1, res) \<Rightarrow>
                if res = RTSP_OK then s1\<lparr>m_rtsp_status := RTSP_STATUS_SESSION_TEARDOWNING\<rparr> else s1)
           else if \<not> timer_active T_KEEP s then startTimerKeepAliveMessage now s else s)
      | RTSP_STATUS_SESSION_TEARDOWNING \<Rightarrow> s)"

datatype poll_flag = POLLIN | POLLPRI | POLLOUT | POLLERR | POLLHUP | POLLNVAL

definition getPollEvent :: "rtsp \<Rightarrow> poll_flag set" where
  "getPollEvent s =
     (case m_rtsp_status s of
        RTSP_STATUS_CONFIG_WAITING \<Rightarrow>
          (if isTcpData (m_satip_config s) then {POLLIN, POLLHUP, POLLERR, POLLNVAL} else {})
      | RTSP_STATUS_SERVER_CONNECTING \<Rightarrow> {POLLOUT, POLLHUP, POLLERR, POLLNVAL}
      | RTSP_STATUS_SESSION_ESTABLISHING \<Rightarrow> {POLLIN, POLLHUP, POLLERR, POLLNVAL}
      | RTSP_STATUS_SESSION_PLAYING \<Rightarrow> {POLLIN, POLLHUP, POLLERR, POLLNVAL}
      | RTSP_STATUS_SESSION_TRANSMITTING \<Rightarrow>
          (if m_rtsp_request s = RTSP_REQUEST_OPTION \<or> isTcpData (m_satip_config s)
           then {POLLIN, POLLHUP, POLLERR, POLLNVAL} else {})
      | RTSP_STATUS_SESSION_TEARDOWNING \<Rightarrow> {POLLIN, POLLHUP, POLLERR, POLLNVAL})"

definition handlePollEvents ::
  "timespec \<Rightarrow> (nat \<Rightarrow> frame_env) \<Rightarrow> recv_res \<Rightarrow> poll_flag set \<Rightarrow> rtsp \<Rightarrow> rtsp option" where
  "handlePollEvents now env rcv events s =
     (if POLLHUP \<in> events \<or> POLLERR \<in> events \<or> POLLNVAL \<in> events then Some (resetConnect now True s)
      else (case m_rtsp_status s of
          RTSP_STATUS_CONFIG_WAITING \<Rightarrow> Some s
        | RTSP_STATUS_SERVER_CONNECTING \<Rightarrow>
            Some (if POLLOUT \<in> events
                  then (stopTimerResetConnect s)\<lparr>m_rtsp_status := RTSP_STATUS_SESSION_ESTABLISHING\<rparr> else s)
        | RTSP_STATUS_SESSION_ESTABLISHING \<Rightarrow>
            (if POLLIN \<in> events then do {
               r \<leftarrow> handleResponse now env rcv s;
               Some (if snd r = RTSP_RESPONSE_COMPLETE
                     then (fst r)\<lparr>m_rtsp_status := RTSP_STATUS_SESSION_PLAYING\<rparr> else fst r)
             } else Some s)
        | RTSP_STATUS_SESSION_PLAYING \<Rightarrow>
            (if POLLIN \<in> events then do {
               r \<leftarrow> handleResponse now env rcv s;
               Some (if snd r = RTSP_RESPONSE_COMPLETE
                     then resetReconnectBackoff (stopTimerReconnect
                       ((fst r)\<lparr>m_rtsp_status := RTSP_STATUS_SESSION_TRANSMITTING\<rparr>)) else fst r)
             } else Some s)
        | RTSP_STATUS_SESSION_TRANSMITTING \<Rightarrow>
            (if POLLIN \<in> events then do { r \<leftarrow> handleResponse now env rcv s; Some (fst r) } else Some s)
        | RTSP_STATUS_SESSION_TEARDOWNING \<Rightarrow>
            (if POLLIN \<in> events then do {
               r \<leftarrow> handleResponse now env rcv s;
               Some (if snd r = RTSP_RESPONSE_COMPLETE then resetConnect now False (fst r) else fst r)
             } else Some s)))"

section \<open>The timer handlers\<close>

definition timeoutConnect :: "timespec \<Rightarrow> rtsp \<Rightarrow> rtsp" where
  "timeoutConnect now s = resetConnect now True s"

definition timeoutKeepAlive :: "timespec \<Rightarrow> bool \<Rightarrow> rtsp \<Rightarrow> rtsp" where
  "timeoutKeepAlive now ok s = fst (sendRequest now ok RTSP_REQUEST_OPTION s)"

text \<open>\<^verbatim>\<open>timeoutStreamInfo\<close> is not attached to any timer.\<close>

definition timeoutStreamInfo :: "timespec \<Rightarrow> bool \<Rightarrow> rtsp \<Rightarrow> rtsp" where
  "timeoutStreamInfo now ok s = fst (sendRequest now ok RTSP_REQUEST_DESCRIBE s)"

definition timeoutReconnect :: "rtsp \<Rightarrow> rtsp" where
  "timeoutReconnect s =
     (case getChannelStatus (m_satip_config s) of
        CONFIG_STATUS_CHANNEL_INVALID \<Rightarrow> resetReconnectBackoff s
      | CONFIG_STATUS_CHANNEL_CHANGED \<Rightarrow> resetReconnectBackoff s
      | CONFIG_STATUS_CHANNEL_STABLE \<Rightarrow> s\<lparr>m_satip_config := setChannelRetry (m_satip_config s)\<rparr>)"

definition rtsp_handler :: "bool \<Rightarrow> timespec \<Rightarrow> nat \<Rightarrow> rtsp \<Rightarrow> rtsp" where
  "rtsp_handler ok now i s =
     (if i = T_RESET then timeoutConnect now s
      else if i = T_KEEP then timeoutKeepAlive now ok s
      else if i = T_RECONNECT then timeoutReconnect s else s)"

definition getPollTimeout :: "timespec \<Rightarrow> rtsp \<Rightarrow> int" where
  "getPollTimeout now s = getNextTimerBegin now (m_timer_list s)"

definition handleNextTimer :: "timespec \<Rightarrow> bool \<Rightarrow> rtsp \<Rightarrow> rtsp" where
  "handleNextTimer now ok s = callNextTimer m_timer_list m_timer_list_update (rtsp_handler ok now) now s"

definition getRtspSocketFd :: "rtsp \<Rightarrow> int" where
  "getRtspSocketFd s = m_fd s"

end
