(* ===== verification/Rtsp_Inv.thy ===== *)
theory Rtsp_Inv
  imports Rtsp
begin

text \<open>
  The invariant of the RTSP client and its preservation by every operation. It says that the
  receive position is inside the buffer or the one element in front of it that a failing \<^verbatim>\<open>recv\<close>
  leaves, and at its beginning without a session, that exactly the connection's descriptor is open and only
  outside the waiting state, that a request is outstanding exactly when a response is awaited and
  then the watchdog timer runs, that the backoff counter stays within its range, and that a
  wanted channel is never left without a pending retry. The interface between the client and its
  timers, \<open>timer_host\<close>, is interpreted here on the client's handlers.
\<close>

section \<open>The invariant\<close>

definition rx_ok :: "rtsp \<Rightarrow> bool" where
  "rx_ok s \<longleftrightarrow> int (length (m_rx_data s)) = m_rx_data_len s \<and> 2048 \<le> m_rx_data_len s \<and>
     -1 \<le> m_rx_data_pos s \<and> m_rx_data_pos s < m_rx_data_len s \<and>
     (m_rtsp_status s = RTSP_STATUS_CONFIG_WAITING \<or> m_rtsp_status s = RTSP_STATUS_SERVER_CONNECTING \<longrightarrow>
        m_rx_data_pos s = 0)"

definition link_ok :: "rtsp \<Rightarrow> bool" where
  "link_ok s \<longleftrightarrow> k_open s = (if m_fd s = -1 then [] else [m_fd s]) \<and>
     (m_fd s = -1 \<longleftrightarrow> m_rtsp_status s = RTSP_STATUS_CONFIG_WAITING) \<and>
     (m_fd s = -1 \<longrightarrow> k_sent s = [])"

definition wait_ok :: "rtsp \<Rightarrow> bool" where
  "wait_ok s \<longleftrightarrow> (m_wait_response s \<longleftrightarrow> m_rtsp_request s \<noteq> RTSP_REQUEST_NONE) \<and>
     (m_wait_response s \<longrightarrow> timer_active T_RESET s \<and>
        m_rtsp_status s \<noteq> RTSP_STATUS_CONFIG_WAITING \<and> m_rtsp_status s \<noteq> RTSP_STATUS_SERVER_CONNECTING) \<and>
     (m_rtsp_status s = RTSP_STATUS_SERVER_CONNECTING \<longrightarrow> timer_active T_RESET s)"

abbreviation chan :: "rtsp \<Rightarrow> t_channel_status" where
  "chan s \<equiv> m_status (m_satip_config s)"

definition sched_ok :: "rtsp \<Rightarrow> bool" where
  "sched_ok s \<longleftrightarrow> m_reconnect_attempts s \<le> 5 \<and>
     (m_rtsp_status s = RTSP_STATUS_CONFIG_WAITING \<and> chan s = CONFIG_STATUS_CHANNEL_STABLE \<longrightarrow>
        timer_active T_RECONNECT s) \<and>
     (m_rtsp_status s = RTSP_STATUS_SESSION_TEARDOWNING \<longrightarrow> chan s \<noteq> CONFIG_STATUS_CHANNEL_STABLE) \<and>
     (timer_active T_KEEP s \<longrightarrow> m_rtsp_status s = RTSP_STATUS_SESSION_TRANSMITTING) \<and>
     (timer_active T_RECONNECT s \<longrightarrow> m_rtsp_status s \<noteq> RTSP_STATUS_SESSION_TRANSMITTING \<and>
        m_rtsp_status s \<noteq> RTSP_STATUS_SESSION_TEARDOWNING)"

definition rtsp_ok :: "rtsp \<Rightarrow> bool" where
  "rtsp_ok s \<longleftrightarrow> config_ok (m_satip_config s) \<and> length (m_timer_list s) = 3 \<and>
     rx_ok s \<and> link_ok s \<and> wait_ok s \<and> sched_ok s"

lemma rtsp_ok_buffer:
  assumes "rtsp_ok s"
  shows "-1 \<le> m_rx_data_pos s" "m_rx_data_pos s < m_rx_data_len s" "int (length (m_rx_data s)) = m_rx_data_len s"
    "2048 \<le> m_rx_data_len s"
  using assms by (simp_all add: rtsp_ok_def rx_ok_def)

lemmas rtsp_ok_defs = rtsp_ok_def rx_ok_def link_ok_def wait_ok_def sched_ok_def

section \<open>Timers\<close>

lemma active_with_timer:
  "i < length (m_timer_list s) \<Longrightarrow>
   timer_active i (with_timer j f s) = (if i = j then m_active (f (m_timer_list s ! j)) else timer_active i s)"
  by (simp add: timer_active_def with_timer_def)

lemma with_timer_fields [simp]:
  "m_host (with_timer j f s) = m_host s" "m_port (with_timer j f s) = m_port s"
  "m_rtp (with_timer j f s) = m_rtp s" "m_satip_config (with_timer j f s) = m_satip_config s"
  "length (m_timer_list (with_timer j f s)) = length (m_timer_list s)"
  "m_reconnect_attempts (with_timer j f s) = m_reconnect_attempts s"
  "m_attempted_generation (with_timer j f s) = m_attempted_generation s"
  "m_fd (with_timer j f s) = m_fd s" "m_rx_data (with_timer j f s) = m_rx_data s"
  "m_rx_data_len (with_timer j f s) = m_rx_data_len s" "m_rx_data_pos (with_timer j f s) = m_rx_data_pos s"
  "m_rtsp_status (with_timer j f s) = m_rtsp_status s" "m_rtsp_request (with_timer j f s) = m_rtsp_request s"
  "m_rtsp_session_id (with_timer j f s) = m_rtsp_session_id s"
  "m_rtsp_stream_id (with_timer j f s) = m_rtsp_stream_id s"
  "m_rtsp_timeout (with_timer j f s) = m_rtsp_timeout s" "m_rtsp_cseq (with_timer j f s) = m_rtsp_cseq s"
  "m_wait_response (with_timer j f s) = m_wait_response s" "k_open (with_timer j f s) = k_open s"
  "k_sent (with_timer j f s) = k_sent s"
  by (simp_all add: with_timer_def)

lemma active_ops [simp]: "m_active (timer_start now d b t)" "\<not> m_active (timer_stop t)"
  by (simp_all add: timer_start_def timer_stop_def)

text \<open>Which timers run does not depend on the other fields.\<close>

lemma timer_active_cong [simp]:
  "timer_active i (s\<lparr>m_satip_config := c\<rparr>) = timer_active i s" "timer_active i (s\<lparr>m_rtp := r\<rparr>) = timer_active i s"
  "timer_active i (s\<lparr>m_reconnect_attempts := n\<rparr>) = timer_active i s"
  "timer_active i (s\<lparr>m_attempted_generation := g\<rparr>) = timer_active i s"
  "timer_active i (s\<lparr>m_fd := fd\<rparr>) = timer_active i s" "timer_active i (s\<lparr>m_rx_data := d\<rparr>) = timer_active i s"
  "timer_active i (s\<lparr>m_rx_data_pos := p\<rparr>) = timer_active i s" "timer_active i (s\<lparr>m_rtsp_status := st\<rparr>) = timer_active i s"
  "timer_active i (s\<lparr>m_rtsp_request := rq\<rparr>) = timer_active i s" "timer_active i (s\<lparr>m_rtsp_session_id := x\<rparr>) = timer_active i s"
  "timer_active i (s\<lparr>m_rtsp_stream_id := y\<rparr>) = timer_active i s" "timer_active i (s\<lparr>m_rtsp_timeout := y\<rparr>) = timer_active i s"
  "timer_active i (s\<lparr>m_rtsp_cseq := y\<rparr>) = timer_active i s" "timer_active i (s\<lparr>m_wait_response := b\<rparr>) = timer_active i s"
  "timer_active i (s\<lparr>k_open := ks\<rparr>) = timer_active i s" "timer_active i (s\<lparr>k_sent := ms\<rparr>) = timer_active i s"
  by (simp_all add: timer_active_def)

lemmas timer_ops = startTimerResetConnect_def stopTimerResetConnect_def startTimerKeepAliveMessage_def
  stopTimerKeepAliveMessage_def stopTimerReconnect_def active_with_timer

section \<open>Backoff\<close>

lemma reconnect_delay_eq: "n \<le> 5 \<Longrightarrow> reconnect_delay n = (if n < 5 then 1000 * 2 ^ n else 30000)"
proof -
  assume "n \<le> 5"
  then consider "n = 0" | "n = 1" | "n = 2" | "n = 3" | "n = 4" | "n = 5" by linarith
  then show ?thesis by cases (simp_all add: reconnect_delay_def s64_def push_bit_eq_mult)
qed

lemma startTimerReconnect_eq:
  assumes "m_reconnect_attempts s \<le> 5"
  shows "startTimerReconnect now s =
    (with_timer T_RECONNECT (timer_start now (reconnect_delay (m_reconnect_attempts s)) True) s)
      \<lparr>m_reconnect_attempts := min 5 (m_reconnect_attempts s + 1)\<rparr>"
proof -
  have "reconnect_delay (m_reconnect_attempts s) < 30000 \<longleftrightarrow> m_reconnect_attempts s < 5"
  proof (cases "m_reconnect_attempts s < 5")
    case True
    then have "(2 :: int) ^ m_reconnect_attempts s \<le> 2 ^ 4" by (intro power_increasing) auto
    then show ?thesis using True by (simp add: reconnect_delay_eq)
  qed (use assms in \<open>simp add: reconnect_delay_eq\<close>)
  then show ?thesis using assms by (simp add: startTimerReconnect_def Let_def with_timer_def min_def)
qed

section \<open>Resetting\<close>

lemma clearChannelChanged_ok: "config_ok (clearChannelChanged c) = config_ok c"
  by (rule same_pid_state_inv(1)) (rule setters_same_pid_state)

lemma clearChannelChanged_fields [simp]:
  "m_settings (clearChannelChanged c) = m_settings c" "m_requested_pids (clearChannelChanged c) = m_requested_pids c"
  "m_tune_generation (clearChannelChanged c) = m_tune_generation c"
  by (simp_all add: clearChannelChanged_def)

text \<open>The state after a reset, whatever it was before, as long as the buffer and timers exist.\<close>

definition rtsp_base :: "rtsp \<Rightarrow> bool" where
  "rtsp_base s \<longleftrightarrow> config_ok (m_satip_config s) \<and> length (m_timer_list s) = 3 \<and>
     int (length (m_rx_data s)) = m_rx_data_len s \<and> 2048 \<le> m_rx_data_len s \<and>
     k_open s = (if m_fd s = -1 then [] else [m_fd s]) \<and> (m_fd s = -1 \<longrightarrow> k_sent s = []) \<and> m_reconnect_attempts s \<le> 5"

lemma rtsp_ok_base: "rtsp_ok s \<Longrightarrow> rtsp_base s"
  by (simp add: rtsp_ok_defs rtsp_base_def)

lemma resetConnect_ok:
  assumes "rtsp_base s" "auto \<or> chan s \<noteq> CONFIG_STATUS_CHANNEL_STABLE"
  shows "rtsp_ok (resetConnect now auto s)"
  using assms
  by (auto simp: resetConnect_def Let_def close_fd_def rtsp_ok_defs rtsp_base_def timer_ops
      resetReconnectBackoff_def startTimerReconnect_eq clearChannelChanged_ok getChannelStatus_def)

lemma resetConnect_state:
  "m_rtsp_status (resetConnect now auto s) = RTSP_STATUS_CONFIG_WAITING"
  "m_wait_response (resetConnect now auto s) = False"
  "m_settings (m_satip_config (resetConnect now auto s)) = m_settings (m_satip_config s)"
  by (auto simp: resetConnect_def Let_def close_fd_def timer_ops resetReconnectBackoff_def startTimerReconnect_def)

section \<open>Sending\<close>

lemma m_status_requested [simp]: "m_status (requested c) = m_status c" "m_settings (requested c) = m_settings c"
  by (simp_all add: requested_def)

lemma m_status_tuned [simp]:
  "m_status (tuned c) = (if m_status c = CONFIG_STATUS_CHANNEL_CHANGED then CONFIG_STATUS_CHANNEL_STABLE else m_status c)"
  "m_settings (tuned c) = m_settings c"
  by (simp_all add: tuned_def set_pilots_def)

lemma query_config:
  assumes "config_ok c"
  shows "config_ok (fst (getSetupData c))" "config_ok (fst (getPlayData c))"
    "m_status (fst (getSetupData c)) = m_status (tuned c)" "m_status (fst (getPlayData c)) = m_status (tuned c)"
    "m_settings (fst (getSetupData c)) = m_settings c" "m_settings (fst (getPlayData c)) = m_settings c"
  using requested_ok(1) [OF tuned_ok(1) [OF assms]] config_ok_play [OF assms]
  by (simp_all add: getSetupData_eq [OF assms] getPlayData_eq [OF assms])

text \<open>The configuration after a request, and the two ways a request can go.\<close>

definition query_cfg :: "rtsp_request \<Rightarrow> config \<Rightarrow> config" where
  "query_cfg request c = (case request of RTSP_REQUEST_SETUP \<Rightarrow> fst (getSetupData c)
     | RTSP_REQUEST_PLAY \<Rightarrow> fst (getPlayData c) | _ \<Rightarrow> c)"

lemma query_cfg_ok:
  assumes "config_ok c"
  shows "config_ok (query_cfg request c)" "m_settings (query_cfg request c) = m_settings c"
    "m_status (query_cfg request c) =
       (if request = RTSP_REQUEST_SETUP \<or> request = RTSP_REQUEST_PLAY then m_status (tuned c) else m_status c)"
  using query_config [OF assms] assms by (simp_all add: query_cfg_def split: rtsp_request.split)

definition sent_with :: "string \<Rightarrow> config \<Rightarrow> rtsp \<Rightarrow> rtsp" where
  "sent_with tx c s =
     s\<lparr>m_satip_config := c, m_rtsp_cseq := s32 (m_rtsp_cseq s + 1), k_sent := k_sent s @ [tx]\<rparr>"

lemma config_same [simp]: "s\<lparr>m_satip_config := m_satip_config s\<rparr> = (s :: rtsp)"
  by simp

definition request_text :: "rtsp_request \<Rightarrow> rtsp \<Rightarrow> string" where
  "request_text request s = (case request of
       RTSP_REQUEST_SETUP \<Rightarrow> setup_text (snd (getSetupData (m_satip_config s))) (s\<lparr>m_satip_config := query_cfg request (m_satip_config s)\<rparr>)
     | RTSP_REQUEST_PLAY \<Rightarrow> play_text (snd (getPlayData (m_satip_config s))) (s\<lparr>m_satip_config := query_cfg request (m_satip_config s)\<rparr>)
     | RTSP_REQUEST_OPTION \<Rightarrow> option_text s | RTSP_REQUEST_TEARDOWN \<Rightarrow> teardown_text s
     | RTSP_REQUEST_DESCRIBE \<Rightarrow> describe_text s | RTSP_REQUEST_NONE \<Rightarrow> [])"

lemma send_by_kind_eq:
  "send_by_kind ok request s =
     (if request = RTSP_REQUEST_NONE \<or>
         no_session s \<and> request \<noteq> RTSP_REQUEST_SETUP \<and> request \<noteq> RTSP_REQUEST_DESCRIBE then (s, RTSP_ERROR)
      else send_msg ok (request_text request s) (next_cseq (s\<lparr>m_satip_config := query_cfg request (m_satip_config s)\<rparr>)))"
  by (cases request) (simp_all add: send_by_kind_def sendOption_def sendPlay_def sendTearDown_def sendSetup_def
      sendDescribe_def query_cfg_def request_text_def Let_def)

lemma send_by_kind_cases:
  obtains (refused) "send_by_kind ok request s = (s, RTSP_ERROR)"
  | (failed) "\<not> ok" "send_by_kind ok request s =
      (s\<lparr>m_satip_config := query_cfg request (m_satip_config s), m_rtsp_cseq := s32 (m_rtsp_cseq s + 1)\<rparr>, RTSP_ERROR)"
  | (sent) "ok" "request \<noteq> RTSP_REQUEST_NONE"
      "send_by_kind ok request s = (sent_with (request_text request s) (query_cfg request (m_satip_config s)) s, RTSP_OK)"
proof (cases "request = RTSP_REQUEST_NONE \<or>
    no_session s \<and> request \<noteq> RTSP_REQUEST_SETUP \<and> request \<noteq> RTSP_REQUEST_DESCRIBE")
  case True
  then show ?thesis by (intro refused) (simp add: send_by_kind_eq)
next
  case False
  then have eq: "send_by_kind ok request s = send_msg ok (request_text request s)
      (next_cseq (s\<lparr>m_satip_config := query_cfg request (m_satip_config s)\<rparr>))"
    by (auto simp: send_by_kind_eq)
  show ?thesis
  proof (cases ok)
    case True
    then show ?thesis
      using False eq by (intro sent) (simp_all add: send_msg_def next_cseq_def sent_with_def)
  next
    case False
    then show ?thesis using eq by (intro failed) (simp_all add: send_msg_def next_cseq_def)
  qed
qed

text \<open>After the session has been torn down nothing that tunes is sent.\<close>

lemma sendRequest_ok:
  assumes "rtsp_ok s"
    and "m_rtsp_status s \<noteq> RTSP_STATUS_CONFIG_WAITING" "m_rtsp_status s \<noteq> RTSP_STATUS_SERVER_CONNECTING"
    and "m_rtsp_status s = RTSP_STATUS_SESSION_TEARDOWNING \<longrightarrow> request \<noteq> RTSP_REQUEST_SETUP \<and> request \<noteq> RTSP_REQUEST_PLAY"
  shows "rtsp_ok (fst (sendRequest now ok request s))"
proof (cases "m_wait_response s")
  case True
  then show ?thesis using assms(1) by (simp add: sendRequest_def)
next
  case False
  let ?s = "stopTimerKeepAliveMessage s"
  have ok: "config_ok (m_satip_config ?s)" using assms(1) by (simp add: rtsp_ok_def timer_ops)
  note q = query_cfg_ok [OF ok, of request]
  have base: "rtsp_base (?s\<lparr>m_satip_config := query_cfg request (m_satip_config ?s), m_rtsp_cseq := n\<rparr>)" "rtsp_base ?s" for n
    using rtsp_ok_base [OF assms(1)] q(1) by (simp_all add: rtsp_base_def timer_ops)
  show ?thesis
  proof (cases rule: send_by_kind_cases [of ok request ?s])
    case refused
    then show ?thesis using False base by (simp add: sendRequest_def resetConnect_ok)
  next
    case failed
    then show ?thesis using False base by (simp add: sendRequest_def resetConnect_ok)
  next
    case sent
    then show ?thesis
      using False assms q
      by (auto simp: sendRequest_def sent_with_def rtsp_ok_defs timer_ops)
  qed
qed

lemma sendRequest_status:
  assumes "sendRequest now ok request s = (s', res)"
  shows "res = RTSP_OK \<longrightarrow> m_rtsp_status s' = m_rtsp_status s \<and> m_wait_response s' \<and> \<not> timer_active T_KEEP s' \<or> length (m_timer_list s) \<noteq> 3"
    "res \<noteq> RTSP_OK \<longrightarrow> s' = s \<or> m_rtsp_status s' = RTSP_STATUS_CONFIG_WAITING"
  using assms resetConnect_state(1)
  by (cases rule: send_by_kind_cases [of ok request "stopTimerKeepAliveMessage s"];
      force simp: sendRequest_def sent_with_def timer_ops split: if_splits)+

section \<open>Connecting\<close>

lemma connect_loop_open:
  "connect_loop result s = (s1, r) \<Longrightarrow>
   s1 = s\<lparr>k_open := (case r of None \<Rightarrow> k_open s | Some fd \<Rightarrow> int fd # k_open s)\<rparr>"
  by (induction result s rule: connect_loop.induct) (auto cong: option.case_cong)

lemma connectToServer_cases:
  obtains (failed) "connectToServer addrs s = (s, RTSP_ERROR)"
  | (connected) fd where "connectToServer addrs s =
      (s\<lparr>k_open := int fd # k_open s, m_fd := int fd, k_sent := []\<rparr>, RTSP_OK)"
proof (cases addrs)
  case None
  then show ?thesis by (intro failed) (simp add: connectToServer_def)
next
  case (Some result)
  obtain s1 r where c: "connect_loop result s = (s1, r)" by fastforce
  note s1 = connect_loop_open [OF c]
  show ?thesis
  proof (cases r)
    case None
    then show ?thesis using c s1 by (intro failed) (simp add: connectToServer_def Some)
  next
    case (Some fd)
    then show ?thesis using c s1 by (intro connected [of fd]) (simp add: connectToServer_def \<open>addrs = Some result\<close>)
  qed
qed

text \<open>The state in which a connection is attempted.\<close>

definition attempting :: "rtsp \<Rightarrow> rtsp" where
  "attempting s = (if m_tune_generation (m_satip_config s) > m_attempted_generation s
      then resetReconnectBackoff (stopTimerReconnect s) else s)\<lparr>m_attempted_generation := m_tune_generation (m_satip_config s)\<rparr>"

lemma attempting_fields [simp]:
  "m_satip_config (attempting s) = m_satip_config s" "m_fd (attempting s) = m_fd s" "k_open (attempting s) = k_open s"
  "m_rtsp_status (attempting s) = m_rtsp_status s" "m_reconnect_attempts s \<le> 5 \<Longrightarrow> m_reconnect_attempts (attempting s) \<le> 5"
  by (simp_all add: attempting_def resetReconnectBackoff_def timer_ops)

lemma waiting_run:
  assumes "m_rtsp_status s = RTSP_STATUS_CONFIG_WAITING" "chan s = CONFIG_STATUS_CHANNEL_CHANGED"
  obtains (joined) fd where "connectToServer addrs (attempting s) =
      ((attempting s)\<lparr>k_open := int fd # k_open s, m_fd := int fd, k_sent := []\<rparr>, RTSP_OK)"
      "handleRTSPStatus now addrs ok s = startTimerResetConnect now 5000
        ((attempting s)\<lparr>k_open := int fd # k_open s, m_fd := int fd, k_sent := [], m_rtsp_status := RTSP_STATUS_SERVER_CONNECTING\<rparr>)"
  | (refused) "connectToServer addrs (attempting s) = (attempting s, RTSP_ERROR)"
      "handleRTSPStatus now addrs ok s =
        startTimerReconnect now ((attempting s)\<lparr>m_satip_config := clearChannelChanged (m_satip_config s)\<rparr>)"
proof -
  have run: "handleRTSPStatus now addrs ok s = (case connectToServer addrs (attempting s) of (s3, res) \<Rightarrow>
      if res = RTSP_OK then startTimerResetConnect now 5000 (s3\<lparr>m_rtsp_status := RTSP_STATUS_SERVER_CONNECTING\<rparr>)
      else startTimerReconnect now (s3\<lparr>m_satip_config := clearChannelChanged (m_satip_config s3)\<rparr>))"
    by (simp add: handleRTSPStatus_def assms getChannelStatus_def Let_def attempting_def)
  show ?thesis
  proof (cases rule: connectToServer_cases [of addrs "attempting s"])
    case failed
    then show ?thesis by (intro refused) (simp_all add: run)
  next
    case (connected fd)
    then show ?thesis by (intro joined [of fd]) (simp_all add: run)
  qed
qed

lemma waiting_status_ok:
  assumes "rtsp_ok s" "m_rtsp_status s = RTSP_STATUS_CONFIG_WAITING" "chan s = CONFIG_STATUS_CHANNEL_CHANGED"
  shows "rtsp_ok (handleRTSPStatus now addrs ok s)"
proof -
  have ok: "rtsp_ok (attempting s)"
    using assms by (auto simp: rtsp_ok_defs resetReconnectBackoff_def timer_ops attempting_def)
  show ?thesis
  proof (cases rule: waiting_run [OF assms(2,3), of addrs now ok])
    case (1 fd)
    then show ?thesis
      unfolding 1(2) using ok assms(2) by (auto simp: rtsp_ok_defs timer_ops)
  next
    case 2
    then show ?thesis
      unfolding 2(2) using ok assms(2)
      by (auto simp: rtsp_ok_defs startTimerReconnect_eq timer_ops clearChannelChanged_ok)
  qed
qed

lemma handleRTSPStatus_ok:
  assumes "rtsp_ok s"
  shows "rtsp_ok (handleRTSPStatus now addrs ok s)"
proof (cases "m_rtsp_status s")
  case RTSP_STATUS_CONFIG_WAITING
  then show ?thesis
    using assms waiting_status_ok [OF assms, of now addrs ok]
    by (cases "chan s") (auto simp: handleRTSPStatus_def Let_def getChannelStatus_def rtsp_ok_defs
        resetReconnectBackoff_def timer_ops)
next
  case RTSP_STATUS_SESSION_ESTABLISHING
  then show ?thesis using sendRequest_ok [OF assms] by (simp add: handleRTSPStatus_def)
next
  case RTSP_STATUS_SESSION_PLAYING
  then show ?thesis using sendRequest_ok [OF assms] by (simp add: handleRTSPStatus_def)
next
  case RTSP_STATUS_SESSION_TRANSMITTING
  have trans: "rtsp_ok (case sendRequest now ok rq s of (s1, res) \<Rightarrow> if res = RTSP_OK then s1\<lparr>m_rtsp_status := st\<rparr> else s1)"
    if "st = RTSP_STATUS_SESSION_PLAYING \<or> st = RTSP_STATUS_SESSION_TEARDOWNING \<and> rq = RTSP_REQUEST_TEARDOWN \<and>
      chan s = CONFIG_STATUS_CHANNEL_INVALID" for rq st
  proof -
    obtain s1 res where r: "sendRequest now ok rq s = (s1, res)" by fastforce
    have ok1: "rtsp_ok s1" using sendRequest_ok [OF assms, of rq now ok] RTSP_STATUS_SESSION_TRANSMITTING r by simp
    have "chan s1 = CONFIG_STATUS_CHANNEL_INVALID" if "rq = RTSP_REQUEST_TEARDOWN" "res = RTSP_OK" "chan s = CONFIG_STATUS_CHANNEL_INVALID"
      using r that by (cases rule: send_by_kind_cases [of ok rq "stopTimerKeepAliveMessage s"])
        (auto simp: sendRequest_def sent_with_def timer_ops query_cfg_def split: if_splits)
    moreover have "m_rtsp_status s1 = RTSP_STATUS_SESSION_TRANSMITTING \<and> \<not> timer_active T_KEEP s1" if "res = RTSP_OK"
      using that sendRequest_status(1) [OF r] assms RTSP_STATUS_SESSION_TRANSMITTING by (simp add: rtsp_ok_def)
    ultimately show ?thesis
      using that ok1 by (cases "res = RTSP_OK") (auto simp: r rtsp_ok_defs)
  qed
  show ?thesis
    using RTSP_STATUS_SESSION_TRANSMITTING assms trans
    by (auto simp: handleRTSPStatus_def Let_def getChannelStatus_def rtsp_ok_defs timer_ops)
qed (use assms in \<open>simp_all add: handleRTSPStatus_def\<close>)

section \<open>Timer dispatch\<close>

lemma settle_active: "m_active (settle ts t) \<Longrightarrow> m_active t"
  by (auto simp: settle_def split: if_splits)

text \<open>Settling a timer can only stop it, which is harmless unless the state relies on it.\<close>

lemma settle_ok:
  assumes "rtsp_ok s" "i < 3"
    and "i = T_RESET \<longrightarrow> \<not> m_wait_response s \<and> m_rtsp_status s \<noteq> RTSP_STATUS_SERVER_CONNECTING"
    and "i = T_RECONNECT \<longrightarrow> m_rtsp_status s \<noteq> RTSP_STATUS_CONFIG_WAITING \<or> chan s \<noteq> CONFIG_STATUS_CHANNEL_STABLE"
  shows "rtsp_ok (m_timer_list_update (\<lambda>l. l[i := settle ts (l ! i)]) s)"
proof -
  let ?s = "with_timer i (settle ts) s"
  have len: "length (m_timer_list s) = 3" using assms(1) by (simp add: rtsp_ok_def)
  have less: "timer_active j ?s \<longrightarrow> timer_active j s" and same: "j \<noteq> i \<longrightarrow> timer_active j ?s = timer_active j s"
    if "j < 3" for j
    using that len assms(2) settle_active [of ts "m_timer_list s ! i"]
    by (auto simp: with_timer_def timer_active_def nth_list_update split: if_splits)
  have "wait_ok ?s" using assms same [of T_RESET] by (auto simp: rtsp_ok_def wait_ok_def)
  moreover have "sched_ok ?s"
  proof -
    have "timer_active T_RECONNECT ?s" if "m_rtsp_status s = RTSP_STATUS_CONFIG_WAITING" "chan s = CONFIG_STATUS_CHANNEL_STABLE"
      using assms that same [of T_RECONNECT] by (auto simp: rtsp_ok_def sched_ok_def)
    then show ?thesis
      using assms(1) less [of T_KEEP] less [of T_RECONNECT] by (auto simp: rtsp_ok_def sched_ok_def)
  qed
  ultimately have "rtsp_ok ?s" using assms(1) by (simp add: rtsp_ok_def rx_ok_def link_ok_def)
  moreover have "m_timer_list_update (\<lambda>l. l[i := settle ts (l ! i)]) s = ?s"
    by (cases s) (simp add: with_timer_def)
  ultimately show ?thesis by simp
qed

lemma timeoutReconnect_ok:
  assumes "rtsp_ok s"
  shows "rtsp_ok (timeoutReconnect s)" "chan (timeoutReconnect s) \<noteq> CONFIG_STATUS_CHANNEL_STABLE"
proof -
  have "config_ok (setChannelRetry (m_satip_config s))"
    using assms same_pid_state_inv(1) [OF setters_same_pid_state(16), of "m_satip_config s"] by (simp add: rtsp_ok_def)
  then show "rtsp_ok (timeoutReconnect s)" "chan (timeoutReconnect s) \<noteq> CONFIG_STATUS_CHANNEL_STABLE"
    using assms
    by (cases "chan s"; auto simp: timeoutReconnect_def getChannelStatus_def resetReconnectBackoff_def
        rtsp_ok_defs setChannelRetry_def)+
qed

lemma handler_length:
  "length (m_timer_list (rtsp_handler ok now i s)) = length (m_timer_list s)"
proof -
  have "length (m_timer_list (resetConnect now a s')) = length (m_timer_list s')" for a s'
    by (simp add: resetConnect_def Let_def close_fd_def timer_ops resetReconnectBackoff_def startTimerReconnect_def)
  then show ?thesis
    by (cases rule: send_by_kind_cases [of ok RTSP_REQUEST_OPTION "stopTimerKeepAliveMessage s"])
      (auto simp: rtsp_handler_def timeoutConnect_def timeoutKeepAlive_def timeoutReconnect_def
        sendRequest_def sent_with_def timer_ops resetReconnectBackoff_def split: t_channel_status.split)
qed

lemma handler_ok:
  assumes "rtsp_ok s" "i < length (m_timer_list s)" "m_active (m_timer_list s ! i)"
  shows "rtsp_ok (m_timer_list_update (\<lambda>l. l[i := settle now (l ! i)]) (rtsp_handler ok now i s))"
proof -
  have "m_rtsp_status s = RTSP_STATUS_SESSION_TRANSMITTING" if "i = T_KEEP"
    using assms that by (simp add: rtsp_ok_defs timer_active_def)
  then have keep: "rtsp_ok (timeoutKeepAlive now ok s)" if "i = T_KEEP"
    using that sendRequest_ok [OF assms(1)] by (simp add: timeoutKeepAlive_def)
  have reset: "rtsp_ok (timeoutConnect now s)"
    unfolding timeoutConnect_def by (rule resetConnect_ok) (simp_all add: rtsp_ok_base assms(1))
  have "i < 3" using assms by (simp add: rtsp_ok_def)
  then consider "i = T_RESET" | "i = T_KEEP" | "i = T_RECONNECT" by linarith
  then have "rtsp_ok (rtsp_handler ok now i s) \<and>
      (i = T_RESET \<longrightarrow> \<not> m_wait_response (rtsp_handler ok now i s) \<and>
        m_rtsp_status (rtsp_handler ok now i s) \<noteq> RTSP_STATUS_SERVER_CONNECTING) \<and>
      (i = T_RECONNECT \<longrightarrow> chan (rtsp_handler ok now i s) \<noteq> CONFIG_STATUS_CHANNEL_STABLE)"
  proof cases
    case 1
    then show ?thesis using reset by (simp add: rtsp_handler_def timeoutConnect_def resetConnect_state)
  next
    case 2
    then show ?thesis using keep by (simp add: rtsp_handler_def)
  next
    case 3
    then show ?thesis using timeoutReconnect_ok [OF assms(1)] by (simp add: rtsp_handler_def)
  qed
  then show ?thesis using \<open>i < 3\<close> by (intro settle_ok) auto
qed

interpretation rtsp_timers: timer_host m_timer_list m_timer_list_update "rtsp_handler ok" rtsp_ok for ok
  by unfold_locales (simp_all add: handler_length handler_ok)

lemma handleNextTimer_ok: "rtsp_ok s \<Longrightarrow> rtsp_ok (handleNextTimer now ok s)"
  unfolding handleNextTimer_def by (rule rtsp_timers.callNextTimer_inv)

section \<open>Responses\<close>

definition live :: "rtsp \<Rightarrow> bool" where
  "live s \<longleftrightarrow> m_rtsp_status s \<noteq> RTSP_STATUS_CONFIG_WAITING \<and> m_rtsp_status s \<noteq> RTSP_STATUS_SERVER_CONNECTING"

text \<open>Everything but the session's parameters, the waiting flag and the timers stays.\<close>

definition header_frame :: "rtsp \<Rightarrow> rtsp \<Rightarrow> bool" where
  "header_frame s s1 \<longleftrightarrow> m_host s1 = m_host s \<and> m_port s1 = m_port s \<and> m_rtp s1 = m_rtp s \<and>
     m_satip_config s1 = m_satip_config s \<and> m_reconnect_attempts s1 = m_reconnect_attempts s \<and>
     m_attempted_generation s1 = m_attempted_generation s \<and> m_fd s1 = m_fd s \<and> m_rx_data s1 = m_rx_data s \<and>
     m_rx_data_len s1 = m_rx_data_len s \<and> m_rtsp_status s1 = m_rtsp_status s \<and>
     m_rtsp_request s1 = m_rtsp_request s \<and> m_rtsp_cseq s1 = m_rtsp_cseq s \<and> k_open s1 = k_open s \<and>
     k_sent s1 = k_sent s \<and> length (m_timer_list s1) = length (m_timer_list s)"

lemma response_by_kind_frame:
  assumes "response_by_kind rx res s = Some (s1, res1)"
  shows "header_frame s s1 \<and> m_timer_list s1 = m_timer_list s \<and> m_wait_response s1 = m_wait_response s \<and>
    m_rx_data_pos s1 = m_rx_data_pos s"
  using assms
  by (auto simp: response_by_kind_def handleResponseSetup_def handleResponsePlay_def header_frame_def
      handleResponseOption_def handleResponseTeardown_def response_timeout_def Let_def
      split: rtsp_request.splits option.splits if_splits)

lemma response_header_ok:
  assumes "rtsp_ok s" "live s" "response_header now rx res code s = Some (s1, res1, code1, go)"
  shows "if go then rtsp_ok (s1\<lparr>m_rtsp_request := RTSP_REQUEST_NONE\<rparr>) \<and> header_frame s s1 \<and>
      m_rx_data_pos s1 = m_rx_data_pos s \<and> \<not> m_wait_response s1
    else rtsp_ok s1 \<and> res1 = RTSP_ERROR \<and> m_rtsp_status s1 = RTSP_STATUS_CONFIG_WAITING \<and>
      m_settings (m_satip_config s1) = m_settings (m_satip_config s)"
proof -
  have cleared: "rtsp_ok (s2\<lparr>m_rtsp_request := RTSP_REQUEST_NONE\<rparr>) \<and> rtsp_ok ((stopTimerResetConnect s2)\<lparr>m_rtsp_request := RTSP_REQUEST_NONE\<rparr>)"
    if "header_frame s s2" "m_timer_list s2 = m_timer_list s" "m_rx_data_pos s2 = m_rx_data_pos s" "\<not> m_wait_response s2" for s2
  proof -
    have "timer_active i s2 = timer_active i s" for i by (simp add: timer_active_def that(2))
    then show ?thesis
      using assms(1,2) that unfolding header_frame_def live_def
      by (simp add: rtsp_ok_defs timer_ops)
  qed
  have fail: "rtsp_ok (resetConnect now True s2)" if "header_frame s s2" for s2
    using that rtsp_ok_base [OF assms(1)] by (intro resetConnect_ok) (simp_all add: header_frame_def rtsp_base_def)
  show ?thesis
  proof (cases "m_rtsp_request s = RTSP_REQUEST_DESCRIBE")
    case True
    then show ?thesis
      using assms(3) cleared [of "s\<lparr>m_wait_response := False\<rparr>"]
      by (auto simp: response_header_def handleResponseDescribe_def Let_def header_frame_def timer_ops)
  next
    case False
    let ?s = "s\<lparr>m_wait_response := False\<rparr>"
    let ?r = "if scan_status rx code \<noteq> 200 then Some (?s\<lparr>m_rx_data_pos := 0\<rparr>, RTSP_ERROR) else response_by_kind rx res ?s"
    obtain s2 r2 where r: "?r = Some (s2, r2)"
      "(s1, res1, code1, go) = (if r2 = RTSP_ERROR then (resetConnect now True s2, RTSP_ERROR, scan_status rx code, False)
        else if r2 = RTSP_RESPONSE_COMPLETE then (stopTimerResetConnect s2, r2, scan_status rx code, True)
        else (s2, r2, scan_status rx code, True))"
      using assms(3) False by (auto simp: response_header_def Let_def split: if_splits elim!: bind_SomeE)
    have f: "header_frame s s2 \<and> m_timer_list s2 = m_timer_list s \<and> \<not> m_wait_response s2 \<and>
        (r2 \<noteq> RTSP_ERROR \<longrightarrow> m_rx_data_pos s2 = m_rx_data_pos s)"
      using r(1) response_by_kind_frame [of rx res ?s s2 r2] by (auto simp: header_frame_def split: if_splits)
    show ?thesis
    proof (cases "r2 = RTSP_ERROR")
      case True
      then show ?thesis using r(2) f fail resetConnect_state by (simp add: header_frame_def)
    next
      case False
      then show ?thesis using r(2) f cleared [of s2] by (auto simp: header_frame_def timer_ops split: if_splits)
    qed
  qed
qed

text \<open>An interleaved frame: only the watchdog, the RTP object, the tap and the buffer change.\<close>

lemma rtpTcpData_ok:
  assumes "config_ok c" "rtpTcpData e m n (r, c) = Some ((r', c'), x)"
  shows "config_ok c' \<and> m_status c' = m_status c \<and> m_requested_pids c' = m_requested_pids c \<and> x = 0"
proof -
  have tap: "config_ok c' \<and> m_status c' = m_status c \<and> m_requested_pids c' = m_requested_pids c"
    if "to_tap n0 n1 d (r0, c) = Some (r1, c')" for n0 n1 d r0 r1
    using that tap_data_ok [OF assms(1), of "length d" d n0 n1] assms(1) by (auto simp: to_tap_def split: if_splits)
  show ?thesis
    using assms
    by (auto simp: rtpTcpData_def Let_def split: if_splits elim!: bind_SomeE dest!: tap)
qed

lemma tap_data_settings: "tap_data n0 n1 d n c = Some c' \<Longrightarrow> m_settings c' = m_settings c"
proof -
  have "m_settings (fold setCaPids reps c) = m_settings c" for reps c
    by (induction reps arbitrary: c) (simp_all add: setCaPids_def wakeup_def)
  then show "tap_data n0 n1 d n c = Some c' \<Longrightarrow> m_settings c' = m_settings c"
    by (auto simp: tap_data_def run_psi_def split: option.splits)
qed

lemma rtpTcpData_settings:
  "rtpTcpData e m n (r, c) = Some ((r', c'), x) \<Longrightarrow> m_settings c' = m_settings c"
  by (auto simp: rtpTcpData_def to_tap_def Let_def split: if_splits elim!: bind_SomeE)
    (rule tap_data_settings)

lemma move_front_length: "move_front m k n = Some d \<Longrightarrow> length d = length m"
  by (auto simp: move_front_def rd_range_def split: if_splits)

lemma rx_update_ok:
  assumes "rtsp_ok s" "length d = length (m_rx_data s)" "0 \<le> p" "p \<le> m_rx_data_pos s"
  shows "rtsp_ok (s\<lparr>m_rx_data := d, m_rx_data_pos := p\<rparr>)"
  using assms by (auto simp: rtsp_ok_defs)

lemma frame_update_ok:
  assumes "rtsp_ok s" "config_ok c" "m_status c = chan s" "length d = length (m_rx_data s)" "0 \<le> p" "p \<le> m_rx_data_pos s"
  shows "rtsp_ok ((startTimerResetConnect now n s)\<lparr>m_rtp := r, m_satip_config := c, m_rx_data := d, m_rx_data_pos := p\<rparr>)"
  using assms by (auto simp: rtsp_ok_defs timer_ops)

text \<open>What handling received data does to the session.\<close>

definition handled :: "rtsp \<Rightarrow> rtsp \<Rightarrow> rtsp_res \<Rightarrow> bool" where
  "handled s s' res \<longleftrightarrow> rtsp_ok s' \<and> m_settings (m_satip_config s') = m_settings (m_satip_config s) \<and>
     (if m_rtsp_status s' = RTSP_STATUS_CONFIG_WAITING then res = RTSP_ERROR
      else m_rtsp_status s' = m_rtsp_status s \<and> chan s' = chan s \<and> k_sent s' = k_sent s \<and>
        m_host s' = m_host s \<and> m_port s' = m_port s \<and>
        m_requested_pids (m_satip_config s') = m_requested_pids (m_satip_config s)) \<and>
     (res = RTSP_RESPONSE_COMPLETE \<longrightarrow> \<not> m_wait_response s')"

lemma handled_trans:
  assumes "handled s2 s' res" "live s" "m_rtsp_status s2 = m_rtsp_status s" "chan s2 = chan s" "k_sent s2 = k_sent s"
    "m_host s2 = m_host s" "m_port s2 = m_port s" "m_settings (m_satip_config s2) = m_settings (m_satip_config s)"
    "m_requested_pids (m_satip_config s2) = m_requested_pids (m_satip_config s)"
  shows "handled s s' res"
  using assms by (auto simp: handled_def)

lemma rx_frame_ok:
  assumes "rtsp_ok s" "rx_frame now e n s = Some (s1, x)" "int n \<le> m_rx_data_pos s"
  shows "rtsp_ok s1" "x = 0" "m_rtsp_status s1 = m_rtsp_status s" "chan s1 = chan s" "k_sent s1 = k_sent s"
    "m_host s1 = m_host s" "m_port s1 = m_port s" "m_settings (m_satip_config s1) = m_settings (m_satip_config s)"
    "m_requested_pids (m_satip_config s1) = m_requested_pids (m_satip_config s)"
proof -
  obtain r c d where t: "rtpTcpData e (m_rx_data s) n (m_rtp s, m_satip_config s) = Some ((r, c), x)"
    "move_front (m_rx_data s) n (nat (m_rx_data_pos s) - n) = Some d"
    "s1 = (startTimerResetConnect now 4000 s)\<lparr>m_rtp := r, m_satip_config := c, m_rx_data := d,
       m_rx_data_pos := m_rx_data_pos s - int n\<rparr>"
    using assms(2) by (auto simp: rx_frame_def Let_def timer_ops elim!: bind_SomeE)
  have "config_ok (m_satip_config s)" using assms(1) by (simp add: rtsp_ok_def)
  note c = rtpTcpData_ok [OF this t(1)] rtpTcpData_settings [OF t(1)]
  show "rtsp_ok s1"
    unfolding t(3) using assms(1,3) c move_front_length [OF t(2)] by (intro frame_update_ok) auto
  show "x = 0" "m_rtsp_status s1 = m_rtsp_status s" "chan s1 = chan s" "k_sent s1 = k_sent s"
    "m_host s1 = m_host s" "m_port s1 = m_port s" "m_settings (m_satip_config s1) = m_settings (m_satip_config s)"
    "m_requested_pids (m_satip_config s1) = m_requested_pids (m_satip_config s)"
    using c by (simp_all add: t(3) timer_ops)
qed

lemma response_loop_ok:
  "rtsp_ok s \<Longrightarrow> live s \<Longrightarrow> response_loop now env res code s = Some (s', res') \<Longrightarrow> handled s s' res'"
proof (induction "nat (m_rx_data_pos s)" arbitrary: env res code s rule: less_induct)
  case less
  note ok = less.prems(1) and live = less.prems(2)
  have self: "handled s s x" if "x = RTSP_ERROR \<or> x = RTSP_OK" for x
    using ok live that by (auto simp: handled_def live_def)
  have ok': "rtsp_ok (s\<lparr>m_rx_data := m\<rparr>)" if "wr (m_rx_data s) (m_rx_data_pos s) 0 = Some m" for m
    using ok that by (auto simp: rtsp_ok_defs wr_def split: if_splits)
  have partial: "handled s (s\<lparr>m_rx_data := m\<rparr>) RTSP_OK" if "wr (m_rx_data s) (m_rx_data_pos s) 0 = Some m" for m
    using ok' [OF that] live by (simp add: handled_def live_def)
  have failed: ?case if "wr (m_rx_data s) (m_rx_data_pos s) 0 = Some m"
    "response_header now rx res code (s\<lparr>m_rx_data := m\<rparr>) = Some (s', res', code1, False)" for m rx code1
    using response_header_ok [OF ok' [OF that(1)] _ that(2)] live by (simp add: handled_def live_def)
  have frame: ?case if "frame_length s = Some n" "\<not> m_rx_data_pos s < int n" "rx_frame now (env 0) n s = Some t"
    "response_loop now (\<lambda>k. env (Suc k)) res code (fst t) = Some (s', res')" for n t
  proof -
    note f = rx_frame_ok [OF ok, of now "env 0" n "fst t" "snd t"]
    have pos: "int n \<le> m_rx_data_pos s" "rx_frame now (env 0) n s = Some (fst t, snd t)" using that by simp_all
    have "handled (fst t) s' res'"
      using that(4) f [OF pos(2,1)] live rx_frame_pos [OF pos(2)] frame_length_min [OF that(1)] pos(1)
      by (intro less.hyps) (auto simp: live_def)
    then show ?thesis by (rule handled_trans) (use f [OF pos(2,1)] live in simp_all)
  qed
  have complete: ?case if c: "wr (m_rx_data s) (m_rx_data_pos s) 0 = Some m" "c_string m = Some rx"
    "strstr rx header_end = Some p" "response_header now rx res code (s\<lparr>m_rx_data := m\<rparr>) = Some (s1, res1, code1, True)"
    "rx_complete (length rx - length p + 4) s1 = Some s2"
    "(if m_rx_data_pos s2 > 0 then response_loop now env res1 code1 s2 else Some (s2, res1)) = Some (s', res')"
    for m rx p s1 res1 code1 s2
  proof -
    let ?s1 = "s1\<lparr>m_rtsp_request := RTSP_REQUEST_NONE\<rparr>"
    have "live (s\<lparr>m_rx_data := m\<rparr>)" using live by (simp add: live_def)
    note h = response_header_ok [OF ok' [OF c(1)] this c(4), simplified]
    obtain d where d0: "s2 = s1\<lparr>m_rx_data := d, m_rx_data_pos := int (nat (m_rx_data_pos s1) - (length rx - length p + 4)),
        m_rtsp_request := RTSP_REQUEST_NONE\<rparr>" "length d = length (m_rx_data s1)"
      using c(5) by (auto simp: rx_complete_def Let_def dest: move_front_length elim!: bind_SomeE)
    have d: "s2 = ?s1\<lparr>m_rx_data := d, m_rx_data_pos := int (nat (m_rx_data_pos s1) - (length rx - length p + 4))\<rparr>"
      by (cases s1) (simp add: d0(1))
    have "0 \<le> m_rx_data_pos s1" using h c(1) by (simp add: wr_def split: if_splits)
    then have ok2: "rtsp_ok s2" unfolding d using h d0(2) by (intro rx_update_ok) auto
    have same: "m_rtsp_status s2 = m_rtsp_status s" "chan s2 = chan s" "k_sent s2 = k_sent s" "m_host s2 = m_host s"
      "m_port s2 = m_port s" "m_settings (m_satip_config s2) = m_settings (m_satip_config s)"
      "m_requested_pids (m_satip_config s2) = m_requested_pids (m_satip_config s)" "\<not> m_wait_response s2"
      using h by (simp_all add: d header_frame_def)
    have "handled s2 s' res'"
    proof (cases "m_rx_data_pos s2 > 0")
      case True
      then show ?thesis
        using c(6) ok2 same(1) live rx_complete_less [OF c(1-5) True]
        by (intro less.hyps) (auto simp: live_def)
    next
      case False
      then show ?thesis using c(6) ok2 same(1,8) live by (auto simp: handled_def live_def)
    qed
    then show ?thesis using live same(1-7) by (rule handled_trans)
  qed
  show ?case
    using less.prems(3) [unfolded response_loop.simps [of now env res code s]]
  proof (elim run_elims case_elims, goal_cases)
    case (4 b n t)
    then show ?case using rx_frame_ok(2) [OF ok, of now "env 0" n "fst t" "snd t"] by simp
  next
    case (5 b n t)
    then show ?case by (intro frame)
  qed (use self partial failed complete in \<open>auto\<close>)
qed

text \<open>
  Reading. A failing \<^verbatim>\<open>recv\<close> with an empty buffer moves the position in front of the buffer; from
  there no further read is defined, and only a reset brings it back.
\<close>

lemma handleResponse_cases:
  assumes "rtsp_ok s" "live s" "handleResponse now env rcv s = Some (s', res)"
  obtains (stop) p where "s' = s\<lparr>m_rx_data_pos := p\<rparr>" "res = RTSP_ERROR" "0 \<le> p" "p \<le> m_rx_data_pos s"
  | (loop) d p where "rtsp_ok (s\<lparr>m_rx_data := d, m_rx_data_pos := p\<rparr>)"
      "response_loop now env RTSP_ERROR 0 (s\<lparr>m_rx_data := d, m_rx_data_pos := p\<rparr>) = Some (s', res)"
proof -
  let ?len = "m_rx_data_len s - m_rx_data_pos s - 1"
  have rx: "int (length (m_rx_data s)) = m_rx_data_len s" "m_rx_data_pos s < m_rx_data_len s" "2048 \<le> m_rx_data_len s"
    using assms(1) by (simp_all add: rtsp_ok_defs)
  show thesis
  proof (cases "?len = 0")
    case True
    then have "s' = s\<lparr>m_rx_data_pos := 0\<rparr>" "res = RTSP_ERROR" using assms(3) by (simp_all add: handleResponse_def)
    then show ?thesis by (rule stop) (use rx True in simp_all)
  next
    case False
    then have rx: "int (length (m_rx_data s)) = m_rx_data_len s" "0 \<le> m_rx_data_pos s" "m_rx_data_pos s < m_rx_data_len s"
      using assms(3) rx by (simp_all add: handleResponse_def Let_def split: if_splits)
    show ?thesis
    proof (cases "\<exists>d. rcv = Recv d")
      case True
      then obtain d0 where d0: "rcv = Recv d0" by blast
      let ?d = "take (nat ?len) d0" and ?p = "nat (m_rx_data_pos s)"
      let ?m = "take ?p (m_rx_data s) @ ?d @ drop (?p + length ?d) (m_rx_data s)"
      have n: "int (length ?d) \<le> ?len" using rx by simp
      have run: "(if ?d = [] then Some (s, RTSP_ERROR) else response_loop now env RTSP_ERROR 0
          (s\<lparr>m_rx_data := ?m, m_rx_data_pos := m_rx_data_pos s + int (length ?d)\<rparr>)) = Some (s', res)"
        using assms(3) False rx by (simp only: handleResponse_def Let_def d0 recv_res.case) simp
      show ?thesis
      proof (cases "?d = []")
        case True
        then have "s' = s\<lparr>m_rx_data_pos := m_rx_data_pos s\<rparr>" "res = RTSP_ERROR" using run by simp_all
        then show ?thesis by (rule stop) (use rx in simp_all)
      next
        case some: False
        have "length ?m = length (m_rx_data s)" using rx n by simp
        then have "rtsp_ok (s\<lparr>m_rx_data := ?m, m_rx_data_pos := m_rx_data_pos s + int (length ?d)\<rparr>)"
          using assms(1,2) rx n by (simp add: rtsp_ok_defs live_def)
        then show ?thesis using run some by (intro loop) simp_all
      qed
    next
      case no: False
      have "rtsp_ok (s\<lparr>m_rx_data := m_rx_data s, m_rx_data_pos := m_rx_data_pos s - 1\<rparr>)"
        using assms(1,2) rx by (simp add: rtsp_ok_defs live_def)
      moreover have "response_loop now env RTSP_ERROR 0
          (s\<lparr>m_rx_data := m_rx_data s, m_rx_data_pos := m_rx_data_pos s - 1\<rparr>) = Some (s', res)"
        using assms(3) False rx no by (cases rcv) (simp_all add: handleResponse_def Let_def)
      ultimately show ?thesis by (rule loop)
    qed
  qed
qed

lemma handleResponse_ok:
  assumes "rtsp_ok s" "live s" "handleResponse now env rcv s = Some (s', res)"
  shows "handled s s' res"
  using assms
proof (cases rule: handleResponse_cases)
  case (stop p)
  then have "rtsp_ok s'" using assms(1,2) by (auto simp: rtsp_ok_defs live_def)
  then show ?thesis using stop assms(2) by (simp add: handled_def live_def)
next
  case (loop d p)
  then have "handled (s\<lparr>m_rx_data := d, m_rx_data_pos := p\<rparr>) s' res"
    using assms(2) by (intro response_loop_ok) (simp_all add: live_def)
  then show ?thesis by (rule handled_trans) (use assms(2) in simp_all)
qed

lemma handlePollEvents_ok:
  assumes "rtsp_ok s" "handlePollEvents now env rcv events s = Some s'"
  shows "rtsp_ok s'"
proof -
  have reset: "rtsp_ok (resetConnect now True s)" using assms(1) by (simp add: resetConnect_ok rtsp_ok_base)
  have played: "rtsp_ok (s1\<lparr>m_rtsp_status := RTSP_STATUS_SESSION_PLAYING\<rparr>)"
    if "handled s s1 RTSP_RESPONSE_COMPLETE" "m_rtsp_status s = RTSP_STATUS_SESSION_ESTABLISHING" for s1
    using that by (auto simp: handled_def rtsp_ok_defs split: if_splits)
  have transmits: "rtsp_ok (resetReconnectBackoff (stopTimerReconnect (s1\<lparr>m_rtsp_status := RTSP_STATUS_SESSION_TRANSMITTING\<rparr>)))"
    if "handled s s1 RTSP_RESPONSE_COMPLETE" "m_rtsp_status s = RTSP_STATUS_SESSION_PLAYING" for s1
    using that by (auto simp: handled_def rtsp_ok_defs resetReconnectBackoff_def timer_ops split: if_splits)
  show ?thesis
  proof (cases "POLLHUP \<in> events \<or> POLLERR \<in> events \<or> POLLNVAL \<in> events")
    case True
    then show ?thesis using assms(2) reset by (auto simp: handlePollEvents_def)
  next
    case False
    note run = assms(2) [unfolded handlePollEvents_def]
    show ?thesis
    proof (cases "m_rtsp_status s = RTSP_STATUS_CONFIG_WAITING \<or> m_rtsp_status s = RTSP_STATUS_SERVER_CONNECTING \<or> POLLIN \<notin> events")
      case True
      then show ?thesis
        using run False assms(1)
        by (cases "m_rtsp_status s") (auto simp: rtsp_ok_defs timer_ops split: if_splits)
    next
      case rd: False
      then have live: "live s" by (simp add: live_def)
      obtain s1 res where h: "handleResponse now env rcv s = Some (s1, res)"
        using run False rd by (cases "m_rtsp_status s") (auto elim!: bind_SomeE)
      note ok = handleResponse_ok [OF assms(1) live h]
      show ?thesis
      proof (cases "res = RTSP_RESPONSE_COMPLETE")
        case True
        show ?thesis
        proof (cases "m_rtsp_status s")
          case RTSP_STATUS_SESSION_TEARDOWNING
          then have "chan s1 \<noteq> CONFIG_STATUS_CHANNEL_STABLE" "rtsp_base s1"
            using ok True assms(1)
            by (auto simp: handled_def rtsp_ok_base rtsp_ok_def sched_ok_def split: if_splits)
          then have "rtsp_ok (resetConnect now False s1)" by (intro resetConnect_ok) auto
          then show ?thesis using run False rd h True RTSP_STATUS_SESSION_TEARDOWNING by auto
        qed (use run False rd h True played [OF ok [unfolded True]] transmits [OF ok [unfolded True]] ok in \<open>auto simp: handled_def\<close>)
      next
        case nc: False
        then have "s' = s1" using run False rd h by (cases "m_rtsp_status s") auto
        then show ?thesis using ok by (simp add: handled_def)
      qed
    qed
  qed
qed

end
