(* ===== verification/Rtsp_Session.thy ===== *)
theory Rtsp_Session
  imports Rtsp_Inv
begin

text \<open>
  The RTSP client as a transition system: the three entry points the session's loop calls, and
  changes of the configuration from outside (the kernel's messages, the tap). Shown: the invariant
  holds in every reachable state, no wanted session is ever left without a pending timer or
  an immediate next step, the retry delays double up to their limit, and a lost session is
  retried after its delay.
\<close>

section \<open>Reachable states\<close>

text \<open>A change from outside never marks a channel as tuned, and keeps the settings.\<close>

definition outside :: "config \<Rightarrow> config \<Rightarrow> bool" where
  "outside c c' \<longleftrightarrow> config_ok c' \<and> m_settings c' = m_settings c \<and>
     (m_status c' = CONFIG_STATUS_CHANNEL_STABLE \<longrightarrow> m_status c = CONFIG_STATUS_CHANNEL_STABLE)"

inductive rtsp_step :: "rtsp \<Rightarrow> rtsp \<Rightarrow> bool" where
  status: "rtsp_step s (handleRTSPStatus now addrs ok s)"
| timer: "rtsp_step s (handleNextTimer now ok s)"
| poll: "handlePollEvents now env rcv events s = Some s' \<Longrightarrow> rtsp_step s s'"
| change: "outside (m_satip_config s) c \<Longrightarrow> rtsp_step s (s\<lparr>m_satip_config := c\<rparr>)"

inductive_cases rtsp_stepE: "rtsp_step s s'"

inductive rtsp_reach :: "rtsp \<Rightarrow> bool" where
  start: "config_ok c \<Longrightarrow> m_status c = CONFIG_STATUS_CHANNEL_INVALID \<Longrightarrow>
    rtsp_reach (satipRTSP raw now mem t0 ts0 c host port r)"
| step: "rtsp_reach s \<Longrightarrow> rtsp_step s s' \<Longrightarrow> rtsp_reach s'"

lemma satipRTSP_ok:
  assumes "config_ok c" "m_status c \<noteq> CONFIG_STATUS_CHANNEL_STABLE"
  shows "rtsp_ok (satipRTSP raw now mem t0 ts0 c host port r)"
  unfolding satipRTSP_def Let_def
  by (rule resetConnect_ok) (use assms in \<open>simp_all add: rtsp_base_def timer_create_def rx_len_def\<close>)

lemma change_ok: "rtsp_ok s \<Longrightarrow> outside (m_satip_config s) c \<Longrightarrow> rtsp_ok (s\<lparr>m_satip_config := c\<rparr>)"
  by (auto simp: rtsp_ok_defs outside_def)

lemma step_ok: "rtsp_step s s' \<Longrightarrow> rtsp_ok s \<Longrightarrow> rtsp_ok s'"
  by (erule rtsp_stepE) (auto intro: handleRTSPStatus_ok handleNextTimer_ok handlePollEvents_ok change_ok)

lemma reach_ok: "rtsp_reach s \<Longrightarrow> rtsp_ok s"
  by (induction rule: rtsp_reach.induct) (auto intro: satipRTSP_ok step_ok)

text \<open>
  Only a failing \<^verbatim>\<open>recv\<close> on an empty buffer moves the receive position in front of the buffer.
\<close>

lemma resetConnect_pos: "m_rx_data_pos (resetConnect now auto s) = 0"
  by (auto simp: resetConnect_def Let_def close_fd_def timer_ops resetReconnectBackoff_def startTimerReconnect_def)

lemma sendRequest_pos: "0 \<le> m_rx_data_pos s \<Longrightarrow> 0 \<le> m_rx_data_pos (fst (sendRequest now ok rq s))"
  by (cases rule: send_by_kind_cases [of ok rq "stopTimerKeepAliveMessage s"])
    (auto simp: sendRequest_def sent_with_def timer_ops resetConnect_pos)

lemma handleRTSPStatus_pos:
  assumes "0 \<le> m_rx_data_pos s"
  shows "0 \<le> m_rx_data_pos (handleRTSPStatus now addrs ok s)"
proof (cases "m_rtsp_status s = RTSP_STATUS_CONFIG_WAITING \<and> chan s = CONFIG_STATUS_CHANNEL_CHANGED")
  case True
  then show ?thesis
    by (cases rule: waiting_run [OF conjunct1 [OF True] conjunct2 [OF True], of addrs now ok])
      (use assms in \<open>simp_all add: timer_ops startTimerReconnect_def Let_def attempting_def resetReconnectBackoff_def\<close>)
next
  case False
  have sent: "0 \<le> m_rx_data_pos (case sendRequest now ok rq s of (s1, res) \<Rightarrow>
      if res = RTSP_OK then s1\<lparr>m_rtsp_status := st\<rparr> else s1)" for rq st
    using sendRequest_pos [OF assms, of now ok rq] by (cases "sendRequest now ok rq s") simp
  show ?thesis
    using False assms sendRequest_pos sent
    by (cases "m_rtsp_status s"; cases "chan s";
        simp add: handleRTSPStatus_def Let_def getChannelStatus_def resetReconnectBackoff_def timer_ops)
qed

lemma handler_pos: "0 \<le> m_rx_data_pos s \<Longrightarrow> 0 \<le> m_rx_data_pos (rtsp_handler ok now i s)"
  by (auto simp: rtsp_handler_def timeoutConnect_def timeoutKeepAlive_def timeoutReconnect_def resetConnect_pos
      resetReconnectBackoff_def intro: sendRequest_pos split: t_channel_status.split)

interpretation rtsp_position: timer_host m_timer_list m_timer_list_update "rtsp_handler ok" "\<lambda>s. 0 \<le> m_rx_data_pos s" for ok
  by unfold_locales (simp_all add: handler_length handler_pos)

lemma handleNextTimer_pos: "0 \<le> m_rx_data_pos s \<Longrightarrow> 0 \<le> m_rx_data_pos (handleNextTimer now ok s)"
  unfolding handleNextTimer_def by (rule rtsp_position.callNextTimer_inv)

lemma response_header_pos:
  assumes "response_header now rx res code s = Some (s1, res1, code1, False)"
  shows "0 \<le> m_rx_data_pos s1"
proof -
  let ?s = "s\<lparr>m_wait_response := False\<rparr>"
  let ?r = "if scan_status rx code \<noteq> 200 then Some (?s\<lparr>m_rx_data_pos := 0\<rparr>, RTSP_ERROR) else response_by_kind rx res ?s"
  have "m_rtsp_request s \<noteq> RTSP_REQUEST_DESCRIBE"
    using assms by (auto simp: response_header_def handleResponseDescribe_def Let_def)
  then obtain v where "(if snd v = RTSP_ERROR then Some (resetConnect now True (fst v), RTSP_ERROR, scan_status rx code, False)
      else if snd v = RTSP_RESPONSE_COMPLETE then Some (stopTimerResetConnect (fst v), snd v, scan_status rx code, True)
      else Some (fst v, snd v, scan_status rx code, True)) = Some (s1, res1, code1, False)"
    using assms by (cases ?r) (auto simp: response_header_def Let_def)
  then show ?thesis by (auto simp: resetConnect_pos split: if_splits)
qed

lemma response_loop_pos:
  "0 \<le> m_rx_data_pos s \<Longrightarrow> response_loop now env res code s = Some (s', res') \<Longrightarrow> 0 \<le> m_rx_data_pos s'"
proof (induction "nat (m_rx_data_pos s)" arbitrary: env res code s rule: less_induct)
  case less
  have frame: ?case if "frame_length s = Some n" "\<not> m_rx_data_pos s < int n" "rx_frame now (env 0) n s = Some t"
    "response_loop now (\<lambda>k. env (Suc k)) res code (fst t) = Some (s', res')" for n t
    using rx_frame_pos [of now "env 0" n s "fst t" "snd t"] frame_length_min [OF that(1)] that
    by (intro less.hyps [OF _ _ that(4)]) simp_all
  have failed: ?case if "wr (m_rx_data s) (m_rx_data_pos s) 0 = Some m"
    "response_header now rx res code (s\<lparr>m_rx_data := m\<rparr>) = Some (s', res', code1, False)" for m rx code1
    using response_header_pos [OF that(2)] .
  have complete: ?case if c: "wr (m_rx_data s) (m_rx_data_pos s) 0 = Some m" "c_string m = Some rx"
    "strstr rx header_end = Some p" "response_header now rx res code (s\<lparr>m_rx_data := m\<rparr>) = Some (s1, res1, code1, True)"
    "rx_complete (length rx - length p + 4) s1 = Some s2"
    "(if m_rx_data_pos s2 > 0 then response_loop now env res1 code1 s2 else Some (s2, res1)) = Some (s', res')"
    for m rx p s1 res1 code1 s2
  proof (cases "m_rx_data_pos s2 > 0")
    case True
    then show ?thesis using c(6) rx_complete_less [OF c(1-5) True] by (intro less.hyps) auto
  next
    case False
    then show ?thesis using c(6) rx_complete_pos [OF c(5)] by simp
  qed
  show ?case
    using less.prems(2) [unfolded response_loop.simps [of now env res code s]]
  proof (elim run_elims case_elims, goal_cases)
    case (4 b n t)
    then show ?case using rx_frame_pos [of now "env 0" n s "fst t" "snd t"] by simp
  next
    case (5 b n t)
    then show ?case by (intro frame)
  next
    case 8
    then show ?case by (clarsimp, intro complete) (assumption | simp)+
  next
    case 9
    then show ?case by (elim rx_complete_pos [elim_format]) simp
  qed (use less.prems(1) failed in \<open>auto\<close>)
qed

lemma handleResponse_pos:
  assumes "0 \<le> m_rx_data_pos s" "(\<exists>d. rcv = Recv d) \<or> 0 < m_rx_data_pos s" "handleResponse now env rcv s = Some (s', res)"
  shows "0 \<le> m_rx_data_pos s'"
  using assms
  by (cases rcv) (auto simp: handleResponse_def Let_def split: if_splits elim!: response_loop_pos [rotated])

lemma handlePollEvents_pos:
  assumes "0 \<le> m_rx_data_pos s" "(\<exists>d. rcv = Recv d) \<or> 0 < m_rx_data_pos s" "handlePollEvents now env rcv events s = Some s'"
  shows "0 \<le> m_rx_data_pos s'"
proof (cases "POLLHUP \<in> events \<or> POLLERR \<in> events \<or> POLLNVAL \<in> events")
  case True
  then show ?thesis using assms(3) by (auto simp: handlePollEvents_def resetConnect_pos)
next
  case False
  then show ?thesis
    using assms(1,3) handleResponse_pos [OF assms(1,2)]
    by (cases "m_rtsp_status s") (auto simp: handlePollEvents_def timer_ops resetConnect_pos resetReconnectBackoff_def
        split: if_splits elim!: bind_SomeE)
qed

lemma handleResponse_outside:
  "rtsp_ok s \<Longrightarrow> m_rx_data_pos s = -1 \<Longrightarrow> handleResponse now env rcv s = None"
  by (simp add: handleResponse_def Let_def rtsp_ok_defs)

text \<open>
  C9. In every reachable state of the RTSP client the receive position lies inside the receive
  buffer or, after a \<^verbatim>\<open>recv\<close> that failed with nothing in the buffer, one byte in front of it. Nothing
  else takes it there: status calls, timers, received data, the end of the stream and a failure with
  something in the buffer keep it inside; and from there every further read is undefined. Exactly
  the descriptor of the connection is open, and only outside the waiting state,
  so no descriptor leaks or is used after being closed; a response is awaited exactly when a
  request is outstanding, and then the watchdog timer runs; the backoff counter is at most 5.
\<close>

theorem rtsp_invariant:
  assumes "rtsp_reach s"
  shows "-1 \<le> m_rx_data_pos s \<and> m_rx_data_pos s < int (length (m_rx_data s)) \<and>
    (m_rx_data_pos s = -1 \<longrightarrow> handleResponse now env rcv s = None) \<and>
    (0 \<le> m_rx_data_pos s \<longrightarrow> 0 \<le> m_rx_data_pos (handleRTSPStatus now addrs ok s) \<and>
       0 \<le> m_rx_data_pos (handleNextTimer now ok s)) \<and>
    (0 \<le> m_rx_data_pos s \<and> handlePollEvents now env rcv events s = Some s' \<and> m_rx_data_pos s' = -1 \<longrightarrow>
       m_rx_data_pos s = 0 \<and> (rcv = Recv_EINTR \<or> rcv = Recv_error)) \<and>
    k_open s = (if m_fd s = -1 then [] else [m_fd s]) \<and>
    (m_fd s = -1 \<longleftrightarrow> m_rtsp_status s = RTSP_STATUS_CONFIG_WAITING) \<and>
    (m_wait_response s \<longleftrightarrow> m_rtsp_request s \<noteq> RTSP_REQUEST_NONE) \<and>
    (m_wait_response s \<longrightarrow> timer_active T_RESET s) \<and>
    m_reconnect_attempts s \<le> 5 \<and> config_ok (m_satip_config s)"
proof -
  note ok = reach_ok [OF assms]
  have "m_rx_data_pos s = 0 \<and> (rcv = Recv_EINTR \<or> rcv = Recv_error)"
    if "0 \<le> m_rx_data_pos s" "handlePollEvents now env rcv events s = Some s'" "m_rx_data_pos s' = -1"
  proof -
    have "\<not> ((\<exists>d. rcv = Recv d) \<or> 0 < m_rx_data_pos s)" using handlePollEvents_pos [OF that(1) _ that(2)] that(3) by auto
    then show ?thesis using that(1) by (cases rcv) auto
  qed
  then show ?thesis
    using ok handleResponse_outside [OF ok] handleRTSPStatus_pos handleNextTimer_pos by (simp add: rtsp_ok_defs)
qed

definition sample_rtsp :: rtsp where
  "sample_rtsp = satipRTSP undefined \<lparr>tv_sec = 0, tv_nsec = 0\<rparr> (\<lambda>_. 0) 0 \<lparr>tv_sec = 0, tv_nsec = 0\<rparr>
     (satipConfig blank_config FE_TYPE_SAT (m_settings blank_config)) ''192.168.0.1'' ''554'' (satipRTP 3 False undefined)"

lemma fold_setCaPids_status: "m_status (fold setCaPids reps c) = m_status c"
  by (induction reps arbitrary: c) (simp_all add: setCaPids_def wakeup_def)

lemma satipConfig_status: "m_status (satipConfig raw fe o0) = CONFIG_STATUS_CHANNEL_INVALID"
  by (simp add: satipConfig_def Let_def clearProperty_def clearPidList_def run_psi_def fold_setCaPids_status)

lemma sample_reach: "rtsp_reach sample_rtsp"
  unfolding sample_rtsp_def by (intro rtsp_reach.start satipConfig_ok satipConfig_status)

theorem rtsp_invariant_witness:
  "-1 \<le> m_rx_data_pos (handleNextTimer \<lparr>tv_sec = 9, tv_nsec = 0\<rparr> True sample_rtsp) \<and>
   m_reconnect_attempts (handleNextTimer \<lparr>tv_sec = 9, tv_nsec = 0\<rparr> True sample_rtsp) \<le> 5"
  using rtsp_invariant [OF rtsp_reach.step [OF sample_reach rtsp_step.timer]] by blast

section \<open>Nothing gets stuck\<close>

lemma sendRequest_armed:
  assumes "rtsp_ok s"
  shows "\<exists>s1 res. sendRequest now ok rq s = (s1, res) \<and>
    (if res = RTSP_ERROR then m_rtsp_status s1 = RTSP_STATUS_CONFIG_WAITING
     else timer_active T_RESET s1 \<and> m_rtsp_status s1 = m_rtsp_status s)"
proof (cases "m_wait_response s")
  case True
  then show ?thesis using assms by (simp add: sendRequest_def rtsp_ok_defs)
next
  case False
  have "length (m_timer_list s) = 3" using assms by (simp add: rtsp_ok_def)
  then show ?thesis
    using False
    by (cases rule: send_by_kind_cases [of ok rq "stopTimerKeepAliveMessage s"])
      (simp_all add: sendRequest_def resetConnect_state sent_with_def timer_ops)
qed

text \<open>
  C10. No deadlock: in every reachable state, after the session loop has called
  \<^verbatim>\<open>handleRTSPStatus\<close>, one of the timers runs, or the client is idle because no channel is wanted,
  or it is about to connect on the next call. The one exception is the teardown state after
  its response has been consumed without being recognised.
\<close>

theorem handleRTSPStatus_never_stuck:
  assumes "rtsp_reach s" "s' = handleRTSPStatus now addrs ok s"
  shows "(\<exists>i < 3. timer_active i s') \<or>
    m_rtsp_status s' = RTSP_STATUS_CONFIG_WAITING \<and> chan s' \<noteq> CONFIG_STATUS_CHANNEL_STABLE \<or>
    m_rtsp_status s' = RTSP_STATUS_SESSION_TEARDOWNING \<and> \<not> m_wait_response s'"
proof -
  have s: "rtsp_ok s" using reach_ok [OF assms(1)] .
  have s': "rtsp_ok s'" unfolding assms(2) by (rule handleRTSPStatus_ok [OF s])
  have three: "length (m_timer_list s) = 3" using s by (simp add: rtsp_ok_def)
  have idle: ?thesis if "m_rtsp_status s' = RTSP_STATUS_CONFIG_WAITING"
    using s' that by (auto simp: rtsp_ok_def sched_ok_def)
  have armed: ?thesis if "timer_active T_RESET s' \<or> timer_active T_KEEP s'"
    using that by (auto intro: exI [of _ T_RESET] exI [of _ T_KEEP])
  have send: ?thesis if "s' = (case sendRequest now ok rq s of (s1, res) \<Rightarrow> if res = RTSP_OK then f s1 else s1)"
    "\<And>s. m_timer_list (f s) = m_timer_list s" for rq f
  proof -
    obtain s1 res where r: "sendRequest now ok rq s = (s1, res)" "if res = RTSP_ERROR then m_rtsp_status s1 = RTSP_STATUS_CONFIG_WAITING
       else timer_active T_RESET s1 \<and> m_rtsp_status s1 = m_rtsp_status s"
      using sendRequest_armed [OF s] by metis
    show ?thesis
    proof (cases "res = RTSP_ERROR")
      case True
      then show ?thesis using idle r that(1) by simp
    next
      case False
      then have "timer_active T_RESET s'" using r that by (simp add: timer_active_def)
      then show ?thesis using armed by blast
    qed
  qed
  show ?thesis
  proof (cases "m_rtsp_status s")
    case RTSP_STATUS_CONFIG_WAITING
    show ?thesis
    proof (cases "chan s = CONFIG_STATUS_CHANNEL_CHANGED")
      case True
      have "m_rtsp_status s' = RTSP_STATUS_CONFIG_WAITING \<or> m_rtsp_status s' = RTSP_STATUS_SERVER_CONNECTING"
        by (cases rule: waiting_run [OF RTSP_STATUS_CONFIG_WAITING True, of addrs now ok])
          (simp_all add: assms(2) timer_ops startTimerReconnect_def Let_def RTSP_STATUS_CONFIG_WAITING)
      then show ?thesis using idle armed s' by (auto simp: rtsp_ok_def wait_ok_def)
    next
      case False
      then show ?thesis
        using RTSP_STATUS_CONFIG_WAITING assms(2) idle
        by (cases "chan s") (auto simp: handleRTSPStatus_def Let_def getChannelStatus_def resetReconnectBackoff_def timer_ops)
    qed
  next
    case RTSP_STATUS_SERVER_CONNECTING
    then show ?thesis using armed s assms(2) by (simp add: handleRTSPStatus_def rtsp_ok_def wait_ok_def)
  next
    case RTSP_STATUS_SESSION_ESTABLISHING
    then show ?thesis
      using send [where rq = RTSP_REQUEST_SETUP and f = "\<lambda>s. s"] assms(2) by (simp add: handleRTSPStatus_def split: prod.split)
  next
    case RTSP_STATUS_SESSION_PLAYING
    then show ?thesis
      using send [where rq = RTSP_REQUEST_PLAY and f = "\<lambda>s. s"] assms(2) by (simp add: handleRTSPStatus_def split: prod.split)
  next
    case RTSP_STATUS_SESSION_TRANSMITTING
    then show ?thesis
      using send [where rq = RTSP_REQUEST_PLAY and f = "\<lambda>s. s\<lparr>m_rtsp_status := RTSP_STATUS_SESSION_PLAYING\<rparr>"]
        send [where rq = RTSP_REQUEST_TEARDOWN and f = "\<lambda>s. s\<lparr>m_rtsp_status := RTSP_STATUS_SESSION_TEARDOWNING\<rparr>"] armed three
      unfolding assms(2) by (auto simp: handleRTSPStatus_def Let_def timer_ops split: if_splits)
  next
    case RTSP_STATUS_SESSION_TEARDOWNING
    then show ?thesis using armed s assms(2) by (auto simp: handleRTSPStatus_def rtsp_ok_def wait_ok_def)
  qed
qed

theorem handleRTSPStatus_never_stuck_witness:
  "(\<exists>i < 3. timer_active i (handleRTSPStatus \<lparr>tv_sec = 1, tv_nsec = 0\<rparr> None True sample_rtsp)) \<or>
    m_rtsp_status (handleRTSPStatus \<lparr>tv_sec = 1, tv_nsec = 0\<rparr> None True sample_rtsp) = RTSP_STATUS_CONFIG_WAITING \<and>
      chan (handleRTSPStatus \<lparr>tv_sec = 1, tv_nsec = 0\<rparr> None True sample_rtsp) \<noteq> CONFIG_STATUS_CHANNEL_STABLE \<or>
    m_rtsp_status (handleRTSPStatus \<lparr>tv_sec = 1, tv_nsec = 0\<rparr> None True sample_rtsp) = RTSP_STATUS_SESSION_TEARDOWNING \<and>
      \<not> m_wait_response (handleRTSPStatus \<lparr>tv_sec = 1, tv_nsec = 0\<rparr> None True sample_rtsp)"
  using handleRTSPStatus_never_stuck [OF sample_reach refl] .

section \<open>Backoff\<close>

lemma backoff_step:
  assumes "m_reconnect_attempts s = min k 5" "length (m_timer_list s) = 3" "normal now"
  shows "m_reconnect_attempts (startTimerReconnect now s) = min (Suc k) 5"
    "length (m_timer_list (startTimerReconnect now s)) = 3" "timer_active T_RECONNECT (startTimerReconnect now s)"
    "ns (m_ts (m_timer_list (startTimerReconnect now s) ! T_RECONNECT)) = ns now + min (1000 * 2 ^ k) 30000 * 1000000"
proof -
  have five: "m_reconnect_attempts s \<le> 5" using assms(1) by simp
  note run = startTimerReconnect_eq [OF five, of now]
  show "m_reconnect_attempts (startTimerReconnect now s) = min (Suc k) 5"
    "length (m_timer_list (startTimerReconnect now s)) = 3" "timer_active T_RECONNECT (startTimerReconnect now s)"
    using assms by (simp_all add: run timer_ops)
  have "reconnect_delay (min k 5) = min (1000 * 2 ^ k) 30000"
  proof (cases "k < 5")
    case True
    then have "(2 :: int) ^ k \<le> 2 ^ 4" by (intro power_increasing) auto
    then show ?thesis using True by (simp add: reconnect_delay_eq)
  next
    case False
    then have "(2 :: int) ^ 5 \<le> 2 ^ k" by (intro power_increasing) auto
    then show ?thesis using False by (simp add: reconnect_delay_eq)
  qed
  moreover have "0 \<le> min (1000 * 2 ^ k) (30000 :: int)" by simp
  ultimately show "ns (m_ts (m_timer_list (startTimerReconnect now s) ! T_RECONNECT)) = ns now + min (1000 * 2 ^ k) 30000 * 1000000"
    using assms by (simp add: run with_timer_def timer_start_def deadline_ns)
qed

text \<open>
  C27. The retry delays: after a reset of the backoff, the k-th consecutive failure (counted from 0)
  arms the reconnect timer for 1000 * 2^k milliseconds, but at most 30 seconds, from the moment
  of the failure; the counter stops at 5, so the shift never overflows however long the server
  stays away.
\<close>

theorem reconnect_backoff:
  assumes "length (m_timer_list s) = 3" "nows \<noteq> []" "\<forall>n \<in> set nows. normal n"
  shows "m_reconnect_attempts (fold startTimerReconnect nows (resetReconnectBackoff s)) = min (length nows) 5 \<and>
    timer_active T_RECONNECT (fold startTimerReconnect nows (resetReconnectBackoff s)) \<and>
    ns (m_ts (m_timer_list (fold startTimerReconnect nows (resetReconnectBackoff s)) ! T_RECONNECT)) =
      ns (last nows) + min (1000 * 2 ^ (length nows - 1)) 30000 * 1000000"
  using assms(2,3)
proof (induction nows rule: rev_induct)
  case (snoc now nows)
  let ?s = "fold startTimerReconnect nows (resetReconnectBackoff s)"
  have "m_reconnect_attempts ?s = min (length nows) 5 \<and> length (m_timer_list ?s) = 3"
    using snoc.prems(2)
  proof (induction nows rule: rev_induct)
    case Nil
    then show ?case using assms(1) by (simp add: resetReconnectBackoff_def)
  next
    case (snoc n ns)
    then show ?case using backoff_step(1,2) [of "fold startTimerReconnect ns (resetReconnectBackoff s)" "length ns" n] by simp
  qed
  then show ?case using backoff_step [of ?s "length nows" now] snoc.prems(2) by simp
qed simp

theorem reconnect_backoff_witness:
  "ns (m_ts (m_timer_list (fold startTimerReconnect [\<lparr>tv_sec = 1, tv_nsec = 0\<rparr>, \<lparr>tv_sec = 3, tv_nsec = 0\<rparr>, \<lparr>tv_sec = 9, tv_nsec = 0\<rparr>]
     (resetReconnectBackoff sample_rtsp)) ! T_RECONNECT)) = 13000000000"
proof -
  have "length (m_timer_list sample_rtsp) = 3" using reach_ok [OF sample_reach] by (simp add: rtsp_ok_def)
  then show ?thesis
    using reconnect_backoff [of sample_rtsp
        "[\<lparr>tv_sec = 1, tv_nsec = 0\<rparr>, \<lparr>tv_sec = 3, tv_nsec = 0\<rparr>, \<lparr>tv_sec = 9, tv_nsec = 0\<rparr>]"]
    by (simp add: normal_def ns_def)
qed

section \<open>Retrying a lost session\<close>

lemma connect_loop_first:
  "\<forall>t \<in> set tries. \<forall>n. t \<noteq> Connecting n \<Longrightarrow>
   connect_loop (tries @ Connecting fd # rest) s = (s\<lparr>k_open := int fd # k_open s\<rparr>, Some fd)"
proof (induction tries arbitrary: s)
  case (Cons t tries)
  then show ?case by (cases t) auto
qed simp

text \<open>Only the reconnect timer runs: the dispatch calls its handler once it is due.\<close>

lemma dispatch_reconnect:
  assumes "length (m_timer_list s) = 3" "\<not> timer_active T_RESET s" "\<not> timer_active T_KEEP s"
    "timer_due now (m_timer_list s ! T_RECONNECT)"
  shows "handleNextTimer now ok s =
    m_timer_list_update (\<lambda>l. l[T_RECONNECT := settle now (l ! T_RECONNECT)]) (timeoutReconnect s)"
proof -
  have up: "[0..<3] = [0, 1, 2 :: nat]" by (simp add: upt_rec)
  have "\<not> timer_due now (m_timer_list s ! 0)" "\<not> timer_due now (m_timer_list s ! 1)"
    using assms(2,3) by (simp_all add: timer_due_def timer_active_def)
  moreover have "m_active (m_timer_list s ! 2)" using assms(4) by (simp add: timer_due_def)
  ultimately show ?thesis
    using assms(1,4) by (simp add: handleNextTimer_def callNextTimer_def up timer_call_def rtsp_handler_def)
qed

text \<open>The reset that schedules a retry.\<close>

lemma resetConnect_retry:
  assumes "length (m_timer_list s) = 3" "m_reconnect_attempts s \<le> 5" "chan s \<noteq> CONFIG_STATUS_CHANNEL_INVALID"
    and "\<not> (chan s = CONFIG_STATUS_CHANNEL_CHANGED \<and> m_tune_generation (m_satip_config s) > m_attempted_generation s)"
  shows "chan (resetConnect now True s) = CONFIG_STATUS_CHANNEL_STABLE"
    "\<not> timer_active T_RESET (resetConnect now True s)" "\<not> timer_active T_KEEP (resetConnect now True s)"
    "m_timer_list (resetConnect now True s) ! T_RECONNECT =
      timer_start now (reconnect_delay (m_reconnect_attempts s)) True (m_timer_list s ! T_RECONNECT)"
proof -
  define b where "b = stopTimerKeepAliveMessage (stopTimerResetConnect (close_fd (s\<lparr>m_rtsp_status := RTSP_STATUS_CONFIG_WAITING,
      m_rtsp_request := RTSP_REQUEST_NONE, m_rtsp_cseq := 1, m_rtsp_session_id := [], m_rtsp_stream_id := -1,
      m_rtsp_timeout := 60, m_rx_data_pos := 0, m_wait_response := False\<rparr>)))"
  have b: "length (m_timer_list b) = 3" "\<not> timer_active T_RESET b" "\<not> timer_active T_KEEP b"
    "m_timer_list b ! T_RECONNECT = m_timer_list s ! T_RECONNECT" "m_reconnect_attempts b = m_reconnect_attempts s"
    "m_satip_config b = m_satip_config s" "m_attempted_generation b = m_attempted_generation s"
    using assms(1) by (simp_all add: b_def close_fd_def timer_ops) (simp_all add: with_timer_def)
  have "resetConnect now True s = startTimerReconnect now (b\<lparr>m_satip_config := clearChannelChanged (m_satip_config s)\<rparr>)"
    using assms(3,4) b(6,7) unfolding resetConnect_def Let_def b_def [symmetric] getChannelStatus_def by auto
  then have run: "resetConnect now True s =
      (with_timer T_RECONNECT (timer_start now (reconnect_delay (m_reconnect_attempts s)) True)
        (b\<lparr>m_satip_config := clearChannelChanged (m_satip_config s)\<rparr>))\<lparr>m_reconnect_attempts := min 5 (m_reconnect_attempts s + 1)\<rparr>"
    using assms(2) b(5) by (simp add: startTimerReconnect_eq)
  show "chan (resetConnect now True s) = CONFIG_STATUS_CHANNEL_STABLE"
    using assms(3) by (cases "chan s") (simp_all add: run clearChannelChanged_def)
  show "\<not> timer_active T_RESET (resetConnect now True s)" "\<not> timer_active T_KEEP (resetConnect now True s)"
    using b(1-3) by (simp_all add: run active_with_timer)
  show "m_timer_list (resetConnect now True s) ! T_RECONNECT =
      timer_start now (reconnect_delay (m_reconnect_attempts s)) True (m_timer_list s ! T_RECONNECT)"
    using b(1,4) by (simp add: run with_timer_def)
qed

text \<open>
  C11. A lost session comes back: when a session with a wanted channel is reset because of an error
  (and no newer tuning is waiting), nothing happens until the retry delay has passed; the first
  timer dispatch after it asks for the channel again, and the following status call connects as
  soon as one of the server's addresses accepts, taking the first that does.
\<close>

theorem lost_session_retried:
  assumes "rtsp_ok s" "chan s \<noteq> CONFIG_STATUS_CHANNEL_INVALID"
    and "\<not> (chan s = CONFIG_STATUS_CHANNEL_CHANGED \<and> m_tune_generation (m_satip_config s) > m_attempted_generation s)"
    and "normal now" "normal later" "\<forall>t \<in> set tries. \<forall>n. t \<noteq> Connecting n"
    and "s1 = resetConnect now True s"
    and "s3 = handleRTSPStatus later (Some (tries @ Connecting fd # rest)) ok2 (handleNextTimer later ok s1)"
    and "wait = reconnect_delay (m_reconnect_attempts s) * 1000000"
  shows "m_rtsp_status s1 = RTSP_STATUS_CONFIG_WAITING \<and> m_fd s1 = -1 \<and>
    (ns later \<le> ns now + wait \<longrightarrow> handleNextTimer later ok s1 = s1) \<and>
    (ns later > ns now + wait \<longrightarrow> m_rtsp_status s3 = RTSP_STATUS_SERVER_CONNECTING \<and> m_fd s3 = int fd \<and> k_open s3 = [int fd])"
proof -
  have ok1: "rtsp_ok s1" unfolding assms(7) by (intro resetConnect_ok) (simp_all add: rtsp_ok_base assms(1))
  have st: "m_rtsp_status s1 = RTSP_STATUS_CONFIG_WAITING" by (simp add: assms(7) resetConnect_state)
  have len: "length (m_timer_list s) = 3" "m_reconnect_attempts s \<le> 5" using assms(1) by (simp_all add: rtsp_ok_defs)
  note stable = resetConnect_retry [OF len assms(2,3), of now, folded assms(7)]
  have delay: "0 \<le> reconnect_delay (m_reconnect_attempts s)" using len by (simp add: reconnect_delay_eq)
  have due: "timer_due later (m_timer_list s1 ! T_RECONNECT) \<longleftrightarrow> ns later > ns now + wait"
    using assms(4,5) delay by (simp add: stable(4) assms(9) timer_due_def timer_start_def ts_after_ns deadline_normal deadline_ns)
  have idle: "handleNextTimer later ok s1 = s1" if "\<not> timer_due later (m_timer_list s1 ! T_RECONNECT)"
    unfolding handleNextTimer_def
  proof (rule callNextTimer_idle)
    have "length (m_timer_list s1) = 3" using ok1 by (simp add: rtsp_ok_def)
    then obtain t0 t1 t2 where "m_timer_list s1 = [t0, t1, t2]" by (auto simp: numeral_3_eq_3 length_Suc_conv)
    then show "\<forall>t \<in> set (m_timer_list s1). \<not> timer_due later t"
      using that stable(2,3) by (simp add: timer_due_def timer_active_def)
  qed
  have "m_rtsp_status s3 = RTSP_STATUS_SERVER_CONNECTING \<and> m_fd s3 = int fd \<and> k_open s3 = [int fd]"
    if "timer_due later (m_timer_list s1 ! T_RECONNECT)"
  proof -
    let ?s2 = "handleNextTimer later ok s1"
    have len1: "length (m_timer_list s1) = 3" using ok1 by (simp add: rtsp_ok_def)
    have s2: "?s2 = m_timer_list_update (\<lambda>l. l[T_RECONNECT := settle later (l ! T_RECONNECT)]) (timeoutReconnect s1)"
      by (rule dispatch_reconnect) (use stable len1 that in simp_all)
    have f: "m_rtsp_status ?s2 = RTSP_STATUS_CONFIG_WAITING" "chan ?s2 = CONFIG_STATUS_CHANNEL_CHANGED" "k_open ?s2 = []"
      using stable(1) st ok1
      by (simp_all add: s2 timeoutReconnect_def getChannelStatus_def setChannelRetry_def rtsp_ok_defs)
    have "connectToServer (Some (tries @ Connecting fd # rest)) (attempting ?s2) =
        ((attempting ?s2)\<lparr>k_open := int fd # k_open ?s2, m_fd := int fd, k_sent := []\<rparr>, RTSP_OK)"
      by (simp add: connectToServer_def connect_loop_first [OF assms(6)])
    then show ?thesis
      using f(3) by (cases rule: waiting_run [OF f(1,2), of "Some (tries @ Connecting fd # rest)" later ok2])
        (auto simp: assms(8) timer_ops)
  qed
  then show ?thesis using st ok1 due idle by (auto simp: rtsp_ok_defs)
qed

theorem lost_session_retried_witness:
  "\<exists>s. m_rtsp_status (handleRTSPStatus \<lparr>tv_sec = 9, tv_nsec = 0\<rparr> (Some [Connect_failed 6, Connecting 7]) True
      (handleNextTimer \<lparr>tv_sec = 9, tv_nsec = 0\<rparr> True (resetConnect \<lparr>tv_sec = 5, tv_nsec = 0\<rparr> True s))) =
      RTSP_STATUS_SERVER_CONNECTING"
proof -
  let ?c = "m_satip_config sample_rtsp" and ?s = "sample_rtsp\<lparr>m_satip_config := setChannelRetry (m_satip_config sample_rtsp)\<rparr>"
  have ok: "rtsp_ok sample_rtsp" by (rule reach_ok [OF sample_reach])
  have "config_ok (setChannelRetry ?c)"
    using ok same_pid_state_inv(1) [OF setters_same_pid_state(16), of ?c] by (simp add: rtsp_ok_def)
  then have "outside ?c (setChannelRetry ?c)" by (simp add: outside_def setChannelRetry_def)
  then have s: "rtsp_ok ?s" by (rule change_ok [OF ok])
  have g: "m_tune_generation ?c = 0" "m_attempted_generation sample_rtsp = 0" "m_reconnect_attempts sample_rtsp = 0"
  proof -
    have "m_tune_generation (fold setCaPids reps c) = m_tune_generation c" for reps c
      by (induction reps arbitrary: c) (simp_all add: setCaPids_def wakeup_def)
    then have "m_tune_generation (satipConfig raw fe o0) = 0" for raw fe o0
      by (simp add: satipConfig_def Let_def clearProperty_def clearPidList_def run_psi_def)
    then show "m_tune_generation ?c = 0" "m_attempted_generation sample_rtsp = 0" "m_reconnect_attempts sample_rtsp = 0"
      by (simp_all add: sample_rtsp_def satipRTSP_def Let_def resetConnect_def close_fd_def timer_ops resetReconnectBackoff_def)
  qed
  show ?thesis
    by (rule exI [of _ ?s])
      (use lost_session_retried [OF s _ _ _ _ _ refl refl refl, where now = "\<lparr>tv_sec = 5, tv_nsec = 0\<rparr>" and later = "\<lparr>tv_sec = 9, tv_nsec = 0\<rparr>"
          and tries = "[Connect_failed 6]" and fd = 7 and rest = "[]" and ok = True and ?ok2.0 = True] g
       in \<open>simp add: setChannelRetry_def normal_def ns_def reconnect_delay_eq\<close>)
qed

end
