(* ===== verification/Rtsp_Server.thy ===== *)
theory Rtsp_Server
  imports Rtsp_Session
begin

text \<open>
  The RTSP client against a server that reads its requests. Every entry point of the client is shown
  to be a sequence of a few kinds of events (a request sent, an answer, a reset, data for the tap,
  anything else), and from the events follows what the messages sent on a connection mean: a
  server that reads them has the pids the client has recorded.
\<close>

section \<open>What the server reads\<close>

text \<open>The query in the request line of a message: from the question mark to the next space.\<close>

definition request_query :: "string \<Rightarrow> string" where
  "request_query msg =
     takeWhile (\<lambda>c. c \<noteq> CHR '' '') (dropWhile (\<lambda>c. c \<noteq> CHR ''?'') (takeWhile (\<lambda>c. c \<noteq> CHR 0x0D) msg))"

definition server_of :: "string list \<Rightarrow> pids" where
  "server_of msgs = fold (\<lambda>msg S. server_pids S (request_query msg)) msgs {}"

definition clean :: "string \<Rightarrow> bool" where
  "clean s \<longleftrightarrow> CHR '' '' \<notin> set s \<and> CHR 0x0D \<notin> set s"

definition address_ok :: "rtsp \<Rightarrow> bool" where
  "address_ok s \<longleftrightarrow> clean (m_host s) \<and> clean (m_port s) \<and> CHR ''?'' \<notin> set (m_host s) \<and> CHR ''?'' \<notin> set (m_port s)"

lemma clean_simps [simp]: "clean []" "clean (c # s) \<longleftrightarrow> c \<noteq> CHR '' '' \<and> c \<noteq> CHR 0x0D \<and> clean s"
  "clean (s @ t) \<longleftrightarrow> clean s \<and> clean t"
  by (auto simp: clean_def)

lemma clean_dec [simp]: "clean (dec n)" "clean (dec_nat m)"
  by (simp_all add: clean_def not_in_dec not_in_dec_nat is_digit_def)

lemma clean_freq [simp]: "clean (freq_text f)"
  by (simp add: freq_text_def)

lemma clean_join: "\<forall>x \<in> set xs. clean x \<Longrightarrow> sep \<noteq> CHR '' '' \<Longrightarrow> sep \<noteq> CHR 0x0D \<Longrightarrow> clean (join_with sep xs)"
  using join_with_chars [of _ sep xs] by (auto simp: clean_def)

definition clean_args :: "arg list \<Rightarrow> bool" where
  "clean_args args \<longleftrightarrow> list_all (\<lambda>kv. clean (fst kv) \<and> clean (snd kv)) args"

lemma clean_args_simps [simp]:
  "clean_args []" "clean_args (kv # args) \<longleftrightarrow> clean (fst kv) \<and> clean (snd kv) \<and> clean_args args"
  "clean_args (as @ bs) \<longleftrightarrow> clean_args as \<and> clean_args bs"
  by (auto simp: clean_args_def)

lemma clean_put: "clean_args args \<Longrightarrow> clean (put args)"
  by (induction args) (auto simp: put_def amp_def)

lemma clean_query_mark: "clean s \<Longrightarrow> clean (query_mark s)"
  by (cases s) (auto simp: query_mark_def)

lemma clean_sat: "clean_args (sat_args c)"
  unfolding sat_args_def isi_args_def Let_def clean_args_simps fst_conv snd_conv
  by (intro conjI) (simp_all split: t_type_pol.split fe_delsys.split fe_code_rate.split fe_rolloff.split
      fe_modulation.split fe_pilot.split)

lemma clean_cable: "clean_args (cable_args c)"
  unfolding cable_args_def clean_args_simps fst_conv snd_conv
  by (intro conjI) (simp_all split: fe_modulation.split)

lemma clean_terrestrial: "clean_args (terrestrial_args c)"
  unfolding terrestrial_args_def clean_args_simps fst_conv snd_conv
  by (intro conjI) (simp_all split: fe_delsys.split fe_transmode.split fe_modulation.split fe_guard.split fe_code_rate.split)

lemma clean_tune_part: "clean_args (tune_part c)"
  by (cases "m_fe_type (set_pilots c)")
    (simp_all add: tune_part_def tuning_args_def clean_sat clean_cable clean_terrestrial)

lemma clean_pids [simp]: "clean (joinNumbers A False)"
  unfolding joinNumbers_def by (intro clean_join) auto

lemma clean_queries:
  assumes "config_ok c"
  shows "clean (snd (getSetupData c))" "clean (snd (getPlayData c))"
  unfolding getSetupData_eq [OF assms] getPlayData_eq [OF assms] snd_conv
  by (auto intro!: clean_query_mark clean_put simp: clean_tune_part pid_arg_def)

text \<open>The queries start with the question mark, or are empty.\<close>

lemma query_head:
  assumes "config_ok c" "q = snd (getSetupData c) \<or> q = snd (getPlayData c)"
  shows "q = [] \<or> hd q = CHR ''?''"
proof -
  have "query_mark s = [] \<or> hd (query_mark s) = CHR ''?''" for s by (simp add: query_mark_def)
  moreover have "\<exists>s. q = query_mark s"
    using assms(2) unfolding getSetupData_eq [OF assms(1)] getPlayData_eq [OF assms(1)] by (auto split: if_splits)
  ultimately show ?thesis by metis
qed

lemma request_query_text:
  assumes "CHR 0x0D \<notin> set u" "CHR ''?'' \<notin> set u" "clean q" "q = [] \<or> hd q = CHR ''?''"
  shows "request_query (u @ q @ '' RTSP/1.0'' @ crlf @ rest) = q"
proof -
  have "takeWhile (\<lambda>c. c \<noteq> CHR 0x0D) ((u @ q @ '' RTSP/1.0'') @ CHR 0x0D # CHR 0x0A # rest) = u @ q @ '' RTSP/1.0''"
    by (rule conjunct1 [OF takeWhile_stop]) (use assms(1,3) in \<open>auto simp: clean_def\<close>)
  moreover have "dropWhile (\<lambda>c. c \<noteq> CHR ''?'') (u @ q @ '' RTSP/1.0'') = (if q = [] then [] else q @ '' RTSP/1.0'')"
  proof (cases "q = []")
    case True
    then show ?thesis using assms(2) by (auto simp: dropWhile_eq_Nil_conv)
  next
    case False
    have "dropWhile (\<lambda>c. c \<noteq> CHR ''?'') (u @ q @ '' RTSP/1.0'') = q @ '' RTSP/1.0''"
      by (rule conjunct2 [OF takeWhile_stop]) (use False assms(2,4) in \<open>auto simp: hd_append\<close>)
    then show ?thesis using False by simp
  qed
  moreover have "takeWhile (\<lambda>c. c \<noteq> CHR '' '') (q @ '' RTSP/1.0'') = q"
    by (rule conjunct1 [OF takeWhile_stop]) (use assms(3) in \<open>auto simp: clean_def\<close>)
  ultimately show ?thesis by (simp add: request_query_def crlf_def)
qed

lemma request_query_of:
  assumes "config_ok (m_satip_config s)" "address_ok s"
  shows "request_query (request_text rq s) = (case rq of RTSP_REQUEST_SETUP \<Rightarrow> snd (getSetupData (m_satip_config s))
    | RTSP_REQUEST_PLAY \<Rightarrow> snd (getPlayData (m_satip_config s)) | _ \<Rightarrow> [])"
proof -
  let ?c = "m_satip_config s" and ?id = "''stream='' @ dec (m_rtsp_stream_id s)"
  let ?sid = "if m_rtsp_stream_id s \<noteq> -1 then ?id else []"
  have url: "CHR 0x0D \<notin> set (base_url s')" "CHR ''?'' \<notin> set (base_url s')"
    if "m_host s' = m_host s" "m_port s' = m_port s" for s'
    using assms(2) that by (auto simp: base_url_def address_ok_def clean_def)
  have d: "CHR 0x0D \<notin> set (dec n)" "CHR ''?'' \<notin> set (dec n)" for n by (simp_all add: not_in_dec is_digit_def)
  note q = clean_queries [OF assms(1)] and h = query_head [OF assms(1)]
  show ?thesis
  proof (cases rq)
    case RTSP_REQUEST_SETUP
    then show ?thesis
      using request_query_text [of "''SETUP '' @ base_url (s\<lparr>m_satip_config := query_cfg rq ?c\<rparr>) @ ?sid" "snd (getSetupData ?c)"] url d q(1) h
      by (cases "m_rtsp_stream_id s = -1") (simp_all add: request_text_def setup_text_def Let_def)
  next
    case RTSP_REQUEST_PLAY
    then show ?thesis
      using request_query_text [of "''PLAY '' @ base_url (s\<lparr>m_satip_config := query_cfg rq ?c\<rparr>) @ ?id" "snd (getPlayData ?c)"] url d q(2) h
      by (simp add: request_text_def play_text_def)
  next
    case RTSP_REQUEST_OPTION
    then show ?thesis
      using request_query_text [of "''OPTIONS '' @ base_url s" "[]"] url by (simp add: request_text_def option_text_def)
  next
    case RTSP_REQUEST_TEARDOWN
    then show ?thesis
      using request_query_text [of "''TEARDOWN '' @ base_url s @ ?id" "[]"] url d by (simp add: request_text_def teardown_text_def)
  next
    case RTSP_REQUEST_DESCRIBE
    then show ?thesis
      using request_query_text [of "''DESCRIBE '' @ base_url s @ ?sid" "[]"] url d
      by (cases "m_rtsp_stream_id s = -1") (simp_all add: request_text_def describe_text_def)
  qed (simp add: request_text_def request_query_def)
qed

lemma server_of_snoc [simp]: "server_of (msgs @ [m]) = server_pids (server_of msgs) (request_query m)"
  by (simp add: server_of_def)

lemma server_pids_Nil [simp]: "server_pids S [] = S"
  by (simp add: server_pids_def parse_query_def read_pids_def)

section \<open>Events\<close>

abbreviation cfg :: "rtsp \<Rightarrow> config" where
  "cfg \<equiv> m_satip_config"

text \<open>The part of the client's state that what it tells the server depends on, besides the configuration.\<close>

definition core :: "rtsp \<Rightarrow> string \<times> string \<times> rtsp_request \<times> string \<times> string list" where
  "core s = (m_host s, m_port s, m_rtsp_request s, m_rtsp_session_id s, k_sent s)"

definition sends :: "rtsp_request \<Rightarrow> rtsp \<Rightarrow> rtsp \<Rightarrow> bool" where
  "sends rq s s' \<longleftrightarrow> rq \<noteq> RTSP_REQUEST_NONE \<and> (rq = RTSP_REQUEST_SETUP \<or> m_rtsp_session_id s \<noteq> []) \<and>
     core s' = (m_host s, m_port s, rq, m_rtsp_session_id s, k_sent s @ [request_text rq s]) \<and>
     same_pid_state (query_cfg rq (cfg s)) (cfg s')"

inductive ev :: "rtsp \<Rightarrow> rtsp \<Rightarrow> bool" where
  quiet: "core s' = core s \<Longrightarrow> same_pid_state (cfg s) (cfg s') \<Longrightarrow> ev s s'"
| reset: "core s' = (m_host s, m_port s, RTSP_REQUEST_NONE, [], []) \<Longrightarrow>
    same_pid_state (query_cfg rq (cfg s)) (cfg s') \<Longrightarrow> ev s s'"
| send: "sends rq s s' \<Longrightarrow> ev s s'"
| answer: "core s' = (m_host s, m_port s, RTSP_REQUEST_NONE, sid, k_sent s) \<Longrightarrow>
    sid = m_rtsp_session_id s \<or> m_rtsp_request s = RTSP_REQUEST_SETUP \<Longrightarrow>
    same_pid_state (cfg s) (cfg s') \<Longrightarrow> ev s s'"
| tap: "core s' = core s \<Longrightarrow> n \<le> length data \<Longrightarrow> tap_data now0 now1 data n (cfg s) = Some (cfg s') \<Longrightarrow> ev s s'"

inductive_cases evE: "ev s s'"

lemma same_pid_state_refl [simp]: "same_pid_state c c"
  by (simp add: same_pid_state_def)

lemma ev_refl [simp, intro]: "ev s s"
  by (rule ev.quiet) simp_all

lemma ev_update: "ev s s' \<Longrightarrow> core s'' = core s' \<Longrightarrow> cfg s'' = cfg s' \<Longrightarrow> ev s s''"
  by (erule evE) (auto simp: sends_def intro: ev.intros)

section \<open>The entry points as events\<close>

lemma ev_resetConnect:
  assumes "link_ok s" "core s1 = core s \<or> m_fd s \<noteq> -1 \<and> m_host s1 = m_host s \<and> m_port s1 = m_port s" "m_fd s1 = m_fd s"
    and "cfg s1 = query_cfg rq (cfg s)"
  shows "ev s (resetConnect now a s1)"
proof (rule ev.reset [of _ _ rq])
  show "core (resetConnect now a s1) = (m_host s, m_port s, RTSP_REQUEST_NONE, [], [])"
    using assms(1-3)
    by (auto simp: core_def link_ok_def resetConnect_def Let_def close_fd_def timer_ops resetReconnectBackoff_def startTimerReconnect_def)
  show "same_pid_state (query_cfg rq (cfg s)) (cfg (resetConnect now a s1))"
    using setters_same_pid_state(17) [of "query_cfg rq (cfg s)"]
    by (auto simp: resetConnect_def Let_def close_fd_def timer_ops resetReconnectBackoff_def startTimerReconnect_def assms(4))
qed

lemma ev_sendRequest:
  assumes "rtsp_ok s" "rq \<noteq> RTSP_REQUEST_DESCRIBE"
  shows "ev s (fst (sendRequest now ok rq s))"
proof (cases "m_wait_response s")
  case True
  then show ?thesis by (simp add: sendRequest_def)
next
  case False
  let ?s = "stopTimerKeepAliveMessage s"
  have link: "link_ok s" using assms(1) by (simp add: rtsp_ok_def)
  have core: "core ?s = core s" "cfg ?s = cfg s" "m_fd ?s = m_fd s" by (simp_all add: core_def timer_ops)
  show ?thesis
  proof (cases rule: send_by_kind_cases [of ok rq ?s])
    case refused
    then have "fst (sendRequest now ok rq s) = resetConnect now True ?s" using False by (simp add: sendRequest_def)
    then show ?thesis using link core by (simp add: ev_resetConnect [where rq = RTSP_REQUEST_NONE] query_cfg_def)
  next
    case failed
    then have "fst (sendRequest now ok rq s) = resetConnect now True (?s\<lparr>m_satip_config := query_cfg rq (cfg s),
        m_rtsp_cseq := s32 (m_rtsp_cseq ?s + 1)\<rparr>)" using False core by (simp add: sendRequest_def)
    then show ?thesis using link core by (simp add: ev_resetConnect [where rq = rq] core_def)
  next
    case sent
    have "\<not> (no_session ?s \<and> rq \<noteq> RTSP_REQUEST_SETUP \<and> rq \<noteq> RTSP_REQUEST_DESCRIBE)"
      using sent(3) by (auto simp: send_by_kind_eq split: if_splits)
    then have "rq = RTSP_REQUEST_SETUP \<or> m_rtsp_session_id s \<noteq> []"
      using assms(2) by (auto simp: no_session_def timer_ops)
    moreover have "request_text rq ?s = request_text rq s"
      by (simp add: request_text_def setup_text_def play_text_def option_text_def teardown_text_def describe_text_def
          base_url_def cseq_line_def session_line_def timer_ops Let_def split: rtsp_request.split)
    ultimately have "sends rq s (fst (sendRequest now ok rq s))"
      using False sent by (simp add: sendRequest_def sends_def core_def sent_with_def timer_ops)
    then show ?thesis by (rule ev.send)
  qed
qed

lemma ev_handleRTSPStatus:
  assumes "rtsp_ok s"
  shows "ev s (handleRTSPStatus now addrs ok s)"
proof -
  have send: "ev s (case sendRequest now ok rq s of (s1, res) \<Rightarrow> if res = RTSP_OK then s1\<lparr>m_rtsp_status := st\<rparr> else s1)"
    if "rq \<noteq> RTSP_REQUEST_DESCRIBE" for rq st
    using that ev_sendRequest [OF assms, of rq now ok] ev_update [of s "fst (sendRequest now ok rq s)"]
    by (auto simp: core_def split: prod.split)
  have keep: "ev s (resetReconnectBackoff (stopTimerReconnect s))" "ev s (resetReconnectBackoff s)" "ev s (startTimerKeepAliveMessage now s)"
    by (rule ev.quiet; simp add: core_def resetReconnectBackoff_def timer_ops)+
  show ?thesis
  proof (cases "m_rtsp_status s = RTSP_STATUS_CONFIG_WAITING \<and> chan s = CONFIG_STATUS_CHANNEL_CHANGED")
    case True
    then have sent: "k_sent s = []" using assms by (simp add: rtsp_ok_def link_ok_def)
    have a: "core (attempting s) = core s" by (simp add: core_def attempting_def resetReconnectBackoff_def timer_ops)
    have st: "m_rtsp_status s = RTSP_STATUS_CONFIG_WAITING" "chan s = CONFIG_STATUS_CHANNEL_CHANGED" using True by simp_all
    show ?thesis
    proof (cases rule: waiting_run [OF st, of addrs now ok])
      case (1 fd)
      then show ?thesis using a sent by (intro ev.quiet) (simp_all add: 1(2) core_def timer_ops)
    next
      case 2
      then show ?thesis
        using a setters_same_pid_state(17) [of "cfg s"]
        by (intro ev.quiet) (simp_all add: 2(2) core_def timer_ops startTimerReconnect_def Let_def)
    qed
  next
    case False
    then show ?thesis
      using send keep ev_sendRequest [OF assms, of _ now ok]
      by (cases "m_rtsp_status s"; cases "chan s") (auto simp: handleRTSPStatus_def Let_def getChannelStatus_def)
  qed
qed

lemma ev_handler:
  assumes "rtsp_ok s"
  shows "ev s (rtsp_handler ok now i s)"
proof -
  have "ev s (resetConnect now True s)"
    using assms by (intro ev_resetConnect [where rq = RTSP_REQUEST_NONE]) (simp_all add: rtsp_ok_def query_cfg_def)
  moreover have "ev s (timeoutReconnect s)"
    using setters_same_pid_state(16) [of "cfg s"]
    by (intro ev.quiet) (auto simp: timeoutReconnect_def core_def resetReconnectBackoff_def split: t_channel_status.split)
  ultimately show ?thesis
    using ev_sendRequest [OF assms] by (simp add: rtsp_handler_def timeoutConnect_def timeoutKeepAlive_def)
qed

interpretation rtsp_trace: timer_host m_timer_list m_timer_list_update "rtsp_handler ok" "\<lambda>s. rtsp_ok s \<and> ev\<^sup>*\<^sup>* s0 s" for ok s0
proof unfold_locales
  fix s i cur
  assume inv: "rtsp_ok s \<and> ev\<^sup>*\<^sup>* s0 s" and i: "i < length (m_timer_list s)" "m_active (m_timer_list s ! i)"
  let ?s = "m_timer_list_update (\<lambda>l. l[i := settle cur (l ! i)]) (rtsp_handler ok cur i s)"
  have "ev s ?s"
    by (rule ev_update [OF ev_handler]) (use inv in \<open>simp_all add: core_def\<close>)
  then show "rtsp_ok ?s \<and> ev\<^sup>*\<^sup>* s0 ?s" using inv i handler_ok [of s i cur ok] by (auto intro: rtranclp.rtrancl_into_rtrancl)
qed (simp_all add: handler_length)

lemma evs_handleNextTimer: "rtsp_ok s \<Longrightarrow> ev\<^sup>*\<^sup>* s (handleNextTimer now ok s)"
  unfolding handleNextTimer_def using rtsp_trace.callNextTimer_inv [of s s ok now] by simp

lemma response_header_ev:
  assumes "rtsp_ok s" "live s" "response_header now rx res code s = Some (s1, res1, code1, go)"
  shows "if go then cfg s1 = cfg s \<and> m_host s1 = m_host s \<and> m_port s1 = m_port s \<and> k_sent s1 = k_sent s \<and>
      (m_rtsp_session_id s1 = m_rtsp_session_id s \<or> m_rtsp_request s = RTSP_REQUEST_SETUP)
    else ev s s1"
proof -
  have link: "link_ok s" "m_fd s \<noteq> -1" using assms(1,2) by (auto simp: rtsp_ok_def link_ok_def live_def)
  have kind: "header_frame s s2 \<and> (m_rtsp_session_id s2 = m_rtsp_session_id s \<or> m_rtsp_request s = RTSP_REQUEST_SETUP)"
    if "response_by_kind rx res (s\<lparr>m_wait_response := False\<rparr>) = Some (s2, r2)" for s2 r2
  proof
    show "header_frame s s2" using response_by_kind_frame [OF that] by (simp add: header_frame_def)
    show "m_rtsp_session_id s2 = m_rtsp_session_id s \<or> m_rtsp_request s = RTSP_REQUEST_SETUP"
      using that by (cases "m_rtsp_request s")
        (auto simp: response_by_kind_def handleResponseOption_def handleResponsePlay_def handleResponseTeardown_def)
  qed
  have fail: "ev s (resetConnect now True s2)" if "header_frame s s2" for s2
    using that link by (intro ev_resetConnect [where rq = RTSP_REQUEST_NONE]) (simp_all add: header_frame_def query_cfg_def)
  have "header_frame s (s\<lparr>m_wait_response := False, m_rx_data_pos := 0\<rparr>)" by (simp add: header_frame_def)
  note fail0 = fail [OF this]
  show ?thesis
  proof (cases "m_rtsp_request s = RTSP_REQUEST_DESCRIBE")
    case True
    then show ?thesis
      using assms(3) by (auto simp: response_header_def handleResponseDescribe_def Let_def timer_ops)
  next
    case False
    let ?s = "s\<lparr>m_wait_response := False\<rparr>"
    let ?r = "if scan_status rx code \<noteq> 200 then Some (?s\<lparr>m_rx_data_pos := 0\<rparr>, RTSP_ERROR) else response_by_kind rx res ?s"
    obtain s2 r2 where r: "?r = Some (s2, r2)"
      "(s1, res1, code1, go) = (if r2 = RTSP_ERROR then (resetConnect now True s2, RTSP_ERROR, scan_status rx code, False)
        else if r2 = RTSP_RESPONSE_COMPLETE then (stopTimerResetConnect s2, r2, scan_status rx code, True)
        else (s2, r2, scan_status rx code, True))"
      using assms(3) False by (auto simp: response_header_def Let_def split: if_splits elim!: bind_SomeE)
    have f: "header_frame s s2" "r2 \<noteq> RTSP_ERROR \<Longrightarrow> m_rtsp_session_id s2 = m_rtsp_session_id s \<or> m_rtsp_request s = RTSP_REQUEST_SETUP"
      using r(1) kind by (auto simp: header_frame_def split: if_splits)
    show ?thesis
      using r(2) f fail [OF f(1)] by (auto simp: header_frame_def timer_ops split: if_splits)
  qed
qed

lemma to_tap_cfg: "to_tap n0 n1 p (r, c) = Some (r', c') \<Longrightarrow> c' = c \<or> tap_data n0 n1 p (length p) c = Some c'"
  by (auto simp: to_tap_def split: if_splits elim!: bind_SomeE)

lemma rtpTcpData_cfg:
  assumes "rtpTcpData e m n (r, c) = Some ((r', c'), x)"
  shows "c' = c \<or> (\<exists>p. tap_data (f_now0 e) (f_now1 e) p (length p) c = Some c')"
proof -
  have tap: ?thesis if "to_tap (f_now0 e) (f_now1 e) p (fst (Write (f_write e) p r), c) = Some (r', c')" for p
    using to_tap_cfg [OF that] by blast
  show ?thesis
    using assms unfolding rtpTcpData_def Let_def fst_conv snd_conv
    by (elim run_elims) (auto dest: tap)
qed

lemma rx_frame_ev:
  assumes "rx_frame now e n s = Some (s1, x)"
  shows "ev s s1"
proof -
  obtain r c d where t: "rtpTcpData e (m_rx_data s) n (m_rtp s, cfg s) = Some ((r, c), x)"
    "s1 = (startTimerResetConnect now 4000 s)\<lparr>m_rtp := r, m_satip_config := c, m_rx_data := d,
       m_rx_data_pos := m_rx_data_pos s - int n\<rparr>"
    using assms by (auto simp: rx_frame_def Let_def timer_ops elim!: bind_SomeE)
  have core: "core s1 = core s" "cfg s1 = c" by (simp_all add: t(2) core_def timer_ops)
  from rtpTcpData_cfg [OF t(1)] show ?thesis
  proof
    assume "c = cfg s"
    then show ?thesis using core by (intro ev.quiet) simp_all
  next
    assume "\<exists>p. tap_data (f_now0 e) (f_now1 e) p (length p) (cfg s) = Some c"
    then obtain p where "tap_data (f_now0 e) (f_now1 e) p (length p) (cfg s) = Some c" by blast
    then show ?thesis using core by (intro ev.tap [of _ _ "length p" p "f_now0 e" "f_now1 e"]) simp_all
  qed
qed

lemma evs_response_loop:
  "rtsp_ok s \<Longrightarrow> live s \<Longrightarrow> response_loop now env res code s = Some (s', res') \<Longrightarrow> ev\<^sup>*\<^sup>* s s'"
proof (induction "nat (m_rx_data_pos s)" arbitrary: env res code s rule: less_induct)
  case less
  note ok = less.prems(1) and live = less.prems(2)
  have ok': "rtsp_ok (s\<lparr>m_rx_data := m\<rparr>)" "live (s\<lparr>m_rx_data := m\<rparr>)" if "wr (m_rx_data s) (m_rx_data_pos s) 0 = Some m" for m
    using ok live that by (auto simp: rtsp_ok_defs live_def wr_def split: if_splits)
  have rx: "ev s (s\<lparr>m_rx_data := m\<rparr>)" for m by (rule ev.quiet) (simp_all add: core_def)
  have failed: ?case if "wr (m_rx_data s) (m_rx_data_pos s) 0 = Some m"
    "response_header now rx res code (s\<lparr>m_rx_data := m\<rparr>) = Some (s', res', code1, False)" for m rx code1
    using response_header_ev [OF ok' [OF that(1)] that(2)] rx [of m] by (simp add: rtranclp.rtrancl_into_rtrancl)
  have frame: ?case if "frame_length s = Some n" "\<not> m_rx_data_pos s < int n" "rx_frame now (env 0) n s = Some t"
    "response_loop now (\<lambda>k. env (Suc k)) res code (fst t) = Some (s', res')" for n t
  proof -
    have pos: "int n \<le> m_rx_data_pos s" "rx_frame now (env 0) n s = Some (fst t, snd t)" using that by simp_all
    note f = rx_frame_ok [OF ok pos(2,1)]
    have "ev\<^sup>*\<^sup>* (fst t) s'"
      using that(4) f live rx_frame_pos [OF pos(2)] frame_length_min [OF that(1)] pos(1)
      by (intro less.hyps) (auto simp: live_def)
    then show ?thesis using rx_frame_ev [OF pos(2)] by (rule converse_rtranclp_into_rtranclp [rotated])
  qed
  have complete: ?case if c: "wr (m_rx_data s) (m_rx_data_pos s) 0 = Some m" "c_string m = Some rx"
    "strstr rx header_end = Some p" "response_header now rx res code (s\<lparr>m_rx_data := m\<rparr>) = Some (s1, res1, code1, True)"
    "rx_complete (length rx - length p + 4) s1 = Some s2"
    "(if m_rx_data_pos s2 > 0 then response_loop now env res1 code1 s2 else Some (s2, res1)) = Some (s', res')"
    for m rx p s1 res1 code1 s2
  proof -
    note h = response_header_ok [OF ok' [OF c(1)] c(4), simplified] and e = response_header_ev [OF ok' [OF c(1)] c(4), simplified]
    obtain d where d0: "s2 = s1\<lparr>m_rx_data := d, m_rx_data_pos := int (nat (m_rx_data_pos s1) - (length rx - length p + 4)),
        m_rtsp_request := RTSP_REQUEST_NONE\<rparr>" "length d = length (m_rx_data s1)"
      using c(5) by (auto simp: rx_complete_def Let_def dest: move_front_length elim!: bind_SomeE)
    have d: "s2 = s1\<lparr>m_rtsp_request := RTSP_REQUEST_NONE, m_rx_data := d,
        m_rx_data_pos := int (nat (m_rx_data_pos s1) - (length rx - length p + 4))\<rparr>"
      by (cases s1) (simp add: d0(1))
    have "0 \<le> m_rx_data_pos s1" using h c(1) by (simp add: wr_def split: if_splits)
    then have ok2: "rtsp_ok s2" unfolding d using h d0(2) by (intro rx_update_ok) auto
    have "m_rtsp_status s2 = m_rtsp_status s" using h by (simp add: d header_frame_def)
    moreover have step: "ev s s2"
      using e by (intro ev.answer [of _ _ "m_rtsp_session_id s1"]) (simp_all add: d core_def)
    ultimately show ?thesis
    proof (cases "m_rx_data_pos s2 > 0")
      case True
      then have "ev\<^sup>*\<^sup>* s2 s'"
        using c(6) ok2 \<open>m_rtsp_status s2 = m_rtsp_status s\<close> live rx_complete_less [OF c(1-5) True]
        by (intro less.hyps) (auto simp: live_def)
      then show ?thesis using step by (rule converse_rtranclp_into_rtranclp [rotated])
    qed (use c(6) in auto)
  qed
  show ?case
    using less.prems(3) [unfolded response_loop.simps [of now env res code s]]
  proof (elim run_elims case_elims, goal_cases)
    case (4 b n t)
    then show ?case using rx_frame_ok(2) [OF ok, of now "env 0" n "fst t" "snd t"] by simp
  next
    case (5 b n t)
    then show ?case by (intro frame)
  qed (use rx failed complete in \<open>auto\<close>)
qed

lemma evs_handleResponse:
  assumes "rtsp_ok s" "live s" "handleResponse now env rcv s = Some (s', res)"
  shows "ev\<^sup>*\<^sup>* s s'"
  using assms
proof (cases rule: handleResponse_cases)
  case (stop p)
  then have "ev s s'" by (intro ev.quiet) (simp_all add: core_def)
  then show ?thesis by simp
next
  case (loop d p)
  let ?s = "s\<lparr>m_rx_data := d, m_rx_data_pos := p\<rparr>"
  have "ev s ?s" by (rule ev.quiet) (simp_all add: core_def)
  moreover have "ev\<^sup>*\<^sup>* ?s s'" using loop assms(2) by (intro evs_response_loop) (simp_all add: live_def)
  ultimately show ?thesis by (rule converse_rtranclp_into_rtranclp)
qed

lemma evs_handlePollEvents:
  assumes "rtsp_ok s" "handlePollEvents now env rcv events s = Some s'"
  shows "ev\<^sup>*\<^sup>* s s'"
proof -
  have reset: "ev s (resetConnect now a s)" for a
    using assms(1) by (intro ev_resetConnect [where rq = RTSP_REQUEST_NONE]) (simp_all add: rtsp_ok_def query_cfg_def)
  have status: "ev s (s\<lparr>m_rtsp_status := st\<rparr>)" "ev s ((stopTimerResetConnect s)\<lparr>m_rtsp_status := st\<rparr>)"
    "ev s (resetReconnectBackoff (stopTimerReconnect (s\<lparr>m_rtsp_status := st\<rparr>)))" for s st
    by (rule ev.quiet; simp add: core_def timer_ops resetReconnectBackoff_def)+
  show ?thesis
  proof (cases "POLLHUP \<in> events \<or> POLLERR \<in> events \<or> POLLNVAL \<in> events")
    case True
    then show ?thesis using assms(2) reset by (auto simp: handlePollEvents_def)
  next
    case False
    note run = assms(2) [unfolded handlePollEvents_def]
    show ?thesis
    proof (cases "m_rtsp_status s = RTSP_STATUS_CONFIG_WAITING \<or> m_rtsp_status s = RTSP_STATUS_SERVER_CONNECTING \<or> POLLIN \<notin> events")
      case True
      then show ?thesis
        using run False status(2) by (cases "m_rtsp_status s") (auto split: if_splits)
    next
      case rd: False
      then have live: "live s" by (simp add: live_def)
      obtain s1 res where h: "handleResponse now env rcv s = Some (s1, res)"
        using run False rd by (cases "m_rtsp_status s") (auto elim!: bind_SomeE)
      note evs = evs_handleResponse [OF assms(1) live h]
      have "rtsp_ok s1" using handleResponse_ok [OF assms(1) live h] by (simp add: handled_def)
      then have "ev s1 (resetConnect now False s1)"
        by (intro ev_resetConnect [where rq = RTSP_REQUEST_NONE]) (simp_all add: rtsp_ok_def query_cfg_def)
      then have "ev s1 s'"
        using run False rd h status by (cases "m_rtsp_status s") (auto split: if_splits)
      then show ?thesis using evs by (rule rtranclp.rtrancl_into_rtrancl [rotated])
    qed
  qed
qed

section \<open>Client and server in step\<close>

text \<open>
  Once something has been sent on the connection, the server that reads it has every pid the client
  has recorded, and no other one unless the record is \<open>stale\<close>: cleared by the kernel without
  the server having been told a new list since.
\<close>

definition in_step :: "bool \<Rightarrow> rtsp \<Rightarrow> bool" where
  "in_step stale s \<longleftrightarrow> (k_sent s \<noteq> [] \<longrightarrow> m_requested_pids (cfg s) \<subseteq> server_of (k_sent s) \<and>
     (\<not> stale \<longrightarrow> m_requested_pids (cfg s) = server_of (k_sent s)))"

definition asked :: "rtsp \<Rightarrow> bool" where
  "asked s \<longleftrightarrow> (m_rtsp_request s \<noteq> RTSP_REQUEST_NONE \<or> m_rtsp_session_id s \<noteq> [] \<longrightarrow> k_sent s \<noteq> [])"

definition synced :: "bool \<Rightarrow> rtsp \<Rightarrow> bool" where
  "synced stale s \<longleftrightarrow> config_ok (cfg s) \<and> address_ok s \<and> asked s \<and> in_step stale s"

text \<open>A request that tells the server the complete list.\<close>

definition retold :: "rtsp \<Rightarrow> rtsp \<Rightarrow> bool" where
  "retold s s' \<longleftrightarrow> length (k_sent s') > length (k_sent s) \<and>
     (m_rtsp_request s' = RTSP_REQUEST_SETUP \<or> m_rtsp_request s' = RTSP_REQUEST_PLAY \<and> chan s = CONFIG_STATUS_CHANNEL_CHANGED)"

lemma same_pid_state_requested: "same_pid_state c c' \<Longrightarrow> m_requested_pids c' = m_requested_pids c"
  by (simp add: same_pid_state_def)

lemma sends_synced:
  assumes "sends rq s s'" "synced stale s"
  shows "synced (stale \<and> \<not> retold s s') s'"
proof -
  let ?c = "cfg s" and ?R = "server_of (k_sent s)" and ?S = "m_requested_pids (cfg s)"
  have c: "config_ok ?c" "address_ok s" "asked s" "in_step stale s" using assms(2) by (simp_all add: synced_def)
  have f: "rq \<noteq> RTSP_REQUEST_NONE" "k_sent s' = k_sent s @ [request_text rq s]" "m_rtsp_request s' = rq"
    "m_host s' = m_host s" "m_port s' = m_port s" "same_pid_state (query_cfg rq ?c) (cfg s')"
    using assms(1) by (simp_all add: sends_def core_def)
  have fresh: "rq \<noteq> RTSP_REQUEST_SETUP \<Longrightarrow> k_sent s \<noteq> []"
    using assms(1) c(3) by (auto simp: sends_def asked_def)
  have ok: "config_ok (cfg s')" using same_pid_state_inv(1) [OF f(6)] query_cfg_ok(1) [OF c(1)] by simp
  have srv: "server_of (k_sent s') = server_pids ?R (request_query (request_text rq s))" by (simp add: f(2))
  note q = srv [unfolded request_query_of [OF c(1,2)]]
  have req: "m_requested_pids (cfg s') = m_requested_pids (query_cfg rq ?c)" by (rule same_pid_state_requested [OF f(6)])
  have "in_step (stale \<and> \<not> retold s s') s'"
  proof (cases rq)
    case RTSP_REQUEST_SETUP
    have "m_requested_pids (fst (getSetupData ?c)) = all_wanted ?c"
      using tuned_ok(2) [OF c(1)] by (simp add: getSetupData_eq [OF c(1)] requested_def)
    then show ?thesis using q req by (simp add: RTSP_REQUEST_SETUP query_cfg_def setup_server [OF c(1)] in_step_def)
  next
    case RTSP_REQUEST_PLAY
    have old: "?S \<subseteq> ?R" "\<not> stale \<Longrightarrow> ?S = ?R"
      using c(4) fresh RTSP_REQUEST_PLAY by (auto simp: in_step_def)
    have "retold s s' \<longleftrightarrow> m_status ?c = CONFIG_STATUS_CHANNEL_CHANGED" by (simp add: retold_def f RTSP_REQUEST_PLAY)
    then show ?thesis
      using q req old by (auto simp: RTSP_REQUEST_PLAY query_cfg_def play_server [OF c(1)] play_requested [OF c(1)] in_step_def)
  qed (use q req c(4) fresh f(1,3) in \<open>auto simp: query_cfg_def in_step_def retold_def\<close>)
  then show ?thesis using ok c(2) f by (simp add: synced_def asked_def address_ok_def)
qed

lemma synced_mono: "synced d s \<Longrightarrow> (d \<Longrightarrow> d') \<Longrightarrow> synced d' s"
  by (auto simp: synced_def in_step_def)

lemma tap_data_keeps:
  assumes "config_ok c" "n \<le> length data" "tap_data now0 now1 data n c = Some c'"
  shows "config_ok c'" "m_requested_pids c' = m_requested_pids c"
  using tap_data_ok [OF assms(1,2), of now0 now1] assms(3) by auto

lemma ev_synced:
  assumes "ev s s'" "synced d s"
  shows "synced (d \<and> \<not> retold s s') s'"
  using assms(1)
proof cases
  case quiet
  then show ?thesis
    using assms(2) same_pid_state_inv(1) [OF quiet(2)] same_pid_state_requested [OF quiet(2)]
    by (auto simp: core_def synced_def in_step_def asked_def address_ok_def retold_def)
next
  case (reset rq)
  have "config_ok (cfg s')"
    using assms(2) same_pid_state_inv(1) [OF reset(2)] query_cfg_ok(1) by (simp add: synced_def)
  then show ?thesis using reset assms(2) by (simp add: core_def synced_def in_step_def asked_def address_ok_def)
next
  case (send rq)
  then show ?thesis by (rule sends_synced [OF _ assms(2)])
next
  case (answer sid)
  then show ?thesis
    using assms(2) same_pid_state_inv(1) [OF answer(3)] same_pid_state_requested [OF answer(3)]
    by (auto simp: core_def synced_def in_step_def asked_def address_ok_def retold_def)
next
  case (tap n data now0 now1)
  have "config_ok (cfg s)" using assms(2) by (simp add: synced_def)
  then show ?thesis
    using assms(2) tap tap_data_keeps [OF _ tap(2,3)]
    by (auto simp: core_def synced_def in_step_def asked_def address_ok_def retold_def)
qed

lemma evs_synced: "ev\<^sup>*\<^sup>* s s' \<Longrightarrow> synced d s \<Longrightarrow> synced d s'"
  by (induction rule: rtranclp_induct) (auto intro: synced_mono [OF ev_synced])

lemma ev_config_reach:
  assumes "ev s s'" "config_reach (cfg s)"
  shows "config_reach (cfg s')"
proof -
  have q: "config_reach (query_cfg rq (cfg s))" for rq
    using assms(2) by (auto simp: query_cfg_def intro: config_reach.intros split: rtsp_request.split)
  show ?thesis
    using assms(1) by cases (auto simp: sends_def intro: config_reach.on_tune [OF q] config_reach.on_tune [OF assms(2)] config_reach.on_tap [OF assms(2)])
qed

lemma evs_config_reach: "ev\<^sup>*\<^sup>* s s' \<Longrightarrow> config_reach (cfg s) \<Longrightarrow> config_reach (cfg s')"
  by (induction rule: rtranclp_induct) (auto intro: ev_config_reach)

text \<open>The client's constructor, and changes of the configuration by the kernel and the tap.\<close>

lemma satipRTSP_synced:
  assumes "config_ok c" "clean host" "clean port" "CHR ''?'' \<notin> set host" "CHR ''?'' \<notin> set port"
  shows "synced d (satipRTSP raw now mem t0 ts0 c host port r)"
  using assms
  by (simp add: satipRTSP_def resetConnect_def close_fd_def Let_def timer_ops resetReconnectBackoff_def
      synced_def in_step_def asked_def address_ok_def)

lemma change_synced:
  assumes "synced d s"
  shows "same_pid_state (cfg s) c \<Longrightarrow> synced d (s\<lparr>m_satip_config := c, m_rtp := r\<rparr>)"
    "n \<le> length data \<Longrightarrow> tap_data now0 now1 data n (cfg s) = Some c \<Longrightarrow> synced d (s\<lparr>m_satip_config := c, m_rtp := r\<rparr>)"
    "synced True (s\<lparr>m_satip_config := clearProperty (cfg s), m_rtp := r\<rparr>)"
    "synced d (s\<lparr>m_satip_config := updatePidList pl (cfg s), m_rtp := r\<rparr>)"
    "synced d (s\<lparr>m_satip_config := wakeup (cfg s), m_rtp := r\<rparr>)"
proof -
  have ok: "config_ok (cfg s)" using assms by (simp add: synced_def)
  have other: "synced d' (s\<lparr>m_satip_config := c, m_rtp := r\<rparr>)"
    if "config_ok c" "m_requested_pids c = m_requested_pids (cfg s) \<and> d' = d \<or> m_requested_pids c = {} \<and> d'" for c d'
    using that assms by (auto simp: synced_def in_step_def asked_def address_ok_def)
  show "same_pid_state (cfg s) c \<Longrightarrow> synced d (s\<lparr>m_satip_config := c, m_rtp := r\<rparr>)"
    using ok same_pid_state_inv(1) same_pid_state_requested by (intro other) auto
  show "n \<le> length data \<Longrightarrow> tap_data now0 now1 data n (cfg s) = Some c \<Longrightarrow> synced d (s\<lparr>m_satip_config := c, m_rtp := r\<rparr>)"
    using tap_data_keeps [OF ok] by (intro other) auto
  show "synced True (s\<lparr>m_satip_config := clearProperty (cfg s), m_rtp := r\<rparr>)"
    using clearProperty_ok [OF ok] by (intro other) auto
  show "synced d (s\<lparr>m_satip_config := updatePidList pl (cfg s), m_rtp := r\<rparr>)"
    using updatePidList_run [OF ok, of pl] by (intro other) auto
  show "synced d (s\<lparr>m_satip_config := wakeup (cfg s), m_rtp := r\<rparr>)"
    using ok by (intro other) (simp_all add: wakeup_inv, simp add: wakeup_def)
qed

end
