(* ===== verification/Vtuner.thy ===== *)
theory Vtuner
  imports Config_Query Rtp Timer
begin

text \<open>
  The virtual tuner device, \<^verbatim>\<open>satipVtuner\<close> of \<^verbatim>\<open>src/vtuner.h\<close> and \<^verbatim>\<open>src/vtuner.cpp\<close>: opening a
  device node and finding out which of the two numberings of requests its driver has, and
  the handler of the driver's messages, which turns them into changes of the configuration
  and answers from the receiver's signal values. The headers of the kernel are not part of
  the sources: their enumerations are datatypes, and the numbers the messages carry are read
  by the functions of a record \<open>frontend_abi\<close> that every operation takes as an argument.
  Shown: the driver's numbering is found without a harmful request, a tuning sequence of
  messages reaches the server's query unchanged, the reported status follows lock, attempts
  and the three second limit.
\<close>

section \<open>The kernel's interface\<close>

datatype fe_tone = SEC_TONE_ON | SEC_TONE_OFF | SEC_TONE_other int
datatype fe_burst = SEC_MINI_A | SEC_MINI_B | SEC_MINI_other int
datatype fe_status_flag = FE_HAS_SIGNAL | FE_HAS_LOCK | FE_TIMEDOUT
datatype fe_class = FE_QPSK | FE_QAM | FE_OFDM

datatype fe_cap =
  FE_CAN_INVERSION_AUTO | FE_CAN_FEC_1_2 | FE_CAN_FEC_2_3 | FE_CAN_FEC_3_4 | FE_CAN_FEC_4_5
| FE_CAN_FEC_5_6 | FE_CAN_FEC_7_8 | FE_CAN_FEC_8_9 | FE_CAN_FEC_AUTO | FE_CAN_QPSK | FE_CAN_QAM_16
| FE_CAN_QAM_32 | FE_CAN_QAM_64 | FE_CAN_QAM_128 | FE_CAN_QAM_256 | FE_CAN_TRANSMISSION_MODE_AUTO
| FE_CAN_GUARD_INTERVAL_AUTO | FE_CAN_HIERARCHY_AUTO | FE_CAN_RECOVER | FE_CAN_2G_MODULATION
| FE_CAN_MULTISTREAM

datatype dtv_cmd =
  DTV_FREQUENCY | DTV_DELIVERY_SYSTEM | DTV_MODULATION | DTV_SYMBOL_RATE | DTV_INNER_FEC | DTV_ROLLOFF
| DTV_PILOT | DTV_TUNE | DTV_CLEAR | DTV_CODE_RATE_LP | DTV_CODE_RATE_HP | DTV_TRANSMISSION_MODE
| DTV_GUARD_INTERVAL | DTV_HIERARCHY | DTV_BANDWIDTH_HZ | DTV_STREAM_ID | DTV_INVERSION
| DTV_SCRAMBLING_SEQUENCE_INDEX | DTV_other int

text \<open>
  What the build takes from outside: the numbers of the header's enumerations, read as
  functions from \<^verbatim>\<open>int\<close>, the number of \<^verbatim>\<open>FEC_9_10\<close>, the version of the interface (at least 5.5,
  at least 5.11), the switch \<^verbatim>\<open>HAVE_NO_MSG16\<close>, and whether the higher request numbers are preferred.
\<close>

record frontend_abi =
  abi_delsys :: "int \<Rightarrow> fe_delsys"
  abi_modulation :: "int \<Rightarrow> fe_modulation"
  abi_code_rate :: "int \<Rightarrow> fe_code_rate"
  abi_FEC_9_10 :: int
  abi_rolloff :: "int \<Rightarrow> fe_rolloff"
  abi_pilot :: "int \<Rightarrow> fe_pilot"
  abi_transmode :: "int \<Rightarrow> fe_transmode"
  abi_guard :: "int \<Rightarrow> fe_guard"
  abi_version_5_5 :: bool
  abi_version_5_11 :: bool
  abi_no_msg16 :: bool
  abi_high_numbers :: bool

definition VTUNER_GET_MESSAGE :: "frontend_abi \<Rightarrow> int" where
  "VTUNER_GET_MESSAGE H = (if abi_high_numbers H then 11 else 1)"
definition VTUNER_SET_RESPONSE :: "frontend_abi \<Rightarrow> int" where
  "VTUNER_SET_RESPONSE H = (if abi_high_numbers H then 12 else 2)"
definition VTUNER_SET_NAME :: "frontend_abi \<Rightarrow> int" where
  "VTUNER_SET_NAME H = (if abi_high_numbers H then 13 else 3)"
definition VTUNER_SET_TYPE :: "frontend_abi \<Rightarrow> int" where
  "VTUNER_SET_TYPE H = (if abi_high_numbers H then 14 else 4)"
definition VTUNER_SET_HAS_OUTPUTS :: "frontend_abi \<Rightarrow> int" where
  "VTUNER_SET_HAS_OUTPUTS H = (if abi_high_numbers H then 15 else 5)"
definition VTUNER_SET_FE_INFO :: "frontend_abi \<Rightarrow> int" where
  "VTUNER_SET_FE_INFO H = (if abi_high_numbers H then 16 else 6)"
definition VTUNER_SET_DELSYS :: "frontend_abi \<Rightarrow> int" where
  "VTUNER_SET_DELSYS H = (if abi_high_numbers H then 17 else 7)"

lemmas vtuner_numbers = VTUNER_GET_MESSAGE_def VTUNER_SET_RESPONSE_def VTUNER_SET_NAME_def VTUNER_SET_TYPE_def
  VTUNER_SET_HAS_OUTPUTS_def VTUNER_SET_FE_INFO_def VTUNER_SET_DELSYS_def

datatype msg_type =
  MSG_SET_FRONTEND | MSG_GET_FRONTEND | MSG_READ_STATUS | MSG_READ_BER | MSG_READ_SIGNAL_STRENGTH
| MSG_READ_SNR | MSG_READ_UCBLOCKS | MSG_SET_TONE | MSG_SET_VOLTAGE | MSG_ENABLE_HIGH_VOLTAGE
| MSG_SEND_DISEQC_MSG | MSG_SEND_DISEQC_BURST | MSG_PIDLIST | MSG_TYPE_CHANGED | MSG_SET_PROPERTY
| MSG_GET_PROPERTY | MSG_GET_TUNE_SETTINGS | MSG_NULL | MSG_DISCOVER | MSG_UPDATE | MSG_UNKNOWN int

definition msg_type_of :: "int \<Rightarrow> msg_type" where
  "msg_type_of n = (if n = 1 then MSG_SET_FRONTEND else if n = 2 then MSG_GET_FRONTEND
     else if n = 3 then MSG_READ_STATUS else if n = 4 then MSG_READ_BER
     else if n = 5 then MSG_READ_SIGNAL_STRENGTH else if n = 6 then MSG_READ_SNR
     else if n = 7 then MSG_READ_UCBLOCKS else if n = 8 then MSG_SET_TONE
     else if n = 9 then MSG_SET_VOLTAGE else if n = 10 then MSG_ENABLE_HIGH_VOLTAGE
     else if n = 11 then MSG_SEND_DISEQC_MSG else if n = 13 then MSG_SEND_DISEQC_BURST
     else if n = 14 then MSG_PIDLIST else if n = 15 then MSG_TYPE_CHANGED
     else if n = 16 then MSG_SET_PROPERTY else if n = 17 then MSG_GET_PROPERTY
     else if n = 18 then MSG_GET_TUNE_SETTINGS else if n = 1024 then MSG_NULL
     else if n = 1025 then MSG_DISCOVER else if n = 1026 then MSG_UPDATE else MSG_UNKNOWN n)"

text \<open>
  A message. The body is a union of which each handler uses the member that belongs to the
  type, so the record holds what each member reads; no handler reads a member after writing
  another one.
\<close>

record vtuner_message =
  v_type :: int
  b_cmd :: dtv_cmd
  b_data :: u32
  b_status :: "fe_status_flag set"
  b_ber :: u32
  b_ss :: u16
  b_snr :: u16
  b_ucb :: u32
  b_tone :: fe_tone
  b_voltage :: fe_voltage
  b_diseqc :: "u8 list"
  b_diseqc_len :: u8
  b_burst :: fe_burst
  b_pidlist :: "u16 list"
  b_min_delay_ms :: int
  b_step_size :: int
  b_max_drift :: int

section \<open>State\<close>

text \<open>\<open>v_open\<close>: the descriptors of device nodes the object holds open.\<close>

record vtuner =
  v_fd :: int
  v_ioctl_offset :: int
  v_openok :: bool
  v_tune_tries :: int
  v_timeout :: timespec
  v_tone :: fe_tone
  v_open :: "int list"

section \<open>Time\<close>

definition ts_minus :: "timespec \<Rightarrow> timespec \<Rightarrow> timespec" where
  "ts_minus t1 t2 =
     (let sec = tv_sec t1 - tv_sec t2; nsec = tv_nsec t1 - tv_nsec t2 in
      if nsec < 0 then \<lparr>tv_sec = sec - 1, tv_nsec = nsec + 1000000000\<rparr>
      else \<lparr>tv_sec = sec, tv_nsec = nsec\<rparr>)"

definition ts_plus :: "timespec \<Rightarrow> int \<Rightarrow> timespec" where
  "ts_plus t1 msek =
     (let sec = tv_sec t1 + msek sdiv 1000; nsec = tv_nsec t1 + (msek smod 1000) * 1000000 in
      if nsec \<ge> 1000000000 then \<lparr>tv_sec = sec + 1, tv_nsec = nsec - 1000000000\<rparr>
      else \<lparr>tv_sec = sec, tv_nsec = nsec\<rparr>)"

definition timeout_msec :: "timespec \<Rightarrow> timespec \<Rightarrow> int" where
  "timeout_msec orig now =
     (let tv = ts_minus orig now in tv_sec tv * 1000 + tv_nsec tv sdiv 1000000)"

section \<open>Opening the device\<close>

text \<open>
  The results of opening \<^verbatim>\<open>/dev/misc/vtuner0\<close>, \<^verbatim>\<open>/dev/misc/vtuner1\<close> and so on, up to the first node
  that does not exist.
\<close>

fun AllocateVtuner :: "int list \<Rightarrow> int" where
  "AllocateVtuner [] = -1"
| "AllocateVtuner (fd # nodes) = (if fd < 0 then AllocateVtuner nodes else fd)"

record fe_info =
  i_name :: string
  i_type :: fe_class
  i_frequency_min :: int
  i_frequency_max :: int
  i_frequency_stepsize :: int
  i_frequency_tolerance :: int
  i_symbol_rate_min :: int
  i_symbol_rate_max :: int
  i_symbol_rate_tolerance :: int
  i_notifier_delay :: int
  i_caps :: "fe_cap set"

definition fe_description :: "fe_kind \<Rightarrow> (fe_info \<times> string) option" where
  "fe_description fe_type = (case fe_type of
     FE_TYPE_SAT \<Rightarrow> Some (\<lparr>i_name = ''SAT>IP DVB-S2 VTUNER'', i_type = FE_QPSK,
       i_frequency_min = 925000, i_frequency_max = 2175000, i_frequency_stepsize = 125000,
       i_frequency_tolerance = 0, i_symbol_rate_min = 1000000, i_symbol_rate_max = 45000000,
       i_symbol_rate_tolerance = 0, i_notifier_delay = 0,
       i_caps = {FE_CAN_INVERSION_AUTO, FE_CAN_FEC_1_2, FE_CAN_FEC_2_3, FE_CAN_FEC_3_4, FE_CAN_FEC_4_5,
         FE_CAN_FEC_5_6, FE_CAN_FEC_7_8, FE_CAN_FEC_8_9, FE_CAN_QPSK, FE_CAN_RECOVER,
         FE_CAN_2G_MODULATION, FE_CAN_MULTISTREAM}\<rparr>, ''DVB-S2'')
   | FE_TYPE_CABLE \<Rightarrow> Some (\<lparr>i_name = ''SAT>IP DVB-C VTUNER'', i_type = FE_QAM,
       i_frequency_min = 51000000, i_frequency_max = 858000000, i_frequency_stepsize = 62500,
       i_frequency_tolerance = 0, i_symbol_rate_min = (57840000 sdiv 2) sdiv 64,
       i_symbol_rate_max = (57840000 sdiv 2) sdiv 4, i_symbol_rate_tolerance = 0, i_notifier_delay = 0,
       i_caps = {FE_CAN_INVERSION_AUTO, FE_CAN_QAM_16, FE_CAN_QAM_32, FE_CAN_QAM_64, FE_CAN_QAM_128,
         FE_CAN_QAM_256, FE_CAN_RECOVER, FE_CAN_FEC_AUTO}\<rparr>, ''DVB-C'')
   | FE_TYPE_TERRESTRIAL \<Rightarrow> Some (\<lparr>i_name = ''SAT>IP DVB-T VTUNER'', i_type = FE_OFDM,
       i_frequency_min = 0, i_frequency_max = 863250000, i_frequency_stepsize = 62500,
       i_frequency_tolerance = 0, i_symbol_rate_min = 0, i_symbol_rate_max = 0,
       i_symbol_rate_tolerance = 0, i_notifier_delay = 0,
       i_caps = {FE_CAN_INVERSION_AUTO, FE_CAN_FEC_1_2, FE_CAN_FEC_2_3, FE_CAN_FEC_3_4, FE_CAN_FEC_5_6,
         FE_CAN_FEC_7_8, FE_CAN_FEC_AUTO, FE_CAN_QAM_16, FE_CAN_QAM_64, FE_CAN_QPSK,
         FE_CAN_TRANSMISSION_MODE_AUTO, FE_CAN_GUARD_INTERVAL_AUTO, FE_CAN_HIERARCHY_AUTO,
         FE_CAN_RECOVER, FE_CAN_2G_MODULATION}\<rparr>, ''DVB-T'')
   | FE_TYPE_other n \<Rightarrow> None)"

text \<open>The delivery systems announced; the rest of the array is zero.\<close>

definition delsys_caps :: "fe_kind \<Rightarrow> fe_info \<Rightarrow> fe_delsys list" where
  "delsys_caps fe_type info = (case fe_type of
     FE_TYPE_SAT \<Rightarrow> [SYS_DVBS] @ (if FE_CAN_2G_MODULATION \<in> i_caps info then [SYS_DVBS2] else [])
   | FE_TYPE_CABLE \<Rightarrow> [SYS_DVBC_ANNEX_A]
   | FE_TYPE_TERRESTRIAL \<Rightarrow> [SYS_DVBT] @ (if FE_CAN_2G_MODULATION \<in> i_caps info then [SYS_DVBT2] else [])
   | FE_TYPE_other n \<Rightarrow> [])"

datatype ioctl_arg = Arg_text string | Arg_info fe_info | Arg_delsys "fe_delsys list"
datatype errno = EINVAL | ENOTTY | E_other int

text \<open>The label \<^verbatim>\<open>error\<close>.\<close>

definition open_error :: "vtuner \<Rightarrow> vtuner" where
  "open_error v = (if v_fd v \<ge> 0 then v\<lparr>v_fd := -1, v_open := removeAll (v_fd v) (v_open v)\<rparr> else v)"

text \<open>
  \<open>drv n\<close> is the error of the driver's request \<open>n\<close>, or \<open>None\<close>. The results are the object, the
  returned value and the requests made.
\<close>

definition openVtuner ::
  "frontend_abi \<Rightarrow> int list \<Rightarrow> (int \<Rightarrow> errno option) \<Rightarrow> config \<Rightarrow> vtuner \<Rightarrow> vtuner \<times> int \<times> (int \<times> ioctl_arg) list" where
  "openVtuner H nodes drv c v =
     (let fd = AllocateVtuner nodes in
      if fd = -1 then (open_error v, -1, [])
      else let v = v\<lparr>v_fd := fd, v_open := fd # v_open v\<rparr> in
      case fe_description (m_fe_type c) of None \<Rightarrow> (open_error v, -1, [])
      | Some (info, fe_type_str) \<Rightarrow>
        (let name = VTUNER_SET_NAME H;
             again = (drv name = Some EINVAL \<or> drv name = Some ENOTTY);
             v = (if again then v\<lparr>v_ioctl_offset := (if name = 13 then -10 else 10)\<rparr> else v);
             off = v_ioctl_offset v;
             result = (if again then drv (name + off) else drv name);
             calls = [(name, Arg_text (i_name info))] @ (if again then [(name + off, Arg_text (i_name info))] else []) in
         if result \<noteq> None then (open_error v, -1, calls)
         else let calls = calls @ [(VTUNER_SET_TYPE H + off, Arg_text fe_type_str)] in
         if drv (VTUNER_SET_TYPE H + off) \<noteq> None then (open_error v, -1, calls)
         else let calls = calls @ [(VTUNER_SET_FE_INFO H + off, Arg_info info)] in
         if drv (VTUNER_SET_FE_INFO H + off) \<noteq> None then (open_error v, -1, calls)
         else let calls = calls @ (if abi_version_5_5 H
                  then [(VTUNER_SET_DELSYS H + off, Arg_delsys (delsys_caps (m_fe_type c) info))] else []) in
         (v, 0, calls @ [(VTUNER_SET_HAS_OUTPUTS H + off, Arg_text ''no'')])))"

text \<open>
  The constructor; it leaves \<^verbatim>\<open>tune_tries\<close> and \<^verbatim>\<open>timeout\<close> unset, \<open>tries0\<close> and \<open>timeout0\<close> are their
  initial contents.
\<close>

definition vtuner_new :: "int \<Rightarrow> timespec \<Rightarrow> vtuner" where
  "vtuner_new tries0 timeout0 =
     \<lparr>v_fd = -1, v_ioctl_offset = 0, v_openok = False, v_tune_tries = tries0, v_timeout = timeout0,
      v_tone = SEC_TONE_OFF, v_open = []\<rparr>"

definition satipVtuner ::
  "frontend_abi \<Rightarrow> int list \<Rightarrow> (int \<Rightarrow> errno option) \<Rightarrow> int \<Rightarrow> timespec \<Rightarrow> config \<Rightarrow> vtuner" where
  "satipVtuner H nodes drv tries0 timeout0 c =
     (let r = openVtuner H nodes drv c (vtuner_new tries0 timeout0) in
      (fst r)\<lparr>v_openok := (fst (snd r) = 0)\<rparr>)"

definition vtuner_delete :: "vtuner \<Rightarrow> vtuner" where
  "vtuner_delete v = (if v_fd v \<ge> 0 then v\<lparr>v_open := removeAll (v_fd v) (v_open v)\<rparr> else v)"

section \<open>The messages\<close>

definition setProperty :: "frontend_abi \<Rightarrow> vtuner_message \<Rightarrow> vtuner \<Rightarrow> config \<Rightarrow> config" where
  "setProperty H msg v c =
     (let data = b_data msg in
      case b_cmd msg of
        DTV_FREQUENCY \<Rightarrow>
          setFrequency (if m_fe_type c = FE_TYPE_SAT
            then data div 100 + (if v_tone v = SEC_TONE_ON then 106000 else 97500)
            else data div 100000) c
      | DTV_DELIVERY_SYSTEM \<Rightarrow> setModsys (abi_delsys H (sint data)) c
      | DTV_MODULATION \<Rightarrow> setModtype (abi_modulation H (sint data)) c
      | DTV_SYMBOL_RATE \<Rightarrow> setSymrate (sint (data div 1000)) c
      | DTV_INNER_FEC \<Rightarrow>
          (let fec = sint (data AND 31) in
           if fec \<le> abi_FEC_9_10 H then setFec (abi_code_rate H fec) c else c)
      | DTV_ROLLOFF \<Rightarrow> setRolloff (abi_rolloff H (sint data)) c
      | DTV_PILOT \<Rightarrow> setPilots (abi_pilot H (sint data)) c
      | DTV_TUNE \<Rightarrow> setChannelChanged c
      | DTV_CLEAR \<Rightarrow> clearProperty c
      | DTV_CODE_RATE_LP \<Rightarrow> setFec FEC_AUTO c
      | DTV_CODE_RATE_HP \<Rightarrow> setFec FEC_AUTO c
      | DTV_TRANSMISSION_MODE \<Rightarrow> setTransmode (abi_transmode H (sint data)) c
      | DTV_GUARD_INTERVAL \<Rightarrow> setGuardInterval (abi_guard H (sint data)) c
      | DTV_HIERARCHY \<Rightarrow> c
      | DTV_BANDWIDTH_HZ \<Rightarrow> setBandwidth (sint data) c
      | DTV_STREAM_ID \<Rightarrow> setPLP (sint data) c
      | DTV_INVERSION \<Rightarrow> c
      | DTV_SCRAMBLING_SEQUENCE_INDEX \<Rightarrow> (if abi_version_5_11 H then setPLScode (sint data) c else c)
      | DTV_other n \<Rightarrow> c)"

definition setDiseqc :: "vtuner_message \<Rightarrow> vtuner \<times> config \<Rightarrow> vtuner \<times> config" where
  "setDiseqc msg vc =
     (let (v, c) = vc; m = b_diseqc msg in
      if m ! 0 = 0xe0 \<and> m ! 1 = 0x10 \<and> m ! 2 = 0x38 \<and> b_diseqc_len msg = 4
      then (let data = m ! 3;
                v = (if data AND 0x01 = 0x01 then v\<lparr>v_tone := SEC_TONE_ON\<rparr>
                     else if data AND 0x11 = 0x10 then v\<lparr>v_tone := SEC_TONE_OFF\<rparr> else v);
                c = (if data AND 0x02 = 0x02 then setVoltage SEC_VOLTAGE_18 c
                     else if data AND 0x22 = 0x20 then setVoltage SEC_VOLTAGE_13 c else c);
                position = uint (drop_bit 2 (data AND 0x0c)) + 1 in
            (v, setPosition position c))
      else if m ! 0 = 0xe0 \<and> m ! 1 = 0x10 \<and> m ! 2 = 0x39 \<and> b_diseqc_len msg = 4
      then (v, setPosition (uint (m ! 3 AND 0x0F) + 1) c)
      else (v, c))"

definition setPidList :: "vtuner_message \<Rightarrow> config \<Rightarrow> config" where
  "setPidList msg c = updatePidList (b_pidlist msg) c"

text \<open>\<^verbatim>\<open>MSG_READ_SNR\<close>: both factors are promoted to \<^verbatim>\<open>int\<close>, in which the product may wrap around.\<close>

definition snr_value :: "rtp \<Rightarrow> u16" where
  "snr_value r = word_of_int (s32 (uint (word_of_int (m_signalStrength r) :: u16) *
     uint (word_of_int (m_signalQuality r) :: u16)) sdiv 65535)"

definition read_status :: "timespec \<Rightarrow> vtuner \<Rightarrow> rtp option \<Rightarrow> fe_status_flag set" where
  "read_status now v r =
     (if r \<noteq> None \<and> m_hasLock (the r) then {FE_HAS_LOCK}
      else (if timeout_msec (v_timeout v) now < 0 then {FE_TIMEDOUT} else {}) \<union>
           (if v_tune_tries v AND 4 \<noteq> 0 then {FE_HAS_SIGNAL} else {}))"

text \<open>
  The device, the configuration and the receiver it works on, \<open>None\<close> when the pointer is not
  set. \<open>get n\<close> is the message that request \<open>n\<close> delivers, \<open>None\<close> when it fails; the second result is the
  number and the message of the response.
\<close>

type_synonym vtuner_state = "vtuner \<times> config \<times> rtp option"

definition vtunerEvent ::
  "frontend_abi \<Rightarrow> timespec \<Rightarrow> (int \<Rightarrow> vtuner_message option) \<Rightarrow> vtuner_state \<Rightarrow>
   vtuner_state \<times> (int \<times> vtuner_message) option" where
  "vtunerEvent H now get st = (case st of (v, c, r) \<Rightarrow>
     (case get (VTUNER_GET_MESSAGE H + v_ioctl_offset v) of None \<Rightarrow> (st, None)
      | Some msg \<Rightarrow>
        (let respond = (\<lambda>st' msg'. (st', Some (VTUNER_SET_RESPONSE H + v_ioctl_offset v, msg'\<lparr>v_type := 0\<rparr>))) in
         case msg_type_of (v_type msg) of
           MSG_SET_FRONTEND \<Rightarrow>
             respond (v\<lparr>v_tune_tries := s32 (v_tune_tries v + 1)\<rparr>,
               if abi_no_msg16 H then setProperty H msg v c else c, r) msg
         | MSG_SET_TONE \<Rightarrow> respond (v\<lparr>v_tone := b_tone msg\<rparr>, c, r) msg
         | MSG_SET_VOLTAGE \<Rightarrow> respond (v, setVoltage (b_voltage msg) c, r) msg
         | MSG_PIDLIST \<Rightarrow> ((v, setPidList msg c, r), None)
         | MSG_READ_STATUS \<Rightarrow> respond st (msg\<lparr>b_status := read_status now v r\<rparr>)
         | MSG_READ_BER \<Rightarrow> respond st (msg\<lparr>b_ber := 0\<rparr>)
         | MSG_READ_SIGNAL_STRENGTH \<Rightarrow>
             respond st (case r of None \<Rightarrow> msg | Some x \<Rightarrow> msg\<lparr>b_ss := word_of_int (m_signalStrength x)\<rparr>)
         | MSG_READ_SNR \<Rightarrow>
             respond st (case r of None \<Rightarrow> msg | Some x \<Rightarrow> msg\<lparr>b_snr := snr_value x\<rparr>)
         | MSG_READ_UCBLOCKS \<Rightarrow> respond st (msg\<lparr>b_ucb := 0\<rparr>)
         | MSG_SEND_DISEQC_BURST \<Rightarrow>
             respond (v, case b_burst msg of SEC_MINI_A \<Rightarrow> setPosition 1 c
               | SEC_MINI_B \<Rightarrow> setPosition 2 c | _ \<Rightarrow> c, r) msg
         | MSG_SEND_DISEQC_MSG \<Rightarrow> respond (case setDiseqc msg (v, c) of (v', c') \<Rightarrow> (v', c', r)) msg
         | MSG_SET_PROPERTY \<Rightarrow> respond (v, setProperty H msg v c, r) msg
         | MSG_GET_TUNE_SETTINGS \<Rightarrow>
             respond (v\<lparr>v_tune_tries := 0, v_timeout := ts_plus now 3000\<rparr>, c, map_option unset r)
               (msg\<lparr>b_min_delay_ms := 50, b_step_size := 0, b_max_drift := 0\<rparr>)
         | _ \<Rightarrow> respond st msg)))"

fun vtunerEvents ::
  "frontend_abi \<Rightarrow> (timespec \<times> vtuner_message) list \<Rightarrow> vtuner_state \<Rightarrow> vtuner_state" where
  "vtunerEvents H [] st = st"
| "vtunerEvents H ((now, msg) # msgs) st = vtunerEvents H msgs (fst (vtunerEvent H now (\<lambda>_. Some msg) st))"

section \<open>Finding the driver's numbering\<close>

text \<open>
  A driver with the numbering that starts at \<open>base\<close> accepts the requests that set name, type and
  description, and rejects the other numbering's name request with one of the two errors for
  unknown requests.
\<close>

definition driver_ok :: "int \<Rightarrow> (int \<Rightarrow> errno option) \<Rightarrow> bool" where
  "driver_ok base drv \<longleftrightarrow> (base = 0 \<or> base = 10) \<and>
     drv (base + 3) = None \<and> drv (base + 4) = None \<and> drv (base + 6) = None \<and>
     drv (13 - base) \<in> {Some EINVAL, Some ENOTTY}"

lemma AllocateVtuner_found:
  "\<exists>fd \<in> set nodes. 0 \<le> fd \<Longrightarrow> AllocateVtuner nodes \<in> set nodes \<and> 0 \<le> AllocateVtuner nodes"
  by (induction nodes) auto

lemma AllocateVtuner_range: "AllocateVtuner nodes = -1 \<or> 0 \<le> AllocateVtuner nodes"
  by (induction nodes) auto

text \<open>
  C37. A device whose driver has either of the two numberings is opened whichever of them the build
  prefers: the first node that can be opened is used, every later request has the driver's own
  numbers, and the only request that can have reached a driver with the other numbering
  is its name request, which is harmless there.
\<close>

theorem openVtuner_interface:
  assumes "driver_ok base drv" "\<exists>fd \<in> set nodes. 0 \<le> fd"
    and "m_fe_type c \<in> {FE_TYPE_SAT, FE_TYPE_CABLE, FE_TYPE_TERRESTRIAL}"
    and run: "openVtuner H nodes drv c (vtuner_new tries0 timeout0) = (v, ret, calls)"
  shows "ret = 0 \<and> v_fd v = AllocateVtuner nodes \<and> v_open v = [v_fd v] \<and>
    VTUNER_GET_MESSAGE H + v_ioctl_offset v = base + 1 \<and> VTUNER_SET_RESPONSE H + v_ioctl_offset v = base + 2 \<and>
    (\<forall>call \<in> set calls. base + 3 \<le> fst call \<and> fst call \<le> base + 7 \<or> fst call = VTUNER_SET_NAME H)"
proof -
  let ?fd = "AllocateVtuner nodes"
  have fd: "0 \<le> ?fd" "?fd \<noteq> -1" using AllocateVtuner_found [OF assms(2)] by auto
  obtain info str where d: "fe_description (m_fe_type c) = Some (info, str)"
    using assms(3) by (auto simp: fe_description_def)
  have drv: "base = 0 \<or> base = 10" "drv (base + 3) = None" "drv (base + 4) = None" "drv (base + 6) = None"
    "drv (13 - base) = Some EINVAL \<or> drv (13 - base) = Some ENOTTY"
    using assms(1) by (auto simp: driver_ok_def)
  show ?thesis
    using run drv fd(2)
    by (cases "abi_high_numbers H")
      (auto simp: openVtuner_def vtuner_new_def d Let_def vtuner_numbers split: if_splits)
qed

definition sample_abi :: frontend_abi where
  "sample_abi = \<lparr>abi_delsys = (\<lambda>n. if n = 5 then SYS_DVBS else if n = 6 then SYS_DVBS2 else SYS_other n),
     abi_modulation = (\<lambda>n. if n = 0 then QPSK else if n = 9 then PSK_8 else MOD_other n),
     abi_code_rate = (\<lambda>n. if n = 3 then FEC_3_4 else if n = 9 then FEC_AUTO else FEC_other n), abi_FEC_9_10 = 11,
     abi_rolloff = (\<lambda>n. if n = 0 then ROLLOFF_35 else ROLLOFF_other n),
     abi_pilot = (\<lambda>n. if n = 2 then PILOT_AUTO else PILOT_other n), abi_transmode = TRANSMISSION_MODE_other,
     abi_guard = GUARD_INTERVAL_other, abi_version_5_5 = True, abi_version_5_11 = True,
     abi_no_msg16 = False, abi_high_numbers = True\<rparr>"

theorem openVtuner_interface_witness:
  "fst (snd (openVtuner sample_abi [-1, 7] (\<lambda>n. if n < 10 then None else Some ENOTTY) blank_config
     (vtuner_new 0 \<lparr>tv_sec = 0, tv_nsec = 0\<rparr>))) = 0"
  using openVtuner_interface [of 0 "\<lambda>n. if n < 10 then None else Some ENOTTY" "[-1, 7]" blank_config sample_abi]
  by (simp add: driver_ok_def blank_config_def) (metis prod.collapse)

text \<open>Whatever the driver does, no descriptor is left open by a failed constructor.\<close>

lemma open_error_open: "v_open v = (if 0 \<le> v_fd v then [v_fd v] else []) \<Longrightarrow> v_open (open_error v) = []"
  by (simp add: open_error_def)

lemma satipVtuner_open:
  assumes "v = satipVtuner H nodes drv tries0 timeout0 c"
  shows "v_open v = (if v_openok v then [v_fd v] else [])" "v_openok v \<Longrightarrow> 0 \<le> v_fd v"
    "v_openok v \<or> v_fd v = -1"
proof -
  have "0 \<le> AllocateVtuner nodes \<or> AllocateVtuner nodes = -1" using AllocateVtuner_range by blast
  then show "v_open v = (if v_openok v then [v_fd v] else [])" "v_openok v \<Longrightarrow> 0 \<le> v_fd v"
    "v_openok v \<or> v_fd v = -1"
    by (auto simp: assms satipVtuner_def openVtuner_def vtuner_new_def open_error_def Let_def split: option.splits)
qed

section \<open>The messages change the configuration like its own operations\<close>

text \<open>A change of tuning parameters only, which never marks a channel as tuned.\<close>

definition tuning_change :: "config \<Rightarrow> config \<Rightarrow> bool" where
  "tuning_change c c' \<longleftrightarrow> same_pid_state c c' \<and> m_settings c' = m_settings c \<and> m_fe_type c' = m_fe_type c \<and>
     (m_status c' = CONFIG_STATUS_CHANNEL_STABLE \<longrightarrow> m_status c = CONFIG_STATUS_CHANNEL_STABLE)"

lemmas setter_defs = setPosition_def setFrequency_def setModsys_def setModtype_def setSymrate_def setFec_def
  setRolloff_def setPilots_def setTransmode_def setGuardInterval_def setBandwidth_def setPLP_def setPLScode_def
  setVoltage_def setChannelChanged_def

lemma tuning_changeI [simp]:
  "tuning_change c c" "tuning_change c (setPosition n c)" "tuning_change c (setFrequency f c)"
  "tuning_change c (setModsys ms c)" "tuning_change c (setModtype mt c)"
  "tuning_change c (setSymrate n c)" "tuning_change c (setFec fec c)"
  "tuning_change c (setRolloff ro c)" "tuning_change c (setPilots pl c)"
  "tuning_change c (setTransmode tm c)" "tuning_change c (setGuardInterval gi c)"
  "tuning_change c (setBandwidth n c)" "tuning_change c (setPLP n c)"
  "tuning_change c (setPLScode n c)" "tuning_change c (setVoltage vo c)" "tuning_change c (setChannelChanged c)"
  by (simp_all add: tuning_change_def setters_same_pid_state)
    (simp_all add: same_pid_state_def setter_defs Let_def split: fe_voltage.split)

lemma tuning_change_trans: "tuning_change c c' \<Longrightarrow> tuning_change c' c'' \<Longrightarrow> tuning_change c c''"
  by (auto simp: tuning_change_def same_pid_state_def)

lemma setProperty_change: "tuning_change c (setProperty H msg v c) \<or> setProperty H msg v c = clearProperty c"
  by (cases "b_cmd msg") (auto simp: setProperty_def Let_def)

lemma setDiseqc_change: "setDiseqc msg (v, c) = (v', c') \<Longrightarrow> tuning_change c c'"
  by (auto simp: setDiseqc_def Let_def split: if_splits
      intro: tuning_change_trans [OF tuning_changeI(15) tuning_changeI(2)])

lemma vtunerEvent_change:
  assumes "vtunerEvent H now get (v, c, r) = ((v', c', r'), resp)"
  shows "tuning_change c c' \<or> c' = clearProperty c \<or> (\<exists>ns. c' = updatePidList ns c)"
proof (cases "get (VTUNER_GET_MESSAGE H + v_ioctl_offset v)")
  case None
  then show ?thesis using assms by (simp add: vtunerEvent_def)
next
  case (Some msg)
  then show ?thesis
    using assms setProperty_change [of c H msg v] setDiseqc_change [of msg v c]
    by (cases "msg_type_of (v_type msg)")
      (auto simp: vtunerEvent_def Let_def setPidList_def split: if_splits prod.splits fe_burst.splits)
qed

lemma fold_setCaPids_keeps [simp]:
  "m_settings (fold setCaPids reps c) = m_settings c" "m_fe_type (fold setCaPids reps c) = m_fe_type c"
  "m_status (fold setCaPids reps c) = m_status c" "m_signal_source (fold setCaPids reps c) = m_signal_source c"
  "m_pol (fold setCaPids reps c) = m_pol c"
  by (induction reps arbitrary: c) (simp_all add: setCaPids_def wakeup_def)

lemma run_psi_keeps [simp]:
  "m_settings (run_psi f c) = m_settings c" "m_fe_type (run_psi f c) = m_fe_type c" "m_status (run_psi f c) = m_status c"
  "m_signal_source (run_psi f c) = m_signal_source c" "m_pol (run_psi f c) = m_pol c"
  by (simp_all add: run_psi_def split: option.split)

lemma vtunerEvent_reach:
  assumes "vtunerEvent H now get (v, c, r) = ((v', c', r'), resp)" "config_reach c"
  shows "config_reach c'"
  using vtunerEvent_change [OF assms(1)] assms(2)
  by (auto simp: tuning_change_def intro: config_reach.intros)

lemma vtunerEvent_keeps:
  assumes "vtunerEvent H now get (v, c, r) = ((v', c', r'), resp)"
  shows "m_settings c' = m_settings c \<and> m_fe_type c' = m_fe_type c \<and>
    (m_status c' = CONFIG_STATUS_CHANNEL_STABLE \<longrightarrow> m_status c = CONFIG_STATUS_CHANNEL_STABLE) \<and>
    (config_ok c \<longrightarrow> config_ok c')"
proof -
  have "m_settings (clearProperty c) = m_settings c" "m_fe_type (clearProperty c) = m_fe_type c"
    "m_status (clearProperty c) = m_status c"
    by (simp_all add: clearProperty_def clearPidList_def Let_def)
  moreover have "m_settings (updatePidList ns c) = m_settings c" "m_fe_type (updatePidList ns c) = m_fe_type c"
    "m_status (updatePidList ns c) = m_status c" for ns
    by (simp_all add: updatePidList_def notifyPidList_def updatePidStatus_def Let_def)
  moreover have "config_ok c \<Longrightarrow> config_ok (clearProperty c)" "config_ok c \<Longrightarrow> config_ok (updatePidList ns c)" for ns
    using clearProperty_ok updatePidList_run by blast+
  ultimately show ?thesis
    using vtunerEvent_change [OF assms] same_pid_state_inv(1) by (auto simp: tuning_change_def)
qed

section \<open>From the kernel's messages to the server's query\<close>

text \<open>
  A satellite receiver's tuning: a committed DiSEqC command with band, polarisation and position,
  and the properties. Frequencies are in units of 100 kHz here; the kernel sends the
  intermediate frequency in kHz, whose offset depends on the band.
\<close>

definition lof :: "bool \<Rightarrow> nat" where
  "lof high = (if high then 106000 else 97500)"

definition committed :: "vtuner_message \<Rightarrow> bool \<Rightarrow> bool \<Rightarrow> nat \<Rightarrow> vtuner_message" where
  "committed m high horizontal pos = m\<lparr>v_type := 11, b_diseqc_len := 4,
     b_diseqc := [0xe0, 0x10, 0x38, 0xf0 + 4 * word_of_nat pos + (if horizontal then 2 else 0) + (if high then 1 else 0), 0, 0]\<rparr>"

definition prop_msg :: "vtuner_message \<Rightarrow> dtv_cmd \<Rightarrow> u32 \<Rightarrow> vtuner_message" where
  "prop_msg m cmd data = m\<lparr>v_type := 16, b_cmd := cmd, b_data := data\<rparr>"

lemma committed_event:
  assumes "pos < 4"
  shows "fst (vtunerEvent H now (\<lambda>_. Some (committed m high horizontal pos)) (v, c, r)) =
    (v\<lparr>v_tone := (if high then SEC_TONE_ON else SEC_TONE_OFF)\<rparr>,
     setPosition (int pos + 1) (setVoltage (if horizontal then SEC_VOLTAGE_18 else SEC_VOLTAGE_13) c), r)"
proof -
  have "pos = 0 \<or> pos = 1 \<or> pos = 2 \<or> pos = 3" using assms by auto
  then show ?thesis
    by (elim disjE; cases high; cases horizontal)
      (simp_all add: vtunerEvent_def committed_def msg_type_of_def setDiseqc_def Let_def)
qed

lemma prop_event:
  "fst (vtunerEvent H now (\<lambda>_. Some (prop_msg m cmd data)) (v, c, r)) = (v, setProperty H (prop_msg m cmd data) v c, r)"
  by (simp add: vtunerEvent_def prop_msg_def msg_type_of_def Let_def)

lemma u32_div:
  assumes "n * k + r < 2 ^ 32" "r < k" "k < 2 ^ 32"
  shows "(word_of_nat (n * k + r) :: u32) div word_of_nat k = word_of_nat n"
proof -
  have "n * 1 \<le> n * k" using assms(2) by (intro mult_le_mono) auto
  then have n: "n < 2 ^ 32" using assms(1) by linarith
  have "unat ((word_of_nat x :: u32) div word_of_nat k) = x div k" if "x < 2 ^ 32" for x
    using that assms(3) by (simp add: unat_div unat_of_nat)
  from this [OF assms(1)] have "unat ((word_of_nat (n * k + r) :: u32) div word_of_nat k) = (n * k + r) div k" .
  also have "\<dots> = unat (word_of_nat n :: u32)" using assms(2) n by (simp add: unat_of_nat)
  finally show ?thesis by (simp only: word_unat_eq_iff)
qed

lemma prop_frequency:
  assumes "m_fe_type c = FE_TYPE_SAT" "lof (v_tone v = SEC_TONE_ON) \<le> f" "f < 40000000" "r < 100"
  shows "setProperty H (prop_msg m DTV_FREQUENCY (word_of_nat ((f - lof (v_tone v = SEC_TONE_ON)) * 100 + r))) v c =
    setFrequency (word_of_nat f) c"
proof -
  let ?n = "f - lof (v_tone v = SEC_TONE_ON)"
  have "(word_of_nat (?n * 100 + r) :: u32) div 100 = word_of_nat ?n"
    using u32_div [of ?n 100 r] assms(3,4) by auto
  then have "(word_of_nat (?n * 100 + r) :: u32) div 100 + word_of_nat (lof (v_tone v = SEC_TONE_ON)) = word_of_nat f"
    using assms(2) by (simp flip: of_nat_add)
  moreover have "(word_of_nat (lof hi) :: u32) = (if hi then 106000 else 97500)" for hi by (simp add: lof_def)
  ultimately show ?thesis using assms(1) by (simp add: setProperty_def prop_msg_def Let_def)
qed

lemma prop_symrate:
  assumes "sr < 4000000" "q < 1000"
  shows "setProperty H (prop_msg m DTV_SYMBOL_RATE (word_of_nat (sr * 1000 + q))) v c = setSymrate (int sr) c"
proof -
  have "(word_of_nat (sr * 1000 + q) :: u32) div 1000 = word_of_nat sr"
    using u32_div [of sr 1000 q] assms by auto
  moreover have "sint (word_of_nat sr :: u32) = int sr"
    using assms(1) by (simp add: sint_uint uint_nat unat_of_nat signed_take_bit_int_eq_self)
  ultimately show ?thesis by (simp add: setProperty_def prop_msg_def Let_def)
qed

text \<open>What the query says of a satellite channel.\<close>

lemma sat_query:
  assumes "config_ok c" "m_fe_type c = FE_TYPE_SAT" "m_status c = CONFIG_STATUS_CHANNEL_CHANGED"
  shows "map_of (parse_query (snd (getSetupData c))) ''src'' = Some (dec (m_signal_source c))"
    "map_of (parse_query (snd (getSetupData c))) ''freq'' = Some (freq_text (m_frequency c))"
    "map_of (parse_query (snd (getSetupData c))) ''pol'' = Some (case m_pol c of CONFIG_POL_HORIZONTAL \<Rightarrow> ''h'' | CONFIG_POL_VERTICAL \<Rightarrow> ''v'')"
    "map_of (parse_query (snd (getSetupData c))) ''msys'' = Some (if m_msys c = SYS_DVBS2 then ''dvbs2'' else ''dvbs'')"
    "map_of (parse_query (snd (getSetupData c))) ''sr'' = Some (dec (m_symrate c))"
proof -
  let ?ps = "if all_wanted c \<noteq> {} then [(''pids'', joinNumbers (all_wanted c) False)] else [(''pids'', ''none'')]"
  let ?c = "set_pilots c"
  have "\<forall>kv \<in> set ?ps. arg_ok kv"
    using requested_ok(5) [OF assms(1)] by (simp add: arg_ok_def read_pids_join)
  then have "\<forall>kv \<in> set (tune_part c @ ?ps). arg_ok kv" using plain_args_ok [OF plain_tune_part] by auto
  then have q: "parse_query (snd (getSetupData c)) = tune_part c @ ?ps"
    unfolding getSetupData_eq [OF assms(1)] snd_conv by (rule parse_query_put)
  have t: "tune_part c = (if o_fe_number (m_settings c) > 0 then [(''fe'', dec (o_fe_number (m_settings c)))] else []) @ sat_args ?c"
    using assms(2,3) by (simp add: tune_part_def tuning_args_def set_pilots_def)
  note here = q t sat_args_def set_pilots_def assms(2)
  show "map_of (parse_query (snd (getSetupData c))) ''src'' = Some (dec (m_signal_source c))"
    "map_of (parse_query (snd (getSetupData c))) ''freq'' = Some (freq_text (m_frequency c))"
    "map_of (parse_query (snd (getSetupData c))) ''pol'' = Some (case m_pol c of CONFIG_POL_HORIZONTAL \<Rightarrow> ''h'' | CONFIG_POL_VERTICAL \<Rightarrow> ''v'')"
    "map_of (parse_query (snd (getSetupData c))) ''msys'' = Some (if m_msys c = SYS_DVBS2 then ''dvbs2'' else ''dvbs'')"
    "map_of (parse_query (snd (getSetupData c))) ''sr'' = Some (dec (m_symrate c))"
    by (cases "m_msys c"; simp add: here map_add_def)+
qed

definition tune_messages ::
  "vtuner_message \<Rightarrow> timespec \<Rightarrow> bool \<Rightarrow> bool \<Rightarrow> nat \<Rightarrow> nat \<Rightarrow> nat \<Rightarrow> nat \<Rightarrow> nat \<Rightarrow> u32 \<Rightarrow> (timespec \<times> vtuner_message) list" where
  "tune_messages m now high horizontal pos f r sr q msys =
     [(now, prop_msg m DTV_CLEAR 0), (now, committed m high horizontal pos),
      (now, prop_msg m DTV_FREQUENCY (word_of_nat ((f - lof high) * 100 + r))),
      (now, prop_msg m DTV_DELIVERY_SYSTEM msys),
      (now, prop_msg m DTV_SYMBOL_RATE (word_of_nat (sr * 1000 + q))),
      (now, prop_msg m DTV_TUNE 0)]"

text \<open>
  C36. Tuning reaches the server: after the kernel's messages for a satellite transponder (clear, a
  committed DiSEqC command, intermediate frequency, delivery system, symbol rate, tune), the
  query of the next SETUP, as the server reads it, has the switch position, the transponder's
  frequency, polarisation, system and symbol rate, whatever the device and the configuration
  held before.
\<close>

theorem tuning_reaches_query:
  assumes "config_ok c" "m_fe_type c = FE_TYPE_SAT" "pos < 4" "lof high \<le> f" "f < 40000000" "r < 100"
    and "sr < 4000000" "q < 1000"
    and run: "vtunerEvents H (tune_messages m now high horizontal pos f r sr q msys) (v, c, ro) = (v', c', ro')"
  shows "ro' = ro \<and> config_ok c' \<and> (let args = map_of (parse_query (snd (getSetupData c'))) in
    args ''src'' = Some (dec (int pos + 1)) \<and> args ''freq'' = Some (freq_text (word_of_nat f)) \<and>
    args ''pol'' = Some (if horizontal then ''h'' else ''v'') \<and>
    args ''msys'' = Some (if abi_delsys H (sint msys) = SYS_DVBS2 then ''dvbs2'' else ''dvbs'') \<and>
    args ''sr'' = Some (dec (int sr)))"
proof -
  let ?c1 = "setPosition (int pos + 1) (setVoltage (if horizontal then SEC_VOLTAGE_18 else SEC_VOLTAGE_13) (clearProperty c))"
  let ?v = "v\<lparr>v_tone := (if high then SEC_TONE_ON else SEC_TONE_OFF)\<rparr>"
  have fe: "m_fe_type (clearProperty c) = FE_TYPE_SAT"
    using assms(2) by (simp add: clearProperty_def clearPidList_def Let_def)
  then have fe1: "m_fe_type ?c1 = FE_TYPE_SAT"
    by (simp add: setPosition_def setVoltage_def)
  have tone: "(v_tone ?v = SEC_TONE_ON) = high" by simp
  have c': "c' = setChannelChanged (setSymrate (int sr) (setModsys (abi_delsys H (sint msys)) (setFrequency (word_of_nat f) ?c1)))"
    "ro' = ro"
    using run prop_frequency [OF fe1, of ?v f r H m, unfolded tone] prop_symrate [of sr q H m] assms(4-8)
    by (auto simp: tune_messages_def prop_event committed_event [OF assms(3)])
      (simp_all add: setProperty_def prop_msg_def Let_def)
  have "config_ok (clearProperty c)" using clearProperty_ok [OF assms(1)] by blast
  then have ok: "config_ok c'" unfolding c'(1) using setters_same_pid_state same_pid_state_inv(1) by metis
  have "m_fe_type c' = FE_TYPE_SAT" "m_status c' = CONFIG_STATUS_CHANNEL_CHANGED" "m_signal_source c' = int pos + 1"
    "m_frequency c' = word_of_nat f" "m_pol c' = (if horizontal then CONFIG_POL_HORIZONTAL else CONFIG_POL_VERTICAL)"
    "m_msys c' = abi_delsys H (sint msys)" "m_symrate c' = int sr"
    using fe by (simp_all add: c'(1) setter_defs Let_def)
  then show ?thesis using sat_query [OF ok] ok c'(2) by (simp add: Let_def)
qed

definition sample_message :: vtuner_message where
  "sample_message = \<lparr>v_type = 0, b_cmd = DTV_CLEAR, b_data = 0, b_status = {}, b_ber = 0, b_ss = 0, b_snr = 0,
     b_ucb = 0, b_tone = SEC_TONE_OFF, b_voltage = SEC_VOLTAGE_OFF, b_diseqc = [], b_diseqc_len = 0,
     b_burst = SEC_MINI_A, b_pidlist = [], b_min_delay_ms = 0, b_step_size = 0, b_max_drift = 0\<rparr>"

theorem tuning_reaches_query_witness:
  "map_of (parse_query (snd (getSetupData (fst (snd (vtunerEvents sample_abi
     (tune_messages sample_message \<lparr>tv_sec = 0, tv_nsec = 0\<rparr> True True 0 119535 0 27500 0 6)
     (vtuner_new 0 \<lparr>tv_sec = 0, tv_nsec = 0\<rparr>, satipConfig blank_config FE_TYPE_SAT (m_settings blank_config), None))))))) ''freq'' =
   Some (freq_text 119535)"
proof -
  let ?c = "satipConfig blank_config FE_TYPE_SAT (m_settings blank_config)"
  let ?st = "(vtuner_new 0 \<lparr>tv_sec = 0, tv_nsec = 0\<rparr>, ?c, None)"
  let ?ms = "tune_messages sample_message \<lparr>tv_sec = 0, tv_nsec = 0\<rparr> True True 0 119535 0 27500 0 6"
  have "m_fe_type ?c = FE_TYPE_SAT"
    by (simp add: satipConfig_def clearProperty_def clearPidList_def blank_config_def Let_def)
  moreover obtain v' c' ro' where r: "vtunerEvents sample_abi ?ms ?st = (v', c', ro')"
    by (cases "vtunerEvents sample_abi ?ms ?st") auto
  ultimately show ?thesis
    using tuning_reaches_query [OF satipConfig_ok _ _ _ _ _ _ _ r] by (simp add: lof_def Let_def)
qed

section \<open>The status\<close>

lemma timeout_msec_neg:
  assumes "normal a" "normal b"
  shows "timeout_msec a b < 0 \<longleftrightarrow> ns a < ns b"
proof -
  let ?d = "ts_minus a b"
  have d: "normal ?d" "ns ?d = ns a - ns b"
    using assms by (auto simp: ts_minus_def normal_def ns_def Let_def)
  have "0 \<le> tv_nsec ?d" "tv_nsec ?d < 1000000000" using d(1) by (simp_all add: normal_def)
  then have "0 \<le> tv_nsec ?d div 1000000" "tv_nsec ?d div 1000000 < 1000" by auto
  then have "timeout_msec a b < 0 \<longleftrightarrow> tv_sec ?d < 0"
    using d(1) by (simp add: timeout_msec_def Let_def normal_def sdiv_nonneg) linarith
  also have "\<dots> \<longleftrightarrow> ns ?d < 0" using d(1) by (simp add: ns_def normal_def) linarith
  finally show ?thesis using d(2) by simp
qed

lemma ts_plus_deadline: "ts_plus t msek = deadline t msek"
  by (simp add: ts_plus_def deadline_def)

text \<open>Between two resets the attempts are counted and the limit stays.\<close>

lemma events_count:
  assumes "vtunerEvents H msgs (v, c, r) = (v', c', r')" "\<forall>(t, m) \<in> set msgs. msg_type_of (v_type m) \<noteq> MSG_GET_TUNE_SETTINGS"
    and "v_tune_tries v = int k" "k + length msgs < 2 ^ 31"
  shows "v_timeout v' = v_timeout v \<and>
    v_tune_tries v' = int (k + length (filter (\<lambda>(t, m). msg_type_of (v_type m) = MSG_SET_FRONTEND) msgs)) \<and>
    v_ioctl_offset v' = v_ioctl_offset v"
  using assms
proof (induction msgs arbitrary: v c r k)
  case (Cons tm msgs)
  obtain t m where tm: "tm = (t, m)" by (cases tm)
  obtain v1 c1 r1 where s: "fst (vtunerEvent H t (\<lambda>_. Some m) (v, c, r)) = (v1, c1, r1)" by (metis prod_cases3)
  let ?k = "if msg_type_of (v_type m) = MSG_SET_FRONTEND then Suc k else k"
  have "v_timeout v1 = v_timeout v \<and> v_tune_tries v1 = int ?k \<and> v_ioctl_offset v1 = v_ioctl_offset v"
    using s Cons.prems(2-4) unfolding tm
    by (cases "msg_type_of (v_type m)")
      (auto simp: vtunerEvent_def Let_def s32_id setDiseqc_def split: if_splits prod.splits)
  moreover have "vtunerEvents H msgs (v1, c1, r1) = (v', c', r')" using Cons.prems(1) s by (simp add: tm)
  ultimately show ?case
    using Cons.IH [of v1 c1 r1 ?k] Cons.prems(2,4) by (auto simp: tm)
qed simp

text \<open>
  C38. The status the kernel reads: locked exactly while the receiver has a lock; otherwise timed
  out exactly when more than three seconds have passed since the kernel last asked for the
  tune settings, and a signal exactly when the number of attempts since then has bit 2 set;
  whatever other messages came in between.
\<close>

theorem status_after_tune:
  assumes "normal t0" "normal t1" "msg_type_of (v_type m0) = MSG_GET_TUNE_SETTINGS" "msg_type_of (v_type m1) = MSG_READ_STATUS"
    and "\<forall>(t, m) \<in> set msgs. msg_type_of (v_type m) \<noteq> MSG_GET_TUNE_SETTINGS" "length msgs < 2 ^ 31"
    and run: "vtunerEvents H ((t0, m0) # msgs) st = (v, c, r)"
    and n: "n = length (filter (\<lambda>(t, m). msg_type_of (v_type m) = MSG_SET_FRONTEND) msgs)"
  shows "vtunerEvent H t1 (\<lambda>_. Some m1) (v, c', r') =
    ((v, c', r'), Some (VTUNER_SET_RESPONSE H + v_ioctl_offset v, m1\<lparr>v_type := 0, b_status :=
       (if r' \<noteq> None \<and> m_hasLock (the r') then {FE_HAS_LOCK}
        else (if ns t1 > ns t0 + 3 * 10 ^ 9 then {FE_TIMEDOUT} else {}) \<union> (if bit n 2 then {FE_HAS_SIGNAL} else {}))\<rparr>))"
proof -
  obtain v0 c0 r0 where st: "st = (v0, c0, r0)" by (cases st) auto
  have "fst (vtunerEvent H t0 (\<lambda>_. Some m0) st) =
      (v0\<lparr>v_tune_tries := 0, v_timeout := ts_plus t0 3000\<rparr>, c0, map_option unset r0)"
    using assms(3) by (simp add: vtunerEvent_def st Let_def)
  then have "vtunerEvents H msgs (v0\<lparr>v_tune_tries := 0, v_timeout := ts_plus t0 3000\<rparr>, c0, map_option unset r0) = (v, c, r)"
    using run by simp
  from events_count [OF this assms(5), of 0] assms(6)
  have v: "v_timeout v = deadline t0 3000" "v_tune_tries v = int n" by (simp_all add: n ts_plus_deadline)
  have "timeout_msec (v_timeout v) t1 < 0 \<longleftrightarrow> ns t1 > ns t0 + 3 * 10 ^ 9"
    using assms(1,2) by (auto simp: v timeout_msec_neg deadline_normal deadline_ns)
  moreover have "v_tune_tries v AND 4 \<noteq> 0 \<longleftrightarrow> bit n 2"
    using and_exp_eq_0_iff_not_bit [of "int n" 2] by (simp add: v bit_of_nat_iff_bit)
  ultimately show ?thesis
    using assms(4) by (simp add: vtunerEvent_def Let_def read_status_def)
qed

theorem status_after_tune_witness:
  "snd (vtunerEvent sample_abi \<lparr>tv_sec = 9, tv_nsec = 1\<rparr> (\<lambda>_. Some (sample_message\<lparr>v_type := 3\<rparr>))
     (fst (vtunerEvents sample_abi [(\<lparr>tv_sec = 6, tv_nsec = 0\<rparr>, sample_message\<lparr>v_type := 18\<rparr>)]
        (vtuner_new 0 \<lparr>tv_sec = 0, tv_nsec = 0\<rparr>, blank_config, None)), blank_config, None)) =
   Some (12, sample_message\<lparr>b_status := {FE_TIMEDOUT}\<rparr>)"
proof -
  let ?st = "(vtuner_new 0 \<lparr>tv_sec = 0, tv_nsec = 0\<rparr>, blank_config, None)"
  let ?e = "[(\<lparr>tv_sec = 6, tv_nsec = 0\<rparr>, sample_message\<lparr>v_type := 18\<rparr>)]"
  obtain v c r where run: "vtunerEvents sample_abi ?e ?st = (v, c, r)" by (cases "vtunerEvents sample_abi ?e ?st") auto
  have "v_ioctl_offset v = 0" "abi_high_numbers sample_abi"
    using run by (auto simp: vtunerEvent_def msg_type_of_def sample_message_def vtuner_new_def Let_def sample_abi_def)
  then show ?thesis
    using status_after_tune [of "\<lparr>tv_sec = 6, tv_nsec = 0\<rparr>" "\<lparr>tv_sec = 9, tv_nsec = 1\<rparr>" "sample_message\<lparr>v_type := 18\<rparr>"
      "sample_message\<lparr>v_type := 3\<rparr>" "[]" sample_abi ?st v c r 0 blank_config None] run
    by (simp add: normal_def msg_type_of_def sample_message_def vtuner_numbers ns_def)
qed

section \<open>The signal to noise ratio\<close>

text \<open>
  The product of the two values is at most \<open>65535 * 65535\<close>, twice the range of \<^verbatim>\<open>int\<close>. With
  wrap-around the value stored is nevertheless the exact one or one less.
\<close>

lemma snr_value_close:
  assumes "0 \<le> m_signalStrength r" "m_signalStrength r \<le> 65535" "0 \<le> m_signalQuality r" "m_signalQuality r \<le> 65535"
  shows "uint (snr_value r) \<le> m_signalStrength r * m_signalQuality r div 65535 \<and>
    m_signalStrength r * m_signalQuality r div 65535 \<le> uint (snr_value r) + 1"
proof -
  let ?p = "m_signalStrength r * m_signalQuality r"
  have u: "uint (word_of_int x :: u16) = x mod 65536" for x by (simp add: uint_word_of_int)
  have p: "0 \<le> ?p" "?p \<le> 65535 * 65535" using assms mult_mono [of "m_signalStrength r" 65535 "m_signalQuality r" 65535] by simp_all
  have v: "uint (snr_value r) = s32 ?p sdiv 65535 mod 65536"
    using assms by (simp add: snr_value_def u)
  show ?thesis
  proof (cases "?p < 2 ^ 31")
    case True
    then have "s32 ?p sdiv 65535 = ?p div 65535" using p by (simp add: s32_id sdiv_nonneg)
    then show ?thesis using v True p by auto
  next
    case False
    have "(x + 2147483648) mod 4294967296 = x - 2147483648" if "2147483648 \<le> x" "x \<le> 4294836225" for x :: int
      using that mod_add_self2 [of "x - 2147483648" 4294967296] by (simp add: add.commute)
    from this [of ?p] False p(2) have "s32 ?p = ?p - 2 ^ 32" by (simp add: s32_def)
    then have s: "s32 ?p sdiv 65535 = - ((2 ^ 32 - ?p) div 65535)"
      using p by (simp add: signed_divide_int_def sgn_if)
    define q d where "q = (2 ^ 32 - ?p) div 65535" and "d = ?p div 65535"
    have b: "65535 * (x div 65535) \<le> x \<and> x < 65535 * (x div 65535) + 65535" for x :: int
    proof -
      have "65535 * y \<le> x \<and> x < 65535 * y + 65535" if "x - z = 65535 * y" "0 \<le> z" "z < 65535" for y z :: int
        using that by (intro conjI) linarith+
      from this [OF minus_mod_eq_mult_div [of x 65535]] show ?thesis by simp
    qed
    have q: "65535 * q \<le> 2 ^ 32 - ?p" "2 ^ 32 - ?p < 65535 * q + 65535"
      and d: "65535 * d \<le> ?p" "?p < 65535 * d + 65535"
      unfolding q_def d_def using b by blast+
    have "2 \<le> q" "q \<le> 32769" using q p False by simp_all
    then have "(65536 - q) mod 65536 = 65536 - q" by (intro mod_pos_pos_trivial) simp_all
    then have "(- q) mod 65536 = 65536 - q" using mod_diff_left_eq [of 65536 65536 q] by simp
    then have "uint (snr_value r) = 65536 - q" using v s by (simp add: q_def)
    then show ?thesis unfolding d_def [symmetric] using q d by simp
  qed
qed

end
