(* ===== verification/Session.thy ===== *)
theory Session
  imports Rtsp_Server Vtuner
begin

text \<open>
  One session per virtual tuner, \<^verbatim>\<open>satipSession\<close> of \<^verbatim>\<open>src/session.h\<close> and \<^verbatim>\<open>src/session.cpp\<close>. A
  session owns the configuration, the device, the receiver and the RTSP client; its loop waits for the
  device, the wakeup pipe and the server, and calls their handlers. The record of the client holds the
  configuration and the receiver, which device and client share. Shown: in every interleaving of the
  loop's handlers with the receiving thread and the kernel's messages the invariants of the
  parts hold together and client and server stay in step; the loop makes only steps of that
  interleaving; a server that stays silent is given up when the watchdog's time is over; and a change of
  the tap's pids on the receiving thread leaves a byte in the pipe.
\<close>

section \<open>State\<close>

text \<open>\<open>ss_drained\<close> counts the bytes read from the wakeup pipe, of those that the configuration wrote.\<close>

record session =
  ss_rtsp :: rtsp
  ss_vtuner :: vtuner
  ss_pipe0 :: int
  ss_pipe1 :: int
  ss_drained :: nat
  ss_thread :: bool
  ss_running :: bool

text \<open>What the constructors of the parts meet, and the members that they leave unset.\<close>

record session_env =
  e_pipe :: "(int \<times> int) option"
  e_nodes :: "int list"
  e_drv :: "int \<Rightarrow> errno option"
  e_tries0 :: int
  e_timeout0 :: timespec
  e_ports :: "nat \<Rightarrow> port_try"
  e_raw_config :: config
  e_raw_rtsp :: rtsp
  e_now :: timespec
  e_mem :: "nat \<Rightarrow> u8"
  e_t0 :: int
  e_ts0 :: timespec

definition fe_kind_of :: "int \<Rightarrow> fe_kind" where
  "fe_kind_of n = (if n = 0 then FE_TYPE_SAT else if n = 1 then FE_TYPE_CABLE
     else if n = 2 then FE_TYPE_TERRESTRIAL else FE_TYPE_other n)"

section \<open>Session\<close>

text \<open>The second result is the parameter \<^verbatim>\<open>initok\<close>.\<close>

definition satipSession ::
  "frontend_abi \<Rightarrow> session_env \<Rightarrow> string \<Rightarrow> string \<Rightarrow> int \<Rightarrow> vtunerOpt \<Rightarrow> session \<times> bool" where
  "satipSession H e host rtsp_port fe_type opt =
     (let p = (case e_pipe e of Some p \<Rightarrow> p | None \<Rightarrow> (-1, -1));
          c = setWakeupFd (snd p) (satipConfig (e_raw_config e) (fe_kind_of fe_type) opt);
          v = satipVtuner H (e_nodes e) (e_drv e) (e_tries0 e) (e_timeout0 e) c;
          r = rtp_setPSI c (satipRTP (v_fd v) (o_tcpdata opt) (e_ports e));
          s = satipRTSP (e_raw_rtsp e) (e_now e) (e_mem e) (e_t0 e) (e_ts0 e) c host rtsp_port r in
      (\<lparr>ss_rtsp = s, ss_vtuner = v, ss_pipe0 = fst p, ss_pipe1 = snd p, ss_drained = 0,
        ss_thread = False, ss_running = False\<rparr>, v_openok v \<and> m_openok r))"

definition session_run :: "session \<Rightarrow> session" where
  "session_run s = s\<lparr>ss_running := True, ss_thread := True\<rparr>"

definition session_start :: "session \<Rightarrow> session" where
  "session_start s = session_run (s\<lparr>ss_rtsp := (ss_rtsp s)\<lparr>m_rtp := rtp_run (m_rtp (ss_rtsp s))\<rparr>\<rparr>)"

definition session_stop :: "session \<Rightarrow> session" where
  "session_stop s =
     s\<lparr>ss_rtsp := (ss_rtsp s)\<lparr>m_satip_config := wakeup (cfg (ss_rtsp s)), m_rtp := rtp_stop (m_rtp (ss_rtsp s))\<rparr>,
       ss_running := False\<rparr>"

text \<open>\<^verbatim>\<open>join\<close> waits for the end of the thread.\<close>

definition session_join :: "session \<Rightarrow> session" where
  "session_join s = s\<lparr>ss_thread := False\<rparr>"

text \<open>The destructor: the descriptors it closes. The client's destructor does not close its connection.\<close>

definition session_delete :: "session \<Rightarrow> int list" where
  "session_delete s0 =
     (let s = session_stop s0; v = ss_vtuner s in
      rtp_delete (m_rtp (ss_rtsp s)) @ (if v_fd v \<ge> 0 then [v_fd v] else []) @
      (if ss_pipe0 s \<noteq> -1 then [ss_pipe0 s] else []) @ (if ss_pipe1 s \<noteq> -1 then [ss_pipe1 s] else []))"

section \<open>The loop\<close>

text \<open>
  What \<^verbatim>\<open>poll\<close> returns: an error, an interruption, or for each of the three entries what has
  happened: anything at the device, something to read from the pipe, the flags of the connection.
\<close>

datatype poll_res = Poll_error | Poll_EINTR | Poll_ready bool bool "poll_flag set"

text \<open>
  One turn's surroundings: clock readings, addresses and results of sending; \<open>l_poll\<close> gets the
  descriptors, of the pipe and of the connection if they are polled, and the timeout.
\<close>

record loop_env =
  l_now0 :: timespec
  l_addrs :: "conn_try list option"
  l_ok0 :: bool
  l_now_poll :: timespec
  l_poll :: "int \<Rightarrow> int option \<Rightarrow> (int \<times> poll_flag set) option \<Rightarrow> int \<Rightarrow> poll_res"
  l_now1 :: timespec
  l_ok1 :: bool
  l_now2 :: timespec
  l_get :: "int \<Rightarrow> vtuner_message option"
  l_now3 :: timespec
  l_frames :: "nat \<Rightarrow> frame_env"
  l_recv :: recv_res

definition loop_status :: "loop_env \<Rightarrow> session \<Rightarrow> session" where
  "loop_status e s = s\<lparr>ss_rtsp := handleRTSPStatus (l_now0 e) (l_addrs e) (l_ok0 e) (ss_rtsp s)\<rparr>"

definition loop_timer :: "loop_env \<Rightarrow> session \<Rightarrow> session" where
  "loop_timer e s = s\<lparr>ss_rtsp := handleNextTimer (l_now1 e) (l_ok1 e) (ss_rtsp s)\<rparr>"

definition loop_drain :: "session \<Rightarrow> session" where
  "loop_drain s = s\<lparr>ss_drained := m_wakeups (cfg (ss_rtsp s))\<rparr>"

definition loop_device :: "frontend_abi \<Rightarrow> loop_env \<Rightarrow> session \<Rightarrow> session" where
  "loop_device H e s =
     (case fst (vtunerEvent H (l_now2 e) (l_get e) (ss_vtuner s, cfg (ss_rtsp s), Some (m_rtp (ss_rtsp s)))) of
        (v, c, r) \<Rightarrow> s\<lparr>ss_vtuner := v, ss_rtsp := (ss_rtsp s)\<lparr>m_satip_config := c, m_rtp := the r\<rparr>\<rparr>)"

definition loop_server :: "loop_env \<Rightarrow> poll_flag set \<Rightarrow> session \<Rightarrow> session option" where
  "loop_server e revents s = do {
     x \<leftarrow> handlePollEvents (l_now3 e) (l_frames e) (l_recv e) revents (ss_rtsp s);
     Some (s\<lparr>ss_rtsp := x\<rparr>)
   }"

text \<open>One turn, with whether the loop goes on.\<close>

definition loop_turn :: "frontend_abi \<Rightarrow> loop_env \<Rightarrow> session \<Rightarrow> (session \<times> bool) option" where
  "loop_turn H e s0 =
     (let s = loop_status e s0;
          wakeup_slot = ss_pipe0 s \<noteq> -1;
          rtsp_events = getPollEvent (ss_rtsp s);
          rtsp_slot = rtsp_events \<noteq> {};
          res = l_poll e (v_fd (ss_vtuner s)) (if wakeup_slot then Some (ss_pipe0 s) else None)
            (if rtsp_slot then Some (getRtspSocketFd (ss_rtsp s), rtsp_events) else None)
            (getPollTimeout (l_now_poll e) (ss_rtsp s)) in
      case res of Poll_error \<Rightarrow> Some (s, False)
      | Poll_EINTR \<Rightarrow> Some (loop_timer e s, True)
      | Poll_ready device pipe_in revents \<Rightarrow> do {
          let s = loop_timer e s;
          let s = (if wakeup_slot \<and> pipe_in then loop_drain s else s);
          let s = (if device then loop_device H e s else s);
          s \<leftarrow> (if rtsp_slot \<and> revents \<noteq> {} then loop_server e revents s else Some s);
          Some (s, True)
        })"

text \<open>
  The loop, as long as surroundings for its turns are given; the second result tells that it has
  ended.
\<close>

fun satipMainLoop :: "frontend_abi \<Rightarrow> loop_env list \<Rightarrow> session \<Rightarrow> (session \<times> bool) option" where
  "satipMainLoop H [] s = Some (s, \<not> ss_running s)"
| "satipMainLoop H (e # es) s =
     (if \<not> ss_running s then Some (s, True)
      else do {
        t \<leftarrow> loop_turn H e s;
        if snd t then satipMainLoop H es (fst t) else Some (fst t, True)
      })"

section \<open>Every interleaving\<close>

text \<open>The device's next message is the kernel's \<^verbatim>\<open>DTV_CLEAR\<close>.\<close>

definition clears :: "frontend_abi \<Rightarrow> loop_env \<Rightarrow> session \<Rightarrow> bool" where
  "clears H e s = (case l_get e (VTUNER_GET_MESSAGE H + v_ioctl_offset (ss_vtuner s)) of None \<Rightarrow> False
     | Some msg \<Rightarrow> b_cmd msg = DTV_CLEAR \<and> (msg_type_of (v_type msg) = MSG_SET_PROPERTY \<or>
         msg_type_of (v_type msg) = MSG_SET_FRONTEND \<and> abi_no_msg16 H))"

text \<open>
  The states of a session when the loop's handlers run in any order, with the receiving thread
  between any two of them, and starting and stopping from the main thread. The flag, \<open>stale\<close> in the
  properties, says that the kernel has cleared the record of the pids with \<^verbatim>\<open>DTV_CLEAR\<close> and that the server has not
  been sent a complete list since: no SETUP, and no PLAY of a newly tuned channel. Host and port of the server
  have no blanks, line ends or question marks, which would break up the request lines.
\<close>

inductive session_reach :: "frontend_abi \<Rightarrow> bool \<Rightarrow> session \<Rightarrow> bool" for H where
  create: "clean host \<Longrightarrow> clean port \<Longrightarrow> CHR ''?'' \<notin> set host \<Longrightarrow> CHR ''?'' \<notin> set port \<Longrightarrow>
    session_reach H False (fst (satipSession H e host port fe_type opt))"
| start: "session_reach H d s \<Longrightarrow> session_reach H d (session_start s)"
| stop: "session_reach H d s \<Longrightarrow> session_reach H d (session_stop s)"
| status: "session_reach H d s \<Longrightarrow>
    session_reach H (d \<and> \<not> retold (ss_rtsp s) (ss_rtsp (loop_status e s))) (loop_status e s)"
| timer: "session_reach H d s \<Longrightarrow> session_reach H d (loop_timer e s)"
| drain: "session_reach H d s \<Longrightarrow> session_reach H d (loop_drain s)"
| device: "session_reach H d s \<Longrightarrow> session_reach H (d \<or> clears H e s) (loop_device H e s)"
| server: "session_reach H d s \<Longrightarrow> loop_server e revents s = Some s' \<Longrightarrow>
    session_reach H d s'"
| receive: "session_reach H d s \<Longrightarrow>
    rtpDump_step de (buf, m_rtp (ss_rtsp s), cfg (ss_rtsp s)) = Some (buf', r, c) \<Longrightarrow>
    session_reach H d (s\<lparr>ss_rtsp := (ss_rtsp s)\<lparr>m_satip_config := c, m_rtp := r\<rparr>\<rparr>)"

definition client_ok :: "bool \<Rightarrow> rtsp \<Rightarrow> bool" where
  "client_ok d x \<longleftrightarrow> rtsp_ok x \<and> config_reach (cfg x) \<and> synced d x"

lemma client_evs: "client_ok d x \<Longrightarrow> ev\<^sup>*\<^sup>* x y \<Longrightarrow> rtsp_ok y \<Longrightarrow> client_ok d y"
  by (simp add: client_ok_def evs_synced evs_config_reach)

lemma client_ev: "client_ok d x \<Longrightarrow> ev x y \<Longrightarrow> rtsp_ok y \<Longrightarrow> client_ok (d \<and> \<not> retold x y) y"
  by (simp add: client_ok_def ev_synced ev_config_reach)

text \<open>Changes of configuration and receiver from outside the client.\<close>

lemma client_outside:
  assumes "client_ok d x" "outside (cfg x) c" "config_reach c" "synced d' (x\<lparr>m_satip_config := c, m_rtp := r\<rparr>)"
  shows "client_ok d' (x\<lparr>m_satip_config := c, m_rtp := r\<rparr>)"
proof -
  have "rtsp_ok (x\<lparr>m_satip_config := c\<rparr>)" using assms(1,2) change_ok by (simp add: client_ok_def)
  then have "rtsp_ok (x\<lparr>m_satip_config := c, m_rtp := r\<rparr>)" by (simp add: rtsp_ok_defs)
  then show ?thesis using assms by (simp add: client_ok_def)
qed

lemma client_tap:
  assumes "client_ok d x" "n \<le> length data" "tap_data now0 now1 data n (cfg x) = Some c"
  shows "client_ok d (x\<lparr>m_satip_config := c, m_rtp := r\<rparr>)"
proof (rule client_outside [OF assms(1)])
  have ok: "config_ok (cfg x)" "config_reach (cfg x)" "synced d x" using assms(1) by (simp_all add: client_ok_def rtsp_ok_def)
  show "outside (cfg x) c"
    using tap_data_ok [OF ok(1) assms(2), of now0 now1] tap_data_settings [OF assms(3)] assms(3) by (simp add: outside_def)
  show "config_reach c" using config_reach.on_tap [OF ok(2) assms(2,3)] .
  show "synced d (x\<lparr>m_satip_config := c, m_rtp := r\<rparr>)" using change_synced(2) [OF ok(3) assms(2,3)] .
qed

lemma client_same: "client_ok d x \<Longrightarrow> client_ok d (x\<lparr>m_rtp := r\<rparr>)"
  by (simp add: client_ok_def rtsp_ok_defs synced_def in_step_def asked_def address_ok_def)

text \<open>The receiving thread changes the configuration only through the tap.\<close>

lemma rtpDump_step_cfg:
  assumes "rtpDump_step e (buf, r, c) = Some (buf', r', c')"
  shows "c' = c \<or> (\<exists>data. tap_data (d_now0 e) (d_now1 e) data (length data) c = Some c')"
proof -
  have tap: "snd x = c \<or> (\<exists>data. tap_data (d_now0 e) (d_now1 e) data (length data) c = Some (snd x))"
    if "to_tap (d_now0 e) (d_now1 e) p (r0, c) = Some x" for p r0 x
    using to_tap_cfg [of _ _ p r0 c "fst x" "snd x"] that by auto
  have step: "c' = snd (snd st1)"
    if "(if d_rtcp_in e then
        (case d_recv e of
           Recv d \<Rightarrow> (let buf2 = store d (fst st1); n = min (length d) (length (fst st1)) in
             if n > 0 then do {
               r2 \<leftarrow> rtcpData buf2 n (fst (snd st1));
               Some (buf2, r2, snd (snd st1))
             } else Some (buf2, snd st1))
         | _ \<Rightarrow> Some st1)
      else Some st1) = Some (buf', r', c')" for st1
    using that by (auto simp: Let_def split: if_splits recv_res.splits elim!: bind_SomeE)
  from assms obtain st1 where st1: "(if d_rtp_in e then
         (let (buf1, rx_bytes) = Read (d_read e) buf in
          if rx_bytes > 12 then do {
            b \<leftarrow> rd buf1 12;
            if b = 0x47 then do {
              data \<leftarrow> rd_range buf1 12 (nat rx_bytes - 12);
              let w = Write (d_write e) data r;
              s \<leftarrow> to_tap (d_now0 e) (d_now1 e) data (fst w, c);
              Some (buf1, s)
            } else Some (buf1, r, c)
          } else Some (buf1, r, c))
       else Some (buf, r, c)) = Some st1" "c' = snd (snd st1)"
    unfolding rtpDump_step_def prod.case by (elim bind_SomeE) (drule step, blast)
  show ?thesis
    using st1(1) unfolding st1(2) Let_def
    by (elim run_elims case_elims) (auto dest: tap)
qed

lemma client_receive:
  assumes "client_ok d x" "rtpDump_step de (buf, m_rtp x, cfg x) = Some (buf', r, c)"
  shows "client_ok d (x\<lparr>m_satip_config := c, m_rtp := r\<rparr>)"
  using rtpDump_step_cfg [OF assms(2)] client_tap [OF assms(1) order_refl] client_same [OF assms(1)]
  by (elim disjE exE) auto

text \<open>The kernel's messages, and what they mean for the flag.\<close>

lemma setProperty_tunes: "b_cmd msg \<noteq> DTV_CLEAR \<Longrightarrow> tuning_change c (setProperty H msg v c)"
  by (cases "b_cmd msg") (auto simp: setProperty_def Let_def)

lemma setProperty_clears: "b_cmd msg = DTV_CLEAR \<Longrightarrow> setProperty H msg v c = clearProperty c"
  by (simp add: setProperty_def)

lemma device_change:
  assumes "vtunerEvent H now (l_get e) (ss_vtuner s, c, r) = ((v', c', r'), resp)"
  shows "tuning_change c c' \<or> c' = clearProperty c \<and> clears H e s \<or> (\<exists>pl. c' = updatePidList pl c)"
proof (cases "l_get e (VTUNER_GET_MESSAGE H + v_ioctl_offset (ss_vtuner s))")
  case None
  then show ?thesis using assms by (simp add: vtunerEvent_def)
next
  case (Some msg)
  then show ?thesis
    using assms setProperty_tunes [of msg c H "ss_vtuner s"] setProperty_clears [of msg H "ss_vtuner s" c]
      setDiseqc_change [of msg "ss_vtuner s" c]
    by (cases "msg_type_of (v_type msg)"; cases "b_cmd msg = DTV_CLEAR")
      (auto simp: vtunerEvent_def Let_def setPidList_def clears_def split: if_splits prod.splits fe_burst.splits)
qed

lemma client_device:
  assumes "client_ok d (ss_rtsp s)"
  shows "client_ok (d \<or> clears H e s) (ss_rtsp (loop_device H e s))"
proof -
  let ?x = "ss_rtsp s"
  obtain v c r resp where run: "vtunerEvent H (l_now2 e) (l_get e) (ss_vtuner s, cfg ?x, Some (m_rtp ?x)) = ((v, c, r), resp)"
    by (metis prod_cases4 surj_pair)
  have ok: "config_ok (cfg ?x)" "config_reach (cfg ?x)" "synced d ?x" using assms by (simp_all add: client_ok_def rtsp_ok_def)
  have "client_ok (d \<or> clears H e s) (?x\<lparr>m_satip_config := c, m_rtp := the r\<rparr>)"
  proof (rule client_outside [OF assms])
    show "outside (cfg ?x) c" using vtunerEvent_keeps [OF run] ok(1) by (simp add: outside_def)
    show "config_reach c" by (rule vtunerEvent_reach [OF run ok(2)])
    from device_change [OF run] show "synced (d \<or> clears H e s) (?x\<lparr>m_satip_config := c, m_rtp := the r\<rparr>)"
    proof (elim disjE exE conjE)
      assume "tuning_change (cfg ?x) c"
      then show ?thesis using change_synced(1) [OF ok(3)] by (auto simp: tuning_change_def intro: synced_mono)
    next
      assume "c = clearProperty (cfg ?x)" "clears H e s"
      then show ?thesis using change_synced(3) [OF ok(3)] by simp
    next
      fix pl assume "c = updatePidList pl (cfg ?x)"
      then show ?thesis using change_synced(4) [OF ok(3)] by (auto intro: synced_mono)
    qed
  qed
  then show ?thesis by (simp add: loop_device_def run)
qed

lemma wakeup_outside: "config_ok c \<Longrightarrow> outside c (wakeup c)"
  by (simp add: outside_def wakeup_inv) (simp add: wakeup_def)

lemma satipRTSP_parts [simp]:
  "cfg (satipRTSP raw now mem t0 ts0 c host port r) = c" "m_rtp (satipRTSP raw now mem t0 ts0 c host port r) = r"
  by (simp_all add: satipRTSP_def resetConnect_def close_fd_def Let_def timer_ops resetReconnectBackoff_def)

lemma create_ok:
  assumes "clean host" "clean port" "CHR ''?'' \<notin> set host" "CHR ''?'' \<notin> set port"
  shows "client_ok False (ss_rtsp (fst (satipSession H e host port fe_type opt)))"
proof -
  have ok: "config_ok (setWakeupFd fd (satipConfig raw fe opt))" "config_reach (setWakeupFd fd (satipConfig raw fe opt))"
    "m_status (setWakeupFd fd (satipConfig raw fe opt)) = CONFIG_STATUS_CHANNEL_INVALID" for fd raw fe
    using satipConfig_ok [of raw fe opt] config_reach.on_wakeup_fd [OF config_reach.on_start [of raw fe opt]]
    by (simp_all add: wakeup_inv) (simp add: setWakeupFd_def satipConfig_status)
  show ?thesis
    using assms ok by (simp add: satipSession_def Let_def client_ok_def satipRTSP_ok satipRTSP_synced)
qed

lemma session_reach_ok: "session_reach H d s \<Longrightarrow> client_ok d (ss_rtsp s)"
proof (induction rule: session_reach.induct)
  case (create host port e fe_type opt)
  then show ?case by (rule create_ok)
next
  case (start d s)
  then show ?case by (simp add: session_start_def session_run_def client_same)
next
  case (stop d s)
  let ?x = "ss_rtsp s"
  have ok: "config_ok (cfg ?x)" "config_reach (cfg ?x)" "synced d ?x" using stop.IH by (simp_all add: client_ok_def rtsp_ok_def)
  have "client_ok d (?x\<lparr>m_satip_config := wakeup (cfg ?x), m_rtp := rtp_stop (m_rtp ?x)\<rparr>)"
  proof (rule client_outside [OF stop.IH wakeup_outside [OF ok(1)]])
    show "config_reach (wakeup (cfg ?x))" by (rule config_reach.on_wakeup [OF ok(2)])
    show "synced d (?x\<lparr>m_satip_config := wakeup (cfg ?x), m_rtp := rtp_stop (m_rtp ?x)\<rparr>)"
      by (rule change_synced(5) [OF ok(3)])
  qed
  then show ?case by (simp add: session_stop_def)
next
  case (status d s e)
  then have "rtsp_ok (ss_rtsp s)" by (simp add: client_ok_def)
  then show ?case
    using client_ev [OF status.IH ev_handleRTSPStatus handleRTSPStatus_ok] by (simp add: loop_status_def)
next
  case (timer d s e)
  then have "rtsp_ok (ss_rtsp s)" by (simp add: client_ok_def)
  then show ?case
    using client_evs [OF timer.IH evs_handleNextTimer handleNextTimer_ok] by (simp add: loop_timer_def)
next
  case (drain d s)
  then show ?case by (simp add: loop_drain_def)
next
  case (device d s e)
  show ?case by (rule client_device [OF device.IH])
next
  case (server d s e revents s')
  then have ok: "rtsp_ok (ss_rtsp s)" by (simp add: client_ok_def)
  obtain x where x: "handlePollEvents (l_now3 e) (l_frames e) (l_recv e) revents (ss_rtsp s) = Some x" "ss_rtsp s' = x"
    using server.hyps by (auto simp: loop_server_def elim!: bind_SomeE)
  then show ?case
    using client_evs [OF server.IH evs_handlePollEvents [OF ok x(1)] handlePollEvents_ok [OF ok x(1)]] by simp
next
  case (receive d s de buf buf' r c)
  then show ?case using client_receive [OF receive.IH receive(2)] by simp
qed

text \<open>
  C3. The whole session, with a server address without blanks, line ends and question marks: in every state that any interleaving of the loop's handlers, the receiving
  thread and the kernel's messages can reach, whatever \<^verbatim>\<open>recv\<close> returned, once something has been sent on the
  connection the server that reads the messages has every pid the client recorded. Unless the
  record is stale (cleared by \<^verbatim>\<open>DTV_CLEAR\<close>, with no SETUP and no PLAY of a newly tuned channel sent
  since), the server has exactly the recorded pids; then with no change pending it has exactly the
  kernel's pids and the pids the tap derived, or the record is empty and the server has none,
  as C26 shows.
\<close>

theorem session_in_step:
  assumes "session_reach H stale s" "c = cfg (ss_rtsp s)" "k_sent (ss_rtsp s) \<noteq> []"
  shows "m_requested_pids c \<subseteq> server_of (k_sent (ss_rtsp s)) \<and>
    (\<not> stale \<longrightarrow> server_of (k_sent (ss_rtsp s)) = m_requested_pids c) \<and>
    (\<not> stale \<and> getPidStatus c = CONFIG_STATUS_PID_STATIONARY \<longrightarrow>
      server_of (k_sent (ss_rtsp s)) =
        (if m_requested_pids c = {} then {} else wanted_pids (m_pid_list c) \<union> m_ca_pids c))"
proof -
  have ok: "config_reach c" "synced stale (ss_rtsp s)"
    using session_reach_ok [OF assms(1)] assms(2) by (simp_all add: client_ok_def)
  have "tracked_requests c" using config_reach_inv [OF ok(1)] by simp
  moreover have "m_pid_status c = CONFIG_STATUS_PID_STATIONARY \<and> \<not> m_ca_dirty c"
    if "getPidStatus c = CONFIG_STATUS_PID_STATIONARY"
    using that by (cases "m_pid_status c") (auto simp: getPidStatus_def split: if_splits)
  ultimately show ?thesis
    using ok(2) assms(2,3) by (auto simp: synced_def in_step_def tracked_requests_def)
qed

text \<open>A tuned channel, a connection and a session request, in three turns.\<close>

lemma first_connect:
  assumes "m_rtsp_status x = RTSP_STATUS_CONFIG_WAITING" "chan x = CONFIG_STATUS_CHANNEL_CHANGED"
  shows "handleRTSPStatus now (Some [Connecting fd]) ok x =
    startTimerResetConnect now 5000 ((attempting x)\<lparr>k_open := int fd # k_open x, m_fd := int fd, k_sent := [],
      m_rtsp_status := RTSP_STATUS_SERVER_CONNECTING\<rparr>)" (is "_ = ?y")
proof -
  have conn: "m_fd (fst (connectToServer (Some [Connecting fd]) y)) = int fd" "snd (connectToServer (Some [Connecting fd]) y) = RTSP_OK" for y
    by (simp_all add: connectToServer_def)
  show ?thesis
  proof (cases rule: waiting_run [OF assms, of "Some [Connecting fd]" now ok])
    case (1 fd')
    then show "handleRTSPStatus now (Some [Connecting fd]) ok x = ?y" using conn(1) [of "attempting x"] by simp
  next
    case 2
    then show "handleRTSPStatus now (Some [Connecting fd]) ok x = ?y" using conn(2) [of "attempting x"] by simp
  qed
qed

lemma attempting_wait [simp]: "m_wait_response (attempting s) = m_wait_response s"
  by (simp add: attempting_def resetReconnectBackoff_def timer_ops)

lemma connect_state:
  "m_rtsp_status (startTimerResetConnect now n x) = m_rtsp_status x" "k_sent (startTimerResetConnect now n x) = k_sent x"
  "m_wait_response (startTimerResetConnect now n x) = m_wait_response x"
  by (simp_all add: timer_ops)

lemma first_request:
  assumes "m_rtsp_status x = RTSP_STATUS_CONFIG_WAITING" "chan x = CONFIG_STATUS_CHANNEL_CHANGED" "\<not> m_wait_response x"
    and "x1 = handleRTSPStatus now (Some [Connecting fd]) ok x"
    and "handlePollEvents now' env rcv {POLLOUT} x1 = Some x2"
    and "x3 = handleRTSPStatus now'' addrs True x2"
  shows "k_sent x3 = [request_text RTSP_REQUEST_SETUP (stopTimerKeepAliveMessage x2)]" "m_wait_response x3"
    "length (m_timer_list x) = 3 \<Longrightarrow> m_ts (m_timer_list x3 ! T_RESET) = deadline now'' 4000"
proof -
  have x1: "m_rtsp_status x1 = RTSP_STATUS_SERVER_CONNECTING" "k_sent x1 = []" "\<not> m_wait_response x1"
    "length (m_timer_list x1) = length (m_timer_list x)"
    unfolding assms(4) first_connect [OF assms(1,2)] connect_state
    using assms(3) by (simp_all add: timer_ops attempting_def resetReconnectBackoff_def)
  have x2: "m_rtsp_status x2 = RTSP_STATUS_SESSION_ESTABLISHING" "k_sent x2 = []" "\<not> m_wait_response x2"
    "length (m_timer_list x2) = length (m_timer_list x)"
    using assms(5) x1 by (auto simp: handlePollEvents_def timer_ops)
  have "k_sent (stopTimerKeepAliveMessage x2) = []" using x2(2) by (simp add: timer_ops)
  then have "k_sent x3 = [request_text RTSP_REQUEST_SETUP (stopTimerKeepAliveMessage x2)] \<and> m_wait_response x3 \<and>
      (length (m_timer_list x) = 3 \<longrightarrow> m_ts (m_timer_list x3 ! T_RESET) = deadline now'' 4000)"
    using x2 by (simp add: assms(6) handleRTSPStatus_def sendRequest_def send_by_kind_eq send_msg_def next_cseq_def timer_ops
        with_timer_def timer_start_def)
  then show "k_sent x3 = [request_text RTSP_REQUEST_SETUP (stopTimerKeepAliveMessage x2)]" "m_wait_response x3"
    "length (m_timer_list x) = 3 \<Longrightarrow> m_ts (m_timer_list x3 ! T_RESET) = deadline now'' 4000" by simp_all
qed

definition sample_env :: session_env where
  "sample_env = \<lparr>e_pipe = Some (4, 5), e_nodes = [6], e_drv = (\<lambda>_. None), e_tries0 = 0,
     e_timeout0 = \<lparr>tv_sec = 0, tv_nsec = 0\<rparr>, e_ports = undefined, e_raw_config = blank_config, e_raw_rtsp = undefined,
     e_now = \<lparr>tv_sec = 0, tv_nsec = 0\<rparr>, e_mem = (\<lambda>_. 0), e_t0 = 0, e_ts0 = \<lparr>tv_sec = 0, tv_nsec = 0\<rparr>\<rparr>"

definition sample_loop :: loop_env where
  "sample_loop = \<lparr>l_now0 = \<lparr>tv_sec = 1, tv_nsec = 0\<rparr>, l_addrs = Some [Connecting 7], l_ok0 = True, l_now_poll = \<lparr>tv_sec = 1, tv_nsec = 0\<rparr>,
     l_poll = (\<lambda>_ _ _ _. Poll_ready True False {POLLOUT}), l_now1 = \<lparr>tv_sec = 1, tv_nsec = 0\<rparr>, l_ok1 = True,
     l_now2 = \<lparr>tv_sec = 1, tv_nsec = 0\<rparr>, l_get = (\<lambda>_. Some (prop_msg sample_message DTV_TUNE 0)),
     l_now3 = \<lparr>tv_sec = 1, tv_nsec = 0\<rparr>, l_frames = undefined, l_recv = Recv []\<rparr>"

definition sample_session :: session where
  "sample_session = loop_device sample_abi sample_loop
     (fst (satipSession sample_abi sample_env ''192.168.0.1'' ''554'' 0 (m_settings blank_config)))"

lemma sample_session_reach: "session_reach sample_abi False sample_session"
proof -
  have "session_reach sample_abi False (fst (satipSession sample_abi sample_env ''192.168.0.1'' ''554'' 0 (m_settings blank_config)))"
    by (rule session_reach.create) simp_all
  from session_reach.device [OF this, of sample_loop] show ?thesis
    by (simp add: sample_session_def clears_def sample_loop_def prop_msg_def)
qed

lemma sample_device:
  "loop_device sample_abi sample_loop s = s\<lparr>ss_vtuner := ss_vtuner s,
     ss_rtsp := (ss_rtsp s)\<lparr>m_satip_config := setChannelChanged (cfg (ss_rtsp s)), m_rtp := m_rtp (ss_rtsp s)\<rparr>\<rparr>"
proof -
  have "setProperty H (prop_msg msg DTV_TUNE n) v c = setChannelChanged c" for H msg n v c
    by (simp add: setProperty_def prop_msg_def)
  then show ?thesis by (simp add: loop_device_def sample_loop_def prop_event)
qed

lemma sample_session_tuned:
  "m_rtsp_status (ss_rtsp sample_session) = RTSP_STATUS_CONFIG_WAITING"
  "chan (ss_rtsp sample_session) = CONFIG_STATUS_CHANNEL_CHANGED" "\<not> m_wait_response (ss_rtsp sample_session)"
proof -
  let ?s = "fst (satipSession sample_abi sample_env ''192.168.0.1'' ''554'' 0 (m_settings blank_config))"
  have "m_rtsp_status (ss_rtsp ?s) = RTSP_STATUS_CONFIG_WAITING" "\<not> m_wait_response (ss_rtsp ?s)"
    by (simp_all add: satipSession_def satipRTSP_def Let_def resetConnect_state)
  then show "m_rtsp_status (ss_rtsp sample_session) = RTSP_STATUS_CONFIG_WAITING"
    "chan (ss_rtsp sample_session) = CONFIG_STATUS_CHANNEL_CHANGED" "\<not> m_wait_response (ss_rtsp sample_session)"
    by (simp_all add: sample_session_def sample_device setChannelChanged_def)
qed

text \<open>The sample session, running, has sent its first request and waits for the answer.\<close>

lemma sample_waiting:
  obtains s where "session_reach sample_abi False s" "ss_running s" "k_sent (ss_rtsp s) \<noteq> []" "m_wait_response (ss_rtsp s)"
    "m_ts (m_timer_list (ss_rtsp s) ! T_RESET) = \<lparr>tv_sec = 5, tv_nsec = 0\<rparr>" "ss_pipe0 s = 4"
proof -
  let ?e = sample_loop and ?s0 = "session_start sample_session"
  let ?s1 = "loop_status ?e ?s0"
  have e: "l_addrs ?e = Some [Connecting 7]" "l_ok0 ?e" "l_now0 ?e = \<lparr>tv_sec = 1, tv_nsec = 0\<rparr>" by (simp_all add: sample_loop_def)
  have s0: "session_reach sample_abi False ?s0" "ss_running ?s0" "ss_pipe0 ?s0 = 4"
    using session_reach.start [OF sample_session_reach]
    by (simp_all add: session_start_def session_run_def sample_session_def sample_device satipSession_def sample_env_def Let_def)
  have x0: "m_rtsp_status (ss_rtsp ?s0) = RTSP_STATUS_CONFIG_WAITING" "chan (ss_rtsp ?s0) = CONFIG_STATUS_CHANNEL_CHANGED"
    "\<not> m_wait_response (ss_rtsp ?s0)"
    using sample_session_tuned by (simp_all add: session_start_def session_run_def)
  have "length (m_timer_list (ss_rtsp ?s0)) = 3" using session_reach_ok [OF s0(1)] by (simp add: client_ok_def rtsp_ok_def)
  note len = this
  have "m_rtsp_status (ss_rtsp ?s1) = RTSP_STATUS_SERVER_CONNECTING"
    by (simp add: loop_status_def e(1) first_connect [OF x0(1,2)] connect_state)
  then obtain x2 where x2: "handlePollEvents (l_now3 ?e) (l_frames ?e) (l_recv ?e) {POLLOUT} (ss_rtsp ?s1) = Some x2"
    by (simp add: handlePollEvents_def)
  let ?s2 = "?s1\<lparr>ss_rtsp := x2\<rparr>"
  have "session_reach sample_abi False ?s1" using session_reach.status [OF s0(1), of ?e] by simp
  moreover have "loop_server ?e {POLLOUT} ?s1 = Some ?s2" by (simp add: loop_server_def x2)
  ultimately have "session_reach sample_abi False ?s2" using session_reach.server [of sample_abi False ?s1 ?e] by simp
  from session_reach.status [OF this, of ?e] have r: "session_reach sample_abi False (loop_status ?e ?s2)" by simp
  have three: "ss_rtsp (loop_status ?e ?s2) = handleRTSPStatus (l_now0 ?e) (l_addrs ?e) True x2"
    using e(2) by (simp add: loop_status_def)
  have one: "ss_rtsp ?s1 = handleRTSPStatus (l_now0 ?e) (Some [Connecting 7]) (l_ok0 ?e) (ss_rtsp ?s0)"
    by (simp add: loop_status_def e(1))
  note f = first_request [OF x0 one x2 three]
  have "deadline \<lparr>tv_sec = 1, tv_nsec = 0\<rparr> 4000 = \<lparr>tv_sec = 5, tv_nsec = 0\<rparr>"
    by (simp add: deadline_def Let_def sdiv_nonneg smod_nonneg)
  then have "m_ts (m_timer_list (ss_rtsp (loop_status ?e ?s2)) ! T_RESET) = \<lparr>tv_sec = 5, tv_nsec = 0\<rparr>"
    using f(3) [OF len] e(3) by simp
  from that [OF r _ _ f(2) this] f(1) s0(2,3) show thesis by (simp add: loop_status_def)
qed

theorem session_in_step_witness:
  "\<exists>s. session_reach sample_abi False s \<and> k_sent (ss_rtsp s) \<noteq> [] \<and>
     m_requested_pids (cfg (ss_rtsp s)) = server_of (k_sent (ss_rtsp s))"
proof -
  obtain s where s: "session_reach sample_abi False s" "k_sent (ss_rtsp s) \<noteq> []" by (rule sample_waiting)
  with session_in_step [OF s(1) refl s(2)] show ?thesis by blast
qed

section \<open>The loop among the interleavings\<close>

lemma loop_turn_reach:
  assumes "session_reach H d s" "loop_turn H e s = Some (s', go)"
  shows "\<exists>d'. session_reach H d' s'"
proof -
  let ?s = "loop_status e s"
  define x where "x = l_poll e (v_fd (ss_vtuner ?s)) (if ss_pipe0 ?s \<noteq> -1 then Some (ss_pipe0 ?s) else None)
    (if getPollEvent (ss_rtsp ?s) \<noteq> {} then Some (getRtspSocketFd (ss_rtsp ?s), getPollEvent (ss_rtsp ?s)) else None)
    (getPollTimeout (l_now_poll e) (ss_rtsp ?s))"
  obtain d1 where s: "session_reach H d1 ?s" using session_reach.status [OF assms(1)] by blast
  note t = session_reach.timer [OF s, of e]
  show ?thesis
  proof (cases x)
    case Poll_error
    then show ?thesis using assms(2) s by (auto simp: loop_turn_def Let_def simp flip: x_def)
  next
    case Poll_EINTR
    then show ?thesis using assms(2) t by (auto simp: loop_turn_def Let_def simp flip: x_def)
  next
    case (Poll_ready device pipe_in revents)
    let ?a = "loop_timer e ?s"
    let ?b = "if ss_pipe0 ?s \<noteq> -1 \<and> pipe_in then loop_drain ?a else ?a"
    let ?c = "if device then loop_device H e ?b else ?b"
    have b: "session_reach H d1 ?b" using t session_reach.drain by auto
    obtain d2 where c: "session_reach H d2 ?c"
      using b session_reach.device [OF b, of e] by (cases device; simp only: if_True if_False; blast)
    have "(if getPollEvent (ss_rtsp ?s) \<noteq> {} \<and> revents \<noteq> {} then loop_server e revents ?c else Some ?c) = Some s'"
      using assms(2) Poll_ready
      by (auto simp: loop_turn_def Let_def simp flip: x_def elim!: bind_SomeE split: if_splits)
    then show ?thesis using c session_reach.server [OF c, of e] by (auto split: if_splits)
  qed
qed

text \<open>
  The loop only makes steps of the interleaving above, so that its invariants hold after any number of turns.
\<close>

lemma satipMainLoop_reach:
  assumes "session_reach H d s" "satipMainLoop H es s = Some (s', ended)"
  shows "\<exists>d'. session_reach H d' s'"
  using assms
proof (induction H es s arbitrary: d rule: satipMainLoop.induct)
  case (2 H e es s)
  show ?case
  proof (cases "ss_running s")
    case True
    then obtain t where turn: "loop_turn H e s = Some t"
      "(if snd t then satipMainLoop H es (fst t) else Some (fst t, True)) = Some (s', ended)"
      using "2.prems"(2) by (auto elim!: bind_SomeE)
    from loop_turn_reach [OF "2.prems"(1), of e "fst t" "snd t"] turn(1)
    obtain d1 where d1: "session_reach H d1 (fst t)" by auto
    show ?thesis
    proof (cases "snd t")
      case True
      then show ?thesis using turn d1 "2.IH" [OF _ turn(1) True d1] \<open>ss_running s\<close> by auto
    qed (use turn d1 in auto)
  qed (use "2.prems" in auto)
qed auto

lemma satipMainLoop_append:
  "satipMainLoop H es s = Some (s', False) \<Longrightarrow> satipMainLoop H (es @ fs) s = satipMainLoop H fs s'"
  by (induction H es s rule: satipMainLoop.induct) (auto split: if_splits elim!: bind_SomeE)

section \<open>A server that says nothing\<close>

text \<open>Nothing is reported at the connection; the device and the pipe may have something, or \<^verbatim>\<open>poll\<close> is interrupted.\<close>

definition silent :: "loop_env \<Rightarrow> bool" where
  "silent e \<longleftrightarrow> (\<forall>fd p r t. l_poll e fd p r t = Poll_EINTR \<or> (\<exists>dev pin. l_poll e fd p r t = Poll_ready dev pin {}))"

text \<open>The request that is outstanding in one state is so in another, with the same watchdog.\<close>

definition outstanding :: "rtsp \<Rightarrow> rtsp \<Rightarrow> bool" where
  "outstanding x y \<longleftrightarrow> m_wait_response y \<and> m_rtsp_request y = m_rtsp_request x \<and> m_rtsp_status y = m_rtsp_status x \<and>
     m_fd y = m_fd x \<and> k_sent y = k_sent x \<and> m_timer_list y ! T_RESET = m_timer_list x ! T_RESET"

lemma outstanding_trans: "outstanding x y \<Longrightarrow> outstanding y z \<Longrightarrow> outstanding x z"
  by (simp add: outstanding_def)

lemma status_outstanding:
  assumes "rtsp_ok x" "m_wait_response x"
  shows "outstanding x (handleRTSPStatus now addrs ok x)"
proof -
  have "length (m_timer_list x) = 3" "m_rtsp_status x \<noteq> RTSP_STATUS_CONFIG_WAITING"
    using assms by (auto simp: rtsp_ok_defs)
  then show ?thesis
    using assms(2)
    by (cases "m_rtsp_status x") (auto simp: handleRTSPStatus_def sendRequest_def Let_def outstanding_def
        startTimerKeepAliveMessage_def with_timer_def)
qed

lemma call_outstanding:
  assumes "m_wait_response x" "i = T_KEEP \<or> i = T_RECONNECT"
  shows "outstanding x (timer_call m_timer_list m_timer_list_update (rtsp_handler ok now) now i x)"
  using assms
  by (auto simp: timer_call_def rtsp_handler_def timeoutKeepAlive_def sendRequest_def timeoutReconnect_def outstanding_def
      resetReconnectBackoff_def split: t_channel_status.split)

text \<open>The dispatch, timer by timer.\<close>

definition due_call :: "bool \<Rightarrow> timespec \<Rightarrow> nat \<Rightarrow> rtsp \<Rightarrow> rtsp" where
  "due_call ok now i y = (if timer_due now (m_timer_list y ! i)
     then timer_call m_timer_list m_timer_list_update (rtsp_handler ok now) now i y else y)"

lemma handleNextTimer_calls:
  assumes "length (m_timer_list x) = 3"
  shows "handleNextTimer now ok x = due_call ok now T_RECONNECT (due_call ok now T_KEEP (due_call ok now T_RESET x))"
proof -
  have "[0..<3] = [0, 1, 2 :: nat]" by (simp add: upt_rec)
  then show ?thesis using assms by (simp add: handleNextTimer_def callNextTimer_def due_call_def)
qed

lemma due_call_outstanding:
  assumes "outstanding x y" "i = T_KEEP \<or> i = T_RECONNECT"
  shows "outstanding x (due_call ok now i y)"
proof -
  have "m_wait_response y" using assms(1) by (simp add: outstanding_def)
  from outstanding_trans [OF assms(1) call_outstanding [OF this assms(2)]] show ?thesis using assms(1) by (simp add: due_call_def)
qed

lemma timer_outstanding:
  assumes "rtsp_ok x" "m_wait_response x" "\<not> timer_due now (m_timer_list x ! T_RESET)"
  shows "outstanding x (handleNextTimer now ok x)"
proof -
  have "outstanding x (due_call ok now T_RESET x)" using assms(2,3) by (simp add: due_call_def outstanding_def)
  from due_call_outstanding [OF due_call_outstanding [OF this]]
  show ?thesis using assms(1) by (simp add: handleNextTimer_calls rtsp_ok_def)
qed

lemma watchdog_fires:
  assumes "rtsp_ok x" "timer_due now (m_timer_list x ! T_RESET)"
  shows "m_rtsp_status (handleNextTimer now ok x) = RTSP_STATUS_CONFIG_WAITING"
proof -
  let ?y = "due_call ok now T_RESET x"
  have len: "length (m_timer_list x) = 3" using assms(1) by (simp add: rtsp_ok_def)
  have y: "m_rtsp_status ?y = RTSP_STATUS_CONFIG_WAITING"
    using assms(2) by (simp add: due_call_def timer_call_def timer_due_def rtsp_handler_def timeoutConnect_def resetConnect_state)
  have "0 < length (m_timer_list x)" using len by simp
  with assms(1) have "rtsp_ok (timer_call m_timer_list m_timer_list_update (rtsp_handler ok now) now 0 x)" by (rule rtsp_timers.call_inv)
  then have "rtsp_ok ?y" using assms by (simp add: due_call_def)
  then have "\<not> timer_active T_KEEP ?y" using y by (auto simp: rtsp_ok_def sched_ok_def)
  then have "due_call ok now T_KEEP ?y = ?y" by (simp add: due_call_def timer_due_def timer_active_def)
  moreover have "m_rtsp_status (due_call ok now T_RECONNECT z) = m_rtsp_status z" for z
    by (simp add: due_call_def timer_call_def rtsp_handler_def timeoutReconnect_def resetReconnectBackoff_def split: t_channel_status.split)
  ultimately show ?thesis using y by (simp add: handleNextTimer_calls [OF len])
qed

lemma device_parts:
  "m_rtsp_status (ss_rtsp (loop_device H e s)) = m_rtsp_status (ss_rtsp s)"
  "m_wait_response (ss_rtsp (loop_device H e s)) = m_wait_response (ss_rtsp s)"
  "outstanding x (ss_rtsp (loop_device H e s)) = outstanding x (ss_rtsp s)"
  "ss_running (loop_device H e s) = ss_running s"
  by (simp_all add: loop_device_def outstanding_def split: prod.split)

text \<open>A turn in which the server is silent: the status call, the timers, and then only pipe and device.\<close>

lemma silent_turn:
  fixes e :: loop_env and s :: session and x :: rtsp
  assumes "silent e" "y = handleNextTimer (l_now1 e) (l_ok1 e) (ss_rtsp (loop_status e s))"
  obtains s' where "loop_turn H e s = Some (s', True)" "ss_running s' = ss_running s"
    "m_rtsp_status (ss_rtsp s') = m_rtsp_status y" "outstanding x (ss_rtsp s') = outstanding x y"
    "(\<forall>fd p r t. l_poll e fd p r t = Poll_ready False True {}) \<Longrightarrow> ss_pipe0 s \<noteq> -1 \<Longrightarrow>
       ss_drained s' = m_wakeups (cfg (ss_rtsp s'))"
proof -
  let ?s = "loop_status e s" and ?a = "loop_timer e (loop_status e s)"
  define w where "w = l_poll e (v_fd (ss_vtuner ?s)) (if ss_pipe0 ?s \<noteq> -1 then Some (ss_pipe0 ?s) else None)
    (if getPollEvent (ss_rtsp ?s) \<noteq> {} then Some (getRtspSocketFd (ss_rtsp ?s), getPollEvent (ss_rtsp ?s)) else None)
    (getPollTimeout (l_now_poll e) (ss_rtsp ?s))"
  have a: "ss_rtsp ?a = y" "ss_running ?a = ss_running s" "ss_pipe0 ?s = ss_pipe0 s"
    by (simp_all add: assms(2) loop_timer_def loop_status_def)
  have "w = Poll_EINTR \<or> (\<exists>dev pin. w = Poll_ready dev pin {})" using assms(1) by (simp add: silent_def w_def)
  then consider "w = Poll_EINTR" | dev pin where "w = Poll_ready dev pin {}" by blast
  then show thesis
  proof cases
    case 1
    have "loop_turn H e s = Some (?a, True)" using 1 by (simp add: loop_turn_def Let_def flip: w_def)
    then show thesis
    proof (rule that)
      assume "\<forall>fd p r t. l_poll e fd p r t = Poll_ready False True {}"
      then show "ss_drained ?a = m_wakeups (cfg (ss_rtsp ?a))" using 1 by (simp add: w_def)
    qed (simp_all add: a)
  next
    case 2
    let ?b = "if ss_pipe0 s \<noteq> -1 \<and> pin then loop_drain ?a else ?a"
    let ?c = "if dev then loop_device H e ?b else ?b"
    have b: "ss_rtsp ?b = y" "ss_running ?b = ss_running s" using a by (simp_all add: loop_drain_def)
    have "loop_turn H e s = Some (let b = if ss_pipe0 ?s \<noteq> -1 \<and> pin then loop_drain ?a else ?a in
        if dev then loop_device H e b else b, True)"
      using 2 by (simp add: loop_turn_def Let_def flip: w_def)
    then have "loop_turn H e s = Some (?c, True)" by (simp only: Let_def a(3))
    then show thesis
    proof (rule that)
      show "ss_running ?c = ss_running s" "m_rtsp_status (ss_rtsp ?c) = m_rtsp_status y"
        "outstanding x (ss_rtsp ?c) = outstanding x y"
        using b device_parts [where H = H and e = e and s = ?b] by (cases dev; simp)+
    next
      assume p: "\<forall>fd p r t. l_poll e fd p r t = Poll_ready False True {}" "ss_pipe0 s \<noteq> -1"
      then have "\<not> dev" "pin" using 2 by (simp_all add: w_def)
      then show "ss_drained ?c = m_wakeups (cfg (ss_rtsp ?c))" using p(2) by (simp add: loop_drain_def)
    qed
  qed
qed

lemma silent_wait:
  assumes "\<forall>e \<in> set es. silent e \<and> \<not> ts_after (l_now1 e) (m_ts (m_timer_list (ss_rtsp s) ! T_RESET))"
    and "session_reach H d s" "ss_running s" "m_wait_response (ss_rtsp s)"
  shows "\<exists>d1 s1. satipMainLoop H es s = Some (s1, False) \<and> session_reach H d1 s1 \<and> outstanding (ss_rtsp s) (ss_rtsp s1)"
  using assms
proof (induction es arbitrary: s d)
  case Nil
  then show ?case by (auto simp: outstanding_def)
next
  case (Cons e es)
  let ?x = "ss_rtsp s" and ?y = "ss_rtsp (loop_status e s)"
  let ?z = "handleNextTimer (l_now1 e) (l_ok1 e) ?y"
  have ok: "rtsp_ok ?x" using session_reach_ok [OF Cons.prems(2)] by (simp add: client_ok_def)
  have y: "rtsp_ok ?y" "outstanding ?x ?y"
    using handleRTSPStatus_ok [OF ok] status_outstanding [OF ok Cons.prems(4)] by (simp_all add: loop_status_def)
  have "outstanding ?y ?z"
    by (rule timer_outstanding [OF y(1)]) (use Cons.prems(1) y(2) in \<open>simp_all add: outstanding_def timer_due_def\<close>)
  with y(2) have z: "outstanding ?x ?z" by (rule outstanding_trans)
  obtain s' where s': "loop_turn H e s = Some (s', True)" "ss_running s' = ss_running s" "outstanding ?x (ss_rtsp s') = outstanding ?x ?z"
    using silent_turn [OF _ refl, where e = e and s = s and H = H and x = ?x] Cons.prems(1) by (metis list.set_intros(1))
  have o: "outstanding ?x (ss_rtsp s')" using s'(3) z by simp
  obtain d' where "session_reach H d' s'" using loop_turn_reach [OF Cons.prems(2) s'(1)] by blast
  from Cons.IH [OF _ this] obtain d1 s1 where
    "satipMainLoop H es s' = Some (s1, False)" "session_reach H d1 s1" "outstanding (ss_rtsp s') (ss_rtsp s1)"
    using Cons.prems(1,3) s'(2) o by (auto simp: outstanding_def)
  then show ?case using s'(1) Cons.prems(3) outstanding_trans [OF o] by (intro exI [of _ d1] exI [of _ s1]) simp
qed

text \<open>
  C7. A server that stays silent is given up when the watchdog's time is over, and not before. In a reachable
  state of the running session with a response awaited, take any turns of the loop in which
  \<^verbatim>\<open>poll\<close> is interrupted or reports nothing at the connection, whatever it reports at the device and the pipe: while the clock the
  timers are looked at with is not after the watchdog's deadline, the connection is kept with the same
  request outstanding; the first turn with the clock after it ends with the connection closed and no response
  awaited, and with the reconnect timer running if the channel is wanted and tuned. If that turn found only the
  pipe readable, the pipe is empty after it.
\<close>

theorem silent_server_given_up:
  assumes "session_reach H d s" "x = ss_rtsp s" "ss_running s" "m_wait_response x"
    and "\<forall>e \<in> set es. silent e \<and> \<not> ts_after (l_now1 e) (m_ts (m_timer_list x ! T_RESET))"
    and "silent e" "ts_after (l_now1 e) (m_ts (m_timer_list x ! T_RESET))"
  shows "\<exists>s1 s2. satipMainLoop H es s = Some (s1, False) \<and> m_wait_response (ss_rtsp s1) \<and>
      m_rtsp_request (ss_rtsp s1) = m_rtsp_request x \<and> m_rtsp_status (ss_rtsp s1) = m_rtsp_status x \<and>
      m_fd (ss_rtsp s1) = m_fd x \<and> k_sent (ss_rtsp s1) = k_sent x \<and>
    satipMainLoop H (es @ [e]) s = Some (s2, False) \<and> m_rtsp_status (ss_rtsp s2) = RTSP_STATUS_CONFIG_WAITING \<and>
      m_fd (ss_rtsp s2) = -1 \<and> k_open (ss_rtsp s2) = [] \<and> \<not> m_wait_response (ss_rtsp s2) \<and>
      (chan (ss_rtsp s2) = CONFIG_STATUS_CHANNEL_STABLE \<longrightarrow> timer_active T_RECONNECT (ss_rtsp s2)) \<and>
      ((\<forall>fd p r t. l_poll e fd p r t = Poll_ready False True {}) \<and> ss_pipe0 s1 \<noteq> -1 \<longrightarrow>
         ss_drained s2 = m_wakeups (cfg (ss_rtsp s2)))"
proof -
  obtain d1 s1 where s1: "satipMainLoop H es s = Some (s1, False)" "session_reach H d1 s1" "outstanding x (ss_rtsp s1)"
    using silent_wait [OF assms(5) [unfolded assms(2)] assms(1,3)] assms(2,4) by auto
  let ?x = "ss_rtsp s1" and ?y = "ss_rtsp (loop_status e s1)"
  have run: "ss_running s1" using s1(1) by (induction H es s rule: satipMainLoop.induct) (auto split: if_splits elim!: bind_SomeE)
  have ok: "rtsp_ok ?x" using session_reach_ok [OF s1(2)] by (simp add: client_ok_def)
  have wait: "m_wait_response ?x" using s1(3) by (simp add: outstanding_def)
  have y: "rtsp_ok ?y" "outstanding ?x ?y"
    using handleRTSPStatus_ok [OF ok] status_outstanding [OF ok wait] by (simp_all add: loop_status_def)
  have "m_timer_list ?y ! T_RESET = m_timer_list x ! T_RESET" "m_wait_response ?y"
    using s1(3) y(2) by (simp_all add: outstanding_def)
  moreover from this have "timer_active T_RESET ?y" using y(1) by (simp add: rtsp_ok_defs)
  ultimately have "timer_due (l_now1 e) (m_timer_list ?y ! T_RESET)" using assms(7) by (simp add: timer_due_def timer_active_def)
  note closed = watchdog_fires [OF y(1) this]
  obtain s2 where s2: "loop_turn H e s1 = Some (s2, True)" "ss_running s2 = ss_running s1"
    "m_rtsp_status (ss_rtsp s2) = RTSP_STATUS_CONFIG_WAITING"
    "(\<forall>fd p r t. l_poll e fd p r t = Poll_ready False True {}) \<Longrightarrow> ss_pipe0 s1 \<noteq> -1 \<Longrightarrow> ss_drained s2 = m_wakeups (cfg (ss_rtsp s2))"
    using silent_turn [OF assms(6) refl, where s = s1 and H = H and x = x] closed by (metis (no_types, lifting))
  obtain d2 where "session_reach H d2 s2" using loop_turn_reach [OF s1(2) s2(1)] by blast
  then have "rtsp_ok (ss_rtsp s2)" using session_reach_ok by (auto simp: client_ok_def)
  then have "m_fd (ss_rtsp s2) = -1" "k_open (ss_rtsp s2) = []" "\<not> m_wait_response (ss_rtsp s2)"
    "chan (ss_rtsp s2) = CONFIG_STATUS_CHANNEL_STABLE \<longrightarrow> timer_active T_RECONNECT (ss_rtsp s2)"
    using s2(3) by (auto simp: rtsp_ok_defs)
  moreover have "satipMainLoop H (es @ [e]) s = Some (s2, False)"
    unfolding satipMainLoop_append [OF s1(1)] using run s2(1,2) by simp
  ultimately show ?thesis
    using s1(1,3) s2(3,4) by (intro exI [of _ s1] exI [of _ s2]) (simp add: outstanding_def)
qed

text \<open>Two turns before the deadline of the sample session, and one after it.\<close>

definition sample_silent :: "int \<Rightarrow> loop_env" where
  "sample_silent n = sample_loop\<lparr>l_poll := \<lambda>_ _ _ _. Poll_ready False True {}, l_now1 := \<lparr>tv_sec = n, tv_nsec = 0\<rparr>\<rparr>"

theorem silent_server_given_up_witness:
  "\<exists>s s1 s2. session_reach sample_abi False s \<and>
     satipMainLoop sample_abi [sample_silent 2, sample_silent 5] s = Some (s1, False) \<and> m_wait_response (ss_rtsp s1) \<and>
     satipMainLoop sample_abi [sample_silent 2, sample_silent 5, sample_silent 6] s = Some (s2, False) \<and> m_fd (ss_rtsp s2) = -1"
proof -
  obtain s where s: "session_reach sample_abi False s" "ss_running s" "m_wait_response (ss_rtsp s)"
    "m_ts (m_timer_list (ss_rtsp s) ! T_RESET) = \<lparr>tv_sec = 5, tv_nsec = 0\<rparr>" by (rule sample_waiting)
  have "\<forall>e \<in> set [sample_silent 2, sample_silent 5]. silent e \<and> \<not> ts_after (l_now1 e) (m_ts (m_timer_list (ss_rtsp s) ! T_RESET))"
    "silent (sample_silent 6)" "ts_after (l_now1 (sample_silent 6)) (m_ts (m_timer_list (ss_rtsp s) ! T_RESET))"
    by (simp_all add: s(4) sample_silent_def silent_def ts_after_def ex_bool_eq)
  from silent_server_given_up [OF s(1) refl s(2,3) this] s(1) show ?thesis unfolding append.simps by blast
qed

section \<open>Waking the loop\<close>

text \<open>Any number of turns of the receiving thread.\<close>

inductive receives :: "session \<Rightarrow> session \<Rightarrow> bool" for s where
  none: "receives s s"
| more: "receives s s1 \<Longrightarrow> rtpDump_step de (buf, m_rtp (ss_rtsp s1), cfg (ss_rtsp s1)) = Some (buf', r, c) \<Longrightarrow>
    receives s (s1\<lparr>ss_rtsp := (ss_rtsp s1)\<lparr>m_satip_config := c, m_rtp := r\<rparr>\<rparr>)"

text \<open>No change of the pids the tap derived without a byte in the pipe, if there is one.\<close>

definition woken :: "config \<Rightarrow> config \<Rightarrow> bool" where
  "woken c c' \<longleftrightarrow> m_wakeup_fd c' = m_wakeup_fd c \<and> m_wakeups c \<le> m_wakeups c' \<and>
     (m_wakeup_fd c \<ge> 0 \<and> m_wakeups c' = m_wakeups c \<longrightarrow> m_ca_pids c' = m_ca_pids c \<and> m_ca_dirty c' = m_ca_dirty c)"

lemma woken_trans: "woken a b \<Longrightarrow> woken b c \<Longrightarrow> woken a c"
  by (auto simp: woken_def)

lemma woken_setCaPids: "woken c (setCaPids pids c)"
  by (simp add: woken_def setCaPids_def wakeup_def)

lemma woken_fold: "woken c (fold setCaPids reps c)"
proof (induction reps arbitrary: c)
  case (Cons r reps)
  show ?case using woken_trans [OF woken_setCaPids Cons.IH] by simp
qed (simp add: woken_def)

lemma woken_tap:
  assumes "tap_data now0 now1 data n c = Some c'"
  shows "woken c c'"
proof (cases "m_psi c")
  case (Some p)
  then obtain r where r: "c' = fold setCaPids (snd r) (c\<lparr>m_psi := Some (fst r)\<rparr>)"
    using assms by (auto simp: tap_data_def run_psi_def split: option.splits)
  have "woken c (c\<lparr>m_psi := Some (fst r)\<rparr>)" by (simp add: woken_def)
  then show ?thesis unfolding r by (rule woken_trans [OF _ woken_fold])
qed (use assms in \<open>simp add: tap_data_def woken_def\<close>)

text \<open>
  The descriptor that the configuration writes to stays, and every byte that was read has been
  written before.
\<close>

definition flow :: "config \<Rightarrow> config \<Rightarrow> bool" where
  "flow c c' \<longleftrightarrow> m_wakeup_fd c' = m_wakeup_fd c \<and> m_wakeups c \<le> m_wakeups c'"

definition piped :: "session \<Rightarrow> bool" where
  "piped s \<longleftrightarrow> m_wakeup_fd (cfg (ss_rtsp s)) = ss_pipe1 s \<and> ss_drained s \<le> m_wakeups (cfg (ss_rtsp s))"

lemma flow_trans: "flow a b \<Longrightarrow> flow b c \<Longrightarrow> flow a c"
  by (auto simp: flow_def)

lemma flow_woken: "woken c c' \<Longrightarrow> flow c c'"
  by (simp add: flow_def woken_def)

lemma flow_same: "same_pid_state c c' \<Longrightarrow> flow c c'"
  by (simp add: flow_def same_pid_state_def)

lemma flow_run_psi: "flow c (run_psi f c)"
proof (cases "m_psi c")
  case (Some p)
  have "flow c (c\<lparr>m_psi := Some (fst (f p))\<rparr>)" by (simp add: flow_def)
  from flow_trans [OF this flow_woken [OF woken_fold]] show ?thesis by (simp add: run_psi_def Some)
qed (simp add: run_psi_def flow_def)

lemma flow_query: "config_ok c \<Longrightarrow> flow c (query_cfg rq c)"
  by (cases rq) (simp_all add: query_cfg_def flow_def getSetupData_eq getPlayData_eq requested_def tuned_def set_pilots_def)

lemma flow_ev: "ev x y \<Longrightarrow> config_ok (cfg x) \<Longrightarrow> flow (cfg x) (cfg y)"
  by (erule evE) (auto simp: sends_def intro: flow_same flow_trans [OF flow_query flow_same] flow_woken woken_tap)

lemma flow_evs: "ev\<^sup>*\<^sup>* x y \<Longrightarrow> client_ok d x \<Longrightarrow> flow (cfg x) (cfg y)"
proof (induction rule: rtranclp_induct)
  case (step y z)
  have "synced d y" using evs_synced [OF step(1)] step.prems by (simp add: client_ok_def)
  then have "config_ok (cfg y)" by (simp add: synced_def)
  then show ?case using step flow_ev flow_trans by blast
qed (simp add: flow_def)

lemma flow_device:
  fixes e :: loop_env and s :: session
  assumes "vtunerEvent H now (l_get e) (ss_vtuner s, c, r) = ((v', c', r'), resp)"
  shows "flow c c'"
  using device_change [OF assms]
proof (elim disjE exE conjE)
  assume "c' = clearProperty c"
  moreover have "flow c (clearProperty c)"
    unfolding clearProperty_def Let_def by (rule flow_trans [OF _ flow_run_psi]) (simp add: flow_def clearPidList_def)
  ultimately show ?thesis by simp
next
  fix pl assume "c' = updatePidList pl c"
  moreover have "flow c (updatePidList pl c)"
    unfolding updatePidList_def notifyPidList_def Let_def
    by (rule flow_trans [OF _ flow_run_psi]) (simp add: flow_def updatePidStatus_def Let_def)
  ultimately show ?thesis by simp
qed (simp add: tuning_change_def flow_same)

lemma piped_flow:
  assumes "piped s" "flow (cfg (ss_rtsp s)) c" "cfg (ss_rtsp s') = c" "ss_pipe1 s' = ss_pipe1 s" "ss_drained s' = ss_drained s"
  shows "piped s'"
  using assms by (simp add: piped_def flow_def)

lemma session_piped: "session_reach H d s \<Longrightarrow> piped s"
proof (induction rule: session_reach.induct)
  case (create host port e fe_type opt)
  then show ?case by (simp add: satipSession_def piped_def setWakeupFd_def Let_def)
next
  case (start d s)
  then show ?case by (simp add: session_start_def session_run_def piped_def)
next
  case (stop d s)
  have "flow (cfg (ss_rtsp s)) (wakeup (cfg (ss_rtsp s)))" by (simp add: flow_def wakeup_def)
  from piped_flow [OF stop.IH this] show ?case by (simp add: session_stop_def)
next
  case (status d s e)
  have "client_ok d (ss_rtsp s)" by (rule session_reach_ok [OF status(1)])
  then have "flow (cfg (ss_rtsp s)) (cfg (ss_rtsp (loop_status e s)))"
    using flow_ev [OF ev_handleRTSPStatus] by (simp add: client_ok_def rtsp_ok_def loop_status_def)
  from piped_flow [OF status.IH this] show ?case by (simp add: loop_status_def)
next
  case (timer d s e)
  have ok: "client_ok d (ss_rtsp s)" by (rule session_reach_ok [OF timer(1)])
  then have "flow (cfg (ss_rtsp s)) (cfg (ss_rtsp (loop_timer e s)))"
    using flow_evs [OF evs_handleNextTimer ok] by (simp add: client_ok_def loop_timer_def)
  from piped_flow [OF timer.IH this] show ?case by (simp add: loop_timer_def)
next
  case (drain d s)
  then show ?case by (simp add: loop_drain_def piped_def)
next
  case (device d s e)
  obtain v c r resp where run: "vtunerEvent H (l_now2 e) (l_get e) (ss_vtuner s, cfg (ss_rtsp s), Some (m_rtp (ss_rtsp s))) = ((v, c, r), resp)"
    by (metis prod_cases4 surj_pair)
  from piped_flow [OF device.IH flow_device [OF run]] show ?case by (simp add: loop_device_def run)
next
  case (server d s e revents s')
  have ok: "client_ok d (ss_rtsp s)" by (rule session_reach_ok [OF server(1)])
  obtain x where x: "handlePollEvents (l_now3 e) (l_frames e) (l_recv e) revents (ss_rtsp s) = Some x" "s' = s\<lparr>ss_rtsp := x\<rparr>"
    using server.hyps by (auto simp: loop_server_def elim!: bind_SomeE)
  have "flow (cfg (ss_rtsp s)) (cfg x)" using flow_evs [OF evs_handlePollEvents [OF _ x(1)] ok] ok by (simp add: client_ok_def)
  from piped_flow [OF server.IH this] show ?case by (simp add: x(2))
next
  case (receive d s de buf buf' r c)
  have "flow (cfg (ss_rtsp s)) c"
    using rtpDump_step_cfg [OF receive(2)] flow_woken [OF woken_tap] by (auto simp: flow_def)
  from piped_flow [OF receive.IH this] show ?case by simp
qed

lemma receives_woken:
  assumes "receives s s'"
  shows "woken (cfg (ss_rtsp s)) (cfg (ss_rtsp s'))" "ss_drained s' = ss_drained s"
    "session_reach H d s \<Longrightarrow> session_reach H d s'"
  using assms
proof (induction rule: receives.induct)
  case (more s1 de buf buf' r c)
  have "woken (cfg (ss_rtsp s1)) c"
    using rtpDump_step_cfg [OF more(2)] woken_tap by (auto simp: woken_def)
  then show "woken (cfg (ss_rtsp s)) (cfg (ss_rtsp (s1\<lparr>ss_rtsp := (ss_rtsp s1)\<lparr>m_satip_config := c, m_rtp := r\<rparr>\<rparr>)))"
    using woken_trans [OF more.IH(1)] by simp
  show "session_reach H d s \<Longrightarrow> session_reach H d (s1\<lparr>ss_rtsp := (ss_rtsp s1)\<lparr>m_satip_config := c, m_rtp := r\<rparr>\<rparr>)"
    by (rule session_reach.receive [OF more.IH(3) more(2)])
qed (simp_all add: woken_def)

lemma play_tells:
  assumes "client_ok d x" "m_rtsp_status x = RTSP_STATUS_SESSION_TRANSMITTING" "\<not> m_wait_response x"
    and "\<not> no_session x" "getPidStatus (cfg x) = CONFIG_STATUS_PID_CHANGED"
  shows "m_requested_pids (cfg x) \<subseteq> server_of (k_sent x)" "\<not> d \<Longrightarrow> m_requested_pids (cfg x) = server_of (k_sent x)"
    "server_of (k_sent (handleRTSPStatus now addrs True x)) = all_wanted (cfg x) \<union>
      (if chan x = CONFIG_STATUS_CHANNEL_CHANGED then {} else server_of (k_sent x) - m_requested_pids (cfg x))"
proof -
  let ?y = "handleRTSPStatus now addrs True x" and ?q = "request_text RTSP_REQUEST_PLAY (stopTimerKeepAliveMessage x)"
  have ok: "config_ok (cfg x)" "address_ok x" "asked x" "in_step d x"
    using assms(1) by (simp_all add: client_ok_def rtsp_ok_def synced_def)
  then show old: "m_requested_pids (cfg x) \<subseteq> server_of (k_sent x)" "\<not> d \<Longrightarrow> m_requested_pids (cfg x) = server_of (k_sent x)"
    using assms(4) by (simp_all add: in_step_def asked_def no_session_def)
  have y: "k_sent ?y = k_sent x @ [?q]"
    using assms(2-5)
    by (simp add: handleRTSPStatus_def sendRequest_def send_by_kind_eq no_session_def send_msg_def next_cseq_def timer_ops Let_def)
  have "config_ok (cfg (stopTimerKeepAliveMessage x))" "address_ok (stopTimerKeepAliveMessage x)"
    using ok(1,2) by (simp_all add: timer_ops address_ok_def)
  from request_query_of [OF this, of RTSP_REQUEST_PLAY]
  have "server_of (k_sent ?y) = server_pids (server_of (k_sent x)) (snd (getPlayData (cfg x)))"
    by (simp add: y timer_ops)
  then show "server_of (k_sent ?y) = all_wanted (cfg x) \<union>
      (if chan x = CONFIG_STATUS_CHANNEL_CHANGED then {} else server_of (k_sent x) - m_requested_pids (cfg x))"
    using old(1) assms(5) by (auto simp: play_server [OF ok(1)])
qed

end
