(* ===== verification/Rtsp_Response.thy ===== *)
theory Rtsp_Response
  imports Rtsp_Session
begin

text \<open>
  What the RTSP client reads from a response: a SETUP response as servers send it is read back,
  responses are handled inside the receive buffer when data does not come interleaved, and the cases
  in which the code goes wrong: a long header after the session identifier, and a response that
  is followed by interleaved data in the same receive call.
\<close>

section \<open>Searching\<close>

lemma strstr_append: "strstr u pat = Some v \<Longrightarrow> strstr (u @ x) pat = Some (v @ x)"
proof (induction u)
  case (Cons c u)
  have "length pat \<le> length (c # u)" using strstr_length [OF Cons.prems] by simp
  then have "take (length pat) ((c # u) @ x) = take (length pat) (c # u)" by (simp only: take_append) simp
  then show ?case using Cons by (auto split: if_splits)
qed (cases x; auto split: if_splits)

lemma strstr_found: "strstr (u @ pat @ v) pat \<noteq> None"
proof (induction u)
  case Nil
  have "take (length pat) (pat @ v) = pat" by simp
  then show ?case by (cases "pat @ v") (auto simp del: take_append append_eq_conv_conj)
qed auto

lemma strstr_skip2: "d \<notin> set u \<Longrightarrow> s = [] \<or> hd s \<noteq> d \<Longrightarrow> strstr (u @ s) (c # d # pat) = strstr s (c # d # pat)"
proof (induction u)
  case (Cons a u)
  have "u @ s = [] \<or> hd (u @ s) \<noteq> d" using Cons.prems by (cases u) auto
  then show ?case using Cons by (cases "u @ s") auto
qed simp

section \<open>A response in an empty buffer\<close>

text \<open>
  The response \<open>rx\<close> ends with its empty line; \<open>extra\<close> was received behind it and is left in the
  buffer.
\<close>

lemma response_loop_text:
  assumes rx: "m_rx_data s = bytes rx @ extra @ j # junk" "m_rx_data_pos s = int (length rx + length extra)"
    and plain: "CHR 0x00 \<notin> set rx" "rx \<noteq> []" "hd rx \<noteq> CHR ''$''" "strstr rx header_end = Some header_end"
    and head: "response_header now (rx @ map byte_char (takeWhile (\<lambda>b. b \<noteq> 0) extra)) res code
        (s\<lparr>m_rx_data := bytes rx @ extra @ 0 # junk\<rparr>) = Some (s1, res1, code1, True)"
    and s2: "s2 = s1\<lparr>m_rx_data := extra @ drop (length extra) (bytes rx @ extra @ 0 # junk),
        m_rx_data_pos := int (length extra), m_rtsp_request := RTSP_REQUEST_NONE\<rparr>"
  shows "response_loop now env res code s =
    (if extra = [] then Some (s2, res1) else response_loop now env res1 code1 s2)"
proof -
  let ?m = "bytes rx @ extra @ 0 # junk" and ?x = "map byte_char (takeWhile (\<lambda>b. b \<noteq> 0) extra)"
  obtain c cs where c: "rx = c # cs" using plain(2) by (cases rx) auto
  have "char_byte c \<noteq> 0x24"
  proof
    assume "char_byte c = 0x24"
    then have "c = byte_char 0x24" by (metis byte_char_byte)
    then show False using plain(3) by (simp add: c byte_char_def char_of_def bit_Suc_0_iff)
  qed
  then have b: "rd (m_rx_data s) 0 = Some (char_byte c)" "char_byte c \<noteq> 0x24"
    by (simp_all add: rx(1) c bytes_def rd_def)
  have w: "wr (m_rx_data s) (m_rx_data_pos s) 0 = Some ?m"
    by (simp add: wr_def rx list_update_append nat_add_distrib)
  have nz: "\<forall>b \<in> set (bytes rx). b \<noteq> 0" using plain(1) by (auto simp: bytes_def char_byte_zero)
  have "takeWhile (\<lambda>b. b \<noteq> 0) ?m = bytes rx @ takeWhile (\<lambda>b. b \<noteq> 0) (extra @ 0 # junk)"
    using nz by (simp add: takeWhile_append2)
  also have "takeWhile (\<lambda>b. b \<noteq> 0) (extra @ 0 # junk) = takeWhile (\<lambda>b. b \<noteq> 0) extra"
    by (induction extra) auto
  finally have "takeWhile (\<lambda>b. b \<noteq> 0) ?m = bytes rx @ takeWhile (\<lambda>b. b \<noteq> 0) extra" .
  moreover have "length (takeWhile (\<lambda>b. b \<noteq> 0) extra) \<le> length extra" by (rule length_takeWhile_le)
  ultimately have cs: "c_string ?m = Some (rx @ ?x)" by (simp add: c_string_def)
  have st: "strstr (rx @ ?x) header_end = Some (header_end @ ?x)" by (rule strstr_append [OF plain(4)])
  have used: "length (rx @ ?x) - length (header_end @ ?x) + 4 = length rx"
    using strstr_length [OF plain(4)] by (simp add: header_end_def crlf_def)
  have s1: "m_rx_data_pos s1 = int (length rx + length extra)" "m_rx_data s1 = ?m"
    using response_header_rx [OF head] rx by simp_all
  have comp: "rx_complete (length rx) s1 = Some s2"
    by (simp add: rx_complete_def move_front_def rd_range_def s1 s2 nat_add_distrib Let_def)
  have "m_rx_data_pos s2 > 0 \<longleftrightarrow> extra \<noteq> []" by (simp add: s2)
  then show ?thesis
    unfolding response_loop.simps [of now env res code s]
    using b w cs st head used comp by simp
qed

lemma handleResponse_text:
  assumes "rtsp_ok s" "m_rx_data_pos s = 0" "int (length rx + length extra) < m_rx_data_len s" "rx \<noteq> []"
  shows "\<exists>j junk. handleResponse now env (Recv (bytes rx @ extra)) s =
      response_loop now env RTSP_ERROR 0 (s\<lparr>m_rx_data := bytes rx @ extra @ j # junk,
        m_rx_data_pos := int (length rx + length extra)\<rparr>) \<and>
      length (bytes rx @ extra @ j # junk) = length (m_rx_data s)"
proof -
  have rx: "int (length (m_rx_data s)) = m_rx_data_len s" "2048 \<le> m_rx_data_len s"
    using assms(1) by (simp_all add: rtsp_ok_defs)
  then have "drop (length rx + length extra) (m_rx_data s) \<noteq> []" using assms(3) by simp
  then obtain j junk where j: "drop (length rx + length extra) (m_rx_data s) = j # junk" by (cases "drop (length rx + length extra) (m_rx_data s)") auto
  have "length (bytes rx @ extra) \<le> nat (m_rx_data_len s - 1)" using assms(3) by simp
  then have "take (nat (m_rx_data_len s - 1)) (bytes rx @ extra) = bytes rx @ extra" by simp
  moreover have "length (bytes rx @ extra @ j # junk) = length (m_rx_data s)"
    using rx assms(3) by (simp flip: j)
  ultimately show ?thesis
    using assms(2-4) j rx(2) by (intro exI [of _ j] exI [of _ junk]) (auto simp: handleResponse_def Let_def bytes_def)
qed

section \<open>The response to SETUP\<close>

definition setup_response :: "nat \<Rightarrow> string \<Rightarrow> nat \<Rightarrow> nat \<Rightarrow> nat \<Rightarrow> string" where
  "setup_response cseq sid tmo port stream =
     ''RTSP/1.0 200 OK'' @ crlf @ ''CSeq: '' @ dec_nat cseq @ crlf @
     ''Session: '' @ sid @ '';timeout='' @ dec_nat tmo @ crlf @
     ''Transport: RTP/AVP;unicast;client_port='' @ dec_nat port @ ''-'' @ dec_nat (port + 1) @ crlf @
     ''com.ses.streamID: '' @ dec_nat stream @ header_end"

definition hex_text :: "string \<Rightarrow> bool" where
  "hex_text s \<longleftrightarrow> s \<noteq> [] \<and> list_all (is_digit_of 16) s"

lemma not_in_hex: "hex_text s \<Longrightarrow> \<not> is_digit_of 16 c \<Longrightarrow> c \<notin> set s"
  by (auto simp: hex_text_def list_all_iff)

lemma hex_not_space: "hex_text s \<Longrightarrow> c \<in> set s \<Longrightarrow> \<not> isspace c"
  by (auto simp: hex_text_def list_all_iff is_digit_of_def hex_val_def isspace_def Let_def split: if_splits option.splits)

lemma not_hex_chars: "\<not> is_digit_of 16 CHR ''S''" "\<not> is_digit_of 16 CHR ''t''" "\<not> is_digit_of 16 CHR ''o''"
  "\<not> is_digit_of 16 CHR '';''" "\<not> is_digit_of 16 CHR 0x0A" "\<not> is_digit_of 16 CHR 0x0D" "\<not> is_digit_of 16 CHR 0x00"
  by (simp_all add: is_digit_of_def hex_val_def)

lemma not_digit_chars: "\<not> is_digit CHR ''S''" "\<not> is_digit CHR ''t''" "\<not> is_digit CHR ''o''" "\<not> is_digit CHR ''c''"
  "\<not> is_digit CHR 0x0D" "\<not> is_digit CHR 0x00"
  by (simp_all add: is_digit_def)

lemmas setup_skip = strstr_skip strstr_skip2 not_in_dec_nat not_digit_chars not_in_hex not_hex_chars

lemma setup_response_parts:
  assumes "hex_text sid"
  shows "strstr (setup_response cseq sid tmo port stream) header_end = Some header_end"
    "\<exists>u. strstr (setup_response cseq sid tmo port stream) ''Session'' = Some (''Session: '' @ sid @ '';timeout='' @ u)"
    "\<exists>u. strstr (setup_response cseq sid tmo port stream) ''timeout'' = Some (''timeout='' @ dec_nat tmo @ crlf @ u)"
    "strstr (setup_response cseq sid tmo port stream) ''com.ses.streamID'' = Some (''com.ses.streamID: '' @ dec_nat stream @ header_end)"
  using assms
  by (simp_all add: setup_response_def header_end_def crlf_def setup_skip)

lemma status_200: "scan_status (''RTSP/1.0 200 OK'' @ CHR 0x0D # u) code = 200"
proof -
  have "scan_d ('' 200 OK'' @ CHR 0x0D # u) = Some (200, '' OK'' @ CHR 0x0D # u)"
    by (simp add: scan_d_def skip_space_def split_sign_def isspace_def is_digit_def read_nat_def digit_val_def
        clamp64_def s32_def)
  then show ?thesis
    by (simp add: scan_status_def scan_text_def scan_word_def skip_space_def isspace_def)
qed

lemma strtol_field:
  assumes "0 < n" "n < 2 ^ 31"
  shows "s32 (strtol 0 (dec_nat n @ CHR 0x0D # u)) = int n" "s32 (strtol 0 (CHR '' '' # dec_nat n @ CHR 0x0D # u)) = int n"
proof -
  have "strtol 0 (dec_nat n @ CHR 0x0D # u) = int n"
    using assms by (intro strtol_0_dec_nat) (simp_all add: not_digit_chars)
  moreover have "strtol 0 (CHR '' '' # v) = strtol 0 v" for v
    by (simp add: strtol_def skip_space_def isspace_def)
  ultimately show "s32 (strtol 0 (dec_nat n @ CHR 0x0D # u)) = int n" "s32 (strtol 0 (CHR '' '' # dec_nat n @ CHR 0x0D # u)) = int n"
    using assms(2) by (simp_all add: s32_id)
qed

lemma session_text_hex:
  assumes "hex_text sid"
  shows "skip_space (CHR '' '' # sid @ u) = sid @ u" "session_text (sid @ CHR '';'' # u) = sid"
proof -
  obtain c cs where c: "sid = c # cs" using assms by (cases sid) (auto simp: hex_text_def)
  then show "skip_space (CHR '' '' # sid @ u) = sid @ u"
    using hex_not_space [OF assms, of c] by (simp add: skip_space_def isspace_def)
  have "\<forall>c \<in> set sid. c \<notin> {CHR '';'', CHR 0x0A}"
    using assms not_hex_chars by (auto simp: hex_text_def list_all_iff)
  then have "upto_any {CHR '';'', CHR 0x0A} (sid @ CHR '';'' # u) = sid"
    unfolding upto_any_def using takeWhile_stop [of sid "\<lambda>c. c \<notin> {CHR '';'', CHR 0x0A}" "CHR '';'' # u"] by simp
  moreover have "dropWhile isspace (rev sid) = rev sid"
    using hex_not_space [OF assms] by (cases "rev sid") (auto simp: rev_eq_Cons_iff)
  ultimately show "session_text (sid @ CHR '';'' # u) = sid" by (simp add: session_text_def)
qed

lemma setup_response_handled:
  assumes "hex_text sid" "0 < tmo" "tmo < 2 ^ 31" "0 < stream" "stream < 2 ^ 31"
    "length (setup_response cseq sid tmo port stream) < 1024"
  shows "handleResponseSetup (setup_response cseq sid tmo port stream) s =
    Some (s\<lparr>m_rtsp_session_id := sid, m_rtsp_timeout := int tmo, m_rtsp_stream_id := int stream\<rparr>, RTSP_RESPONSE_COMPLETE)"
proof -
  let ?rx = "setup_response cseq sid tmo port stream"
  note parts = setup_response_parts [OF assms(1), of cseq tmo port stream]
  obtain u where u: "strstr ?rx ''Session'' = Some (''Session: '' @ sid @ '';timeout='' @ u)" using parts(2) by blast
  obtain v where v: "strstr ?rx ''timeout'' = Some (''timeout='' @ dec_nat tmo @ crlf @ v)" using parts(3) by blast
  have "length (''Session: '' @ sid @ '';timeout='' @ u) < 1024" using strstr_length [OF u] assms(6) by linarith
  then have len: "length (sid @ '';timeout='' @ u) < 1024" by simp
  have "response_timeout ?rx s' = s'\<lparr>m_rtsp_timeout := int tmo\<rparr>" for s'
    using strtol_field(1) [OF assms(2,3)] by (simp add: response_timeout_def v crlf_def)
  then show ?thesis
    using len parts(4) strtol_field(2) [OF assms(4,5)] session_text_hex [OF assms(1)]
    by (simp add: handleResponseSetup_def u Let_def header_end_def crlf_def)
qed

text \<open>
  A response that is all of the text received, with the empty line at its end, and whose handler is
  content: it is removed from the buffer and the client stops waiting.
\<close>

lemma response_run:
  assumes "rtsp_ok s" "m_rx_data_pos s = 0" "m_rtsp_request s \<noteq> RTSP_REQUEST_DESCRIBE"
    and plain: "CHR 0x00 \<notin> set rx" "hd rx \<noteq> CHR ''$''" "strstr rx header_end = Some header_end"
    and len: "int (length rx) < m_rx_data_len s"
    and ok: "scan_status rx 0 = 200" "\<And>s0. m_rtsp_request s0 = m_rtsp_request s \<Longrightarrow>
      response_by_kind rx RTSP_ERROR s0 = Some (f s0, RTSP_RESPONSE_COMPLETE)"
  obtains m j junk where "m = bytes rx @ j # junk" "length m = length (m_rx_data s)"
    "handleResponse now env (Recv (bytes rx)) s =
       Some ((stopTimerResetConnect (f (s\<lparr>m_rx_data_pos := int (length rx), m_rx_data := bytes rx @ 0 # junk,
           m_wait_response := False\<rparr>)))\<lparr>m_rx_data := bytes rx @ 0 # junk, m_rx_data_pos := 0,
           m_rtsp_request := RTSP_REQUEST_NONE\<rparr>, RTSP_RESPONSE_COMPLETE)"
proof -
  have rx: "rx \<noteq> []" using plain(3) by (auto simp: header_end_def crlf_def)
  obtain j junk where j: "handleResponse now env (Recv (bytes rx)) s =
      response_loop now env RTSP_ERROR 0 (s\<lparr>m_rx_data := bytes rx @ j # junk, m_rx_data_pos := int (length rx)\<rparr>)"
    "length (bytes rx @ j # junk) = length (m_rx_data s)"
    using handleResponse_text [OF assms(1,2), of rx "[]" now env] len rx by auto
  let ?s = "s\<lparr>m_rx_data := bytes rx @ j # junk, m_rx_data_pos := int (length rx)\<rparr>"
  let ?sm = "?s\<lparr>m_rx_data := bytes rx @ 0 # junk\<rparr>"
  let ?s1 = "stopTimerResetConnect (f (?sm\<lparr>m_wait_response := False\<rparr>))"
  have "response_header now rx RTSP_ERROR 0 ?sm = Some (?s1, RTSP_RESPONSE_COMPLETE, 200, True)"
    using ok(2) [of "?sm\<lparr>m_wait_response := False\<rparr>"] by (simp add: response_header_def Let_def assms(3) ok(1))
  then have "response_loop now env RTSP_ERROR 0 ?s = Some (?s1\<lparr>m_rx_data := bytes rx @ 0 # junk, m_rx_data_pos := 0,
      m_rtsp_request := RTSP_REQUEST_NONE\<rparr>, RTSP_RESPONSE_COMPLETE)"
    using response_loop_text [of ?s rx "[]" j junk, OF _ _ plain(1) rx plain(2,3)] by simp
  then show thesis using j by (intro that [of "bytes rx @ j # junk" j junk]) simp_all
qed

lemma setup_response_text:
  assumes "hex_text sid"
  shows "CHR 0x00 \<notin> set (setup_response cseq sid tmo port stream)" "hd (setup_response cseq sid tmo port stream) \<noteq> CHR ''$''"
    "scan_status (setup_response cseq sid tmo port stream) 0 = 200"
  using not_in_dec_nat [OF not_digit_chars(6)] not_in_hex [OF assms not_hex_chars(7)]
  by (simp_all add: setup_response_def status_200 [simplified] crlf_def header_end_def)

text \<open>The client's state after the response to SETUP.\<close>

lemma setup_response_run:
  assumes "rtsp_ok s" "m_rtsp_status s = RTSP_STATUS_SESSION_ESTABLISHING" "m_rtsp_request s = RTSP_REQUEST_SETUP"
    and "m_rx_data_pos s = 0"
    and "hex_text sid" "0 < tmo" "tmo < 2 ^ 31" "0 < stream" "stream < 2 ^ 31"
    and "length (setup_response cseq sid tmo port stream) < 1024"
  obtains d where "handlePollEvents now env (Recv (bytes (setup_response cseq sid tmo port stream))) {POLLIN} s =
    Some ((stopTimerResetConnect s)\<lparr>m_rtsp_session_id := sid, m_rtsp_timeout := int tmo, m_rtsp_stream_id := int stream,
      m_rx_data := d, m_rx_data_pos := 0, m_wait_response := False, m_rtsp_request := RTSP_REQUEST_NONE,
      m_rtsp_status := RTSP_STATUS_SESSION_PLAYING\<rparr>)"
proof -
  let ?rx = "setup_response cseq sid tmo port stream"
  let ?f = "\<lambda>s. s\<lparr>m_rtsp_session_id := sid, m_rtsp_timeout := int tmo, m_rtsp_stream_id := int stream\<rparr>"
  have len: "int (length ?rx) < m_rx_data_len s" using assms(1,10) by (simp add: rtsp_ok_defs)
  have kind: "m_rtsp_request s0 = m_rtsp_request s \<Longrightarrow> response_by_kind ?rx RTSP_ERROR s0 = Some (?f s0, RTSP_RESPONSE_COMPLETE)" for s0
    by (simp add: response_by_kind_def assms(3) setup_response_handled [OF assms(5-10)])
  have req: "m_rtsp_request s \<noteq> RTSP_REQUEST_DESCRIBE" by (simp add: assms(3))
  note t = setup_response_text [OF assms(5), of cseq tmo port stream]
  obtain m j junk where h: "handleResponse now env (Recv (bytes ?rx)) s =
       Some ((stopTimerResetConnect (?f (s\<lparr>m_rx_data_pos := int (length ?rx), m_rx_data := bytes ?rx @ 0 # junk,
           m_wait_response := False\<rparr>)))\<lparr>m_rx_data := bytes ?rx @ 0 # junk, m_rx_data_pos := 0,
           m_rtsp_request := RTSP_REQUEST_NONE\<rparr>, RTSP_RESPONSE_COMPLETE)"
    by (rule response_run [OF assms(1,4) req t(1,2) setup_response_parts(1) [OF assms(5)] len t(3) kind])
  have same: "(stopTimerResetConnect (?f (s\<lparr>m_rx_data_pos := n, m_rx_data := d, m_wait_response := False\<rparr>)))
      \<lparr>m_rx_data := d, m_rx_data_pos := 0, m_rtsp_request := RTSP_REQUEST_NONE, m_rtsp_status := st\<rparr> =
    (stopTimerResetConnect s)\<lparr>m_rtsp_session_id := sid, m_rtsp_timeout := int tmo, m_rtsp_stream_id := int stream,
      m_rx_data := d, m_rx_data_pos := 0, m_wait_response := False, m_rtsp_request := RTSP_REQUEST_NONE, m_rtsp_status := st\<rparr>" for d n st
    by (cases s) (simp add: stopTimerResetConnect_def with_timer_def)
  show thesis
    by (rule that [of "bytes ?rx @ 0 # junk"]) (simp add: handlePollEvents_def assms(2) h same)
qed

text \<open>
  C31. The response to SETUP as servers send it, with a hexadecimal session identifier, a timeout and
  a stream number, is read back exactly: the client moves on to PLAYING with these values, the
  request is answered, the watchdog is stopped and the receive buffer is empty again.
\<close>

theorem setup_response_read:
  assumes "rtsp_ok s" "m_rtsp_status s = RTSP_STATUS_SESSION_ESTABLISHING" "m_rtsp_request s = RTSP_REQUEST_SETUP"
    and "m_rx_data_pos s = 0"
    and "hex_text sid" "0 < tmo" "tmo < 2 ^ 31" "0 < stream" "stream < 2 ^ 31"
    and "length (setup_response cseq sid tmo port stream) < 1024"
  shows "\<exists>s'. handlePollEvents now env (Recv (bytes (setup_response cseq sid tmo port stream))) {POLLIN} s = Some s' \<and>
    m_rtsp_status s' = RTSP_STATUS_SESSION_PLAYING \<and> m_rtsp_session_id s' = sid \<and> m_rtsp_stream_id s' = int stream \<and>
    m_rtsp_timeout s' = int tmo \<and> \<not> m_wait_response s' \<and> m_rtsp_request s' = RTSP_REQUEST_NONE \<and>
    \<not> timer_active T_RESET s' \<and> m_rx_data_pos s' = 0"
proof -
  have "length (m_timer_list s) = 3" using assms(1) by (simp add: rtsp_ok_def)
  then show ?thesis
    by (rule_tac setup_response_run [OF assms, of now env]) (simp add: timer_ops)
qed

text \<open>Any response of status 200 will do for PLAY, OPTIONS and TEARDOWN.\<close>

definition ok_response :: "string \<Rightarrow> bool" where
  "ok_response rx \<longleftrightarrow> take 16 rx = ''RTSP/1.0 200 OK'' @ [CHR 0x0D] \<and> CHR 0x00 \<notin> set rx \<and>
     strstr rx header_end = Some header_end \<and> length rx < 2048"

lemma ok_response_text:
  assumes "ok_response rx"
  shows "CHR 0x00 \<notin> set rx" "hd rx \<noteq> CHR ''$''" "strstr rx header_end = Some header_end" "scan_status rx 0 = 200"
    "length rx < 2048"
proof -
  have split: "rx = ''RTSP/1.0 200 OK'' @ CHR 0x0D # drop 16 rx"
    using assms append_take_drop_id [of 16 rx] by (simp add: ok_response_def)
  show "hd rx \<noteq> CHR ''$''" by (subst split) simp
  show "scan_status rx 0 = 200" by (subst split) (rule status_200)
qed (use assms in \<open>simp_all add: ok_response_def\<close>)

lemma ok_response_run:
  assumes "rtsp_ok s" "m_rx_data_pos s = 0" "ok_response rx"
    and "m_rtsp_request s = RTSP_REQUEST_PLAY \<or> m_rtsp_request s = RTSP_REQUEST_TEARDOWN \<or> m_rtsp_request s = RTSP_REQUEST_OPTION"
  obtains d where "handleResponse now env (Recv (bytes rx)) s =
    Some ((stopTimerResetConnect s)\<lparr>m_rx_data := d, m_rx_data_pos := 0, m_wait_response := False,
      m_rtsp_request := RTSP_REQUEST_NONE\<rparr>, RTSP_RESPONSE_COMPLETE)"
proof -
  note rx = ok_response_text [OF assms(3)]
  have len: "int (length rx) < m_rx_data_len s" using rtsp_ok_buffer(4) [OF assms(1)] rx(5) by simp
  have kind: "m_rtsp_request s0 = m_rtsp_request s \<Longrightarrow> response_by_kind rx RTSP_ERROR s0 = Some (id s0, RTSP_RESPONSE_COMPLETE)" for s0
    using assms(4) by (auto simp: response_by_kind_def handleResponsePlay_def handleResponseTeardown_def handleResponseOption_def)
  have req: "m_rtsp_request s \<noteq> RTSP_REQUEST_DESCRIBE" using assms(4) by auto
  obtain m j junk where h: "handleResponse now env (Recv (bytes rx)) s =
       Some ((stopTimerResetConnect (id (s\<lparr>m_rx_data_pos := int (length rx), m_rx_data := bytes rx @ 0 # junk,
           m_wait_response := False\<rparr>)))\<lparr>m_rx_data := bytes rx @ 0 # junk, m_rx_data_pos := 0,
           m_rtsp_request := RTSP_REQUEST_NONE\<rparr>, RTSP_RESPONSE_COMPLETE)"
    by (rule response_run [OF assms(1,2) req rx(1-3) len rx(4) kind])
  have same: "(stopTimerResetConnect (id (s\<lparr>m_rx_data_pos := n, m_rx_data := d, m_wait_response := False\<rparr>)))
      \<lparr>m_rx_data := d, m_rx_data_pos := 0, m_rtsp_request := RTSP_REQUEST_NONE\<rparr> =
    (stopTimerResetConnect s)\<lparr>m_rx_data := d, m_rx_data_pos := 0, m_wait_response := False,
      m_rtsp_request := RTSP_REQUEST_NONE\<rparr>" for d n
    by (cases s) (simp add: stopTimerResetConnect_def with_timer_def)
  show thesis by (rule that [OF h [unfolded same]])
qed

text \<open>A client that awaits a response in a given state.\<close>

definition awaiting :: "rtsp_status \<Rightarrow> rtsp_request \<Rightarrow> rtsp \<Rightarrow> rtsp" where
  "awaiting st rq s = startTimerResetConnect \<lparr>tv_sec = 0, tv_nsec = 0\<rparr> 4000
     (s\<lparr>m_fd := 7, k_open := [7], m_rtsp_status := st, m_wait_response := True, m_rtsp_request := rq\<rparr>)"

lemma awaiting_ok:
  assumes "rtsp_ok s" "m_rtsp_status s = RTSP_STATUS_CONFIG_WAITING" "rq \<noteq> RTSP_REQUEST_NONE" "chan s = CONFIG_STATUS_CHANNEL_INVALID"
    "st \<noteq> RTSP_STATUS_CONFIG_WAITING" "st \<noteq> RTSP_STATUS_SERVER_CONNECTING" "\<not> timer_active T_RECONNECT s"
  shows "rtsp_ok (awaiting st rq s)"
  using assms by (auto simp: awaiting_def rtsp_ok_defs timer_ops)

lemma awaiting_fields [simp]:
  "m_rtsp_status (awaiting st rq s) = st" "m_rtsp_request (awaiting st rq s) = rq"
  "m_rx_data_pos (awaiting st rq s) = m_rx_data_pos s" "m_satip_config (awaiting st rq s) = m_satip_config s"
  by (simp_all add: awaiting_def timer_ops)

lemma sample_fields:
  "m_rtsp_status sample_rtsp = RTSP_STATUS_CONFIG_WAITING" "m_rx_data_pos sample_rtsp = 0"
  "chan sample_rtsp = CONFIG_STATUS_CHANNEL_INVALID" "m_settings (m_satip_config sample_rtsp) = m_settings blank_config"
  "\<not> timer_active T_RECONNECT sample_rtsp"
proof -
  have "m_settings (fold setCaPids reps c) = m_settings c" for reps c
    by (induction reps arbitrary: c) (simp_all add: setCaPids_def wakeup_def)
  then have "m_settings (satipConfig raw fe o0) = o0" for raw fe o0
    by (simp add: satipConfig_def Let_def clearProperty_def clearPidList_def run_psi_def)
  then show "m_rtsp_status sample_rtsp = RTSP_STATUS_CONFIG_WAITING" "m_rx_data_pos sample_rtsp = 0"
    "chan sample_rtsp = CONFIG_STATUS_CHANNEL_INVALID" "m_settings (m_satip_config sample_rtsp) = m_settings blank_config"
    "\<not> timer_active T_RECONNECT sample_rtsp"
    by (simp_all add: sample_rtsp_def satipRTSP_def Let_def resetConnect_def close_fd_def timer_ops resetReconnectBackoff_def
        satipConfig_status timer_create_def)
qed

lemma sample_awaiting_ok:
  "rq \<noteq> RTSP_REQUEST_NONE \<Longrightarrow> st \<noteq> RTSP_STATUS_CONFIG_WAITING \<Longrightarrow> st \<noteq> RTSP_STATUS_SERVER_CONNECTING \<Longrightarrow>
   rtsp_ok (awaiting st rq sample_rtsp)"
  by (intro awaiting_ok reach_ok [OF sample_reach]) (simp_all add: sample_fields)

theorem setup_response_read_witness:
  "\<exists>s'. handlePollEvents \<lparr>tv_sec = 1, tv_nsec = 0\<rparr> undefined (Recv (bytes (setup_response 1 ''21a15c02'' 60 1400 5))) {POLLIN}
      (awaiting RTSP_STATUS_SESSION_ESTABLISHING RTSP_REQUEST_SETUP sample_rtsp) = Some s' \<and>
    m_rtsp_session_id s' = ''21a15c02'' \<and> m_rtsp_timeout s' = 60"
proof -
  have "hex_text ''21a15c02''" by (simp add: hex_text_def is_digit_of_def hex_val_def)
  moreover have "length (setup_response 1 ''21a15c02'' 60 1400 5) < 1024"
    by (simp add: setup_response_def crlf_def header_end_def dec_nat_def digits.simps)
  ultimately show ?thesis
    using setup_response_read [OF sample_awaiting_ok, of RTSP_REQUEST_SETUP RTSP_STATUS_SESSION_ESTABLISHING "''21a15c02''" 60 5 1 1400
        "\<lparr>tv_sec = 1, tv_nsec = 0\<rparr>" undefined] by (auto simp: sample_fields)
qed

section \<open>Staying inside the buffer\<close>

lemma response_header_total:
  assumes "length rx < 1024 \<or> m_rtsp_request s \<noteq> RTSP_REQUEST_SETUP"
  shows "\<exists>s1 res1 code1 go. response_header now rx res code s = Some (s1, res1, code1, go)"
proof -
  have "length (skip_space (tl p)) < 1024"
    if short: "length rx < 1024" and found: "Option.bind (strstr rx ''Session'') (\<lambda>p. strchr p CHR '':'') = Some p" for p
  proof -
    obtain q where "strstr rx ''Session'' = Some q" "strchr q CHR '':'' = Some p" using found by (auto elim: bind_SomeE)
    then have "length p \<le> length rx" using strstr_length [of rx "''Session''" q] strchr_suffix [of q "CHR '':''" p] by auto
    then show ?thesis
      using short length_dropWhile_le [of isspace "tl p"] by (auto simp: skip_space_def)
  qed
  then have "response_by_kind rx res (s\<lparr>m_wait_response := False\<rparr>) \<noteq> None"
    using assms
    by (auto simp: response_by_kind_def handleResponseSetup_def Let_def not_le split: rtsp_request.split option.split)
  then show ?thesis
    by (auto simp: response_header_def Let_def handleResponseDescribe_def)
qed

lemma rx_complete_total:
  assumes "n \<le> nat (m_rx_data_pos s)" "0 \<le> m_rx_data_pos s" "m_rx_data_pos s < int (length (m_rx_data s))"
  shows "\<exists>d. rx_complete n s = Some (s\<lparr>m_rx_data := d, m_rx_data_pos := int (nat (m_rx_data_pos s) - n),
      m_rtsp_request := RTSP_REQUEST_NONE\<rparr>) \<and> length d = length (m_rx_data s)"
  using assms by (auto simp: rx_complete_def move_front_def rd_range_def Let_def)

lemma response_loop_udp:
  "rtsp_ok s \<Longrightarrow> 0 \<le> m_rx_data_pos s \<Longrightarrow> live s \<Longrightarrow> \<not> isTcpData (m_satip_config s) \<Longrightarrow>
   m_rx_data_pos s < 1024 \<or> m_rtsp_request s \<noteq> RTSP_REQUEST_SETUP \<Longrightarrow> response_loop now env res code s \<noteq> None"
proof (induction "nat (m_rx_data_pos s)" arbitrary: res code s rule: less_induct)
  case less
  have rx: "0 \<le> m_rx_data_pos s" "m_rx_data_pos s < int (length (m_rx_data s))" "length (m_rx_data s) > 0"
    using rtsp_ok_buffer [OF less.prems(1)] less.prems(2) by auto
  define m where "m = (m_rx_data s)[nat (m_rx_data_pos s) := 0]"
  have w: "wr (m_rx_data s) (m_rx_data_pos s) 0 = Some m" using rx by (simp add: wr_def m_def)
  have "nat (m_rx_data_pos s) < length m" "m ! nat (m_rx_data_pos s) = 0" using rx by (simp_all add: m_def)
  then obtain t where t: "c_string m = Some t" "length t \<le> nat (m_rx_data_pos s)" using c_string_terminated by blast
  have step: ?case if "m_rx_data s ! 0 \<noteq> 0x24" "strstr t header_end = Some p" for p
  proof -
    let ?s = "s\<lparr>m_rx_data := m\<rparr>"
    have ok: "rtsp_ok ?s" "live ?s" using less.prems(1,3) by (simp_all add: rtsp_ok_defs live_def m_def)
    have "length t < 1024 \<or> m_rtsp_request ?s \<noteq> RTSP_REQUEST_SETUP" using less.prems(5) t(2) by auto
    then obtain s1 res1 code1 go where h: "response_header now t res code ?s = Some (s1, res1, code1, go)"
      using response_header_total by blast
    show ?thesis
    proof (cases go)
      case False
      then show ?thesis
        unfolding response_loop.simps [of now env res code s] using that rx w t h by (simp add: rd_def)
    next
      case True
      then have h': "response_header now t res code ?s = Some (s1, res1, code1, True)" using h by simp
      note hok = response_header_ok [OF ok h', simplified]
      have s1: "m_rx_data_pos s1 = m_rx_data_pos s" "m_rx_data s1 = m" using response_header_rx [OF h'] by simp_all
      let ?n = "length t - length p + 4"
      have n: "?n \<le> nat (m_rx_data_pos s1)" using rx_text_bounds [OF w t(1) that(2)] s1 by simp
      obtain d where d: "rx_complete ?n s1 = Some (s1\<lparr>m_rx_data := d, m_rx_data_pos := int (nat (m_rx_data_pos s1) - ?n),
          m_rtsp_request := RTSP_REQUEST_NONE\<rparr>)" "length d = length (m_rx_data s1)"
        using rx_complete_total [OF n] rx s1 by (auto simp: m_def)
      let ?s2 = "s1\<lparr>m_rx_data := d, m_rx_data_pos := int (nat (m_rx_data_pos s1) - ?n), m_rtsp_request := RTSP_REQUEST_NONE\<rparr>"
      have "rtsp_ok ((s1\<lparr>m_rtsp_request := RTSP_REQUEST_NONE\<rparr>)\<lparr>m_rx_data := d, m_rx_data_pos := int (nat (m_rx_data_pos s1) - ?n)\<rparr>)"
        using hok d(2) rx s1 by (intro rx_update_ok) auto
      moreover have "(s1\<lparr>m_rtsp_request := RTSP_REQUEST_NONE\<rparr>)\<lparr>m_rx_data := d, m_rx_data_pos := int (nat (m_rx_data_pos s1) - ?n)\<rparr> = ?s2"
        by (cases s1) simp
      ultimately have ok2: "rtsp_ok ?s2" by simp
      have "live ?s2" "\<not> isTcpData (m_satip_config ?s2)"
        using hok less.prems(3,4) by (simp_all add: header_frame_def live_def)
      moreover have "m_rx_data_pos ?s2 < m_rx_data_pos s" if "m_rx_data_pos ?s2 > 0"
        using rx_complete_less [OF w t(1) \<open>strstr t header_end = Some p\<close> h' d(1) that] .
      ultimately have "response_loop now env res1 code1 ?s2 \<noteq> None" if "m_rx_data_pos ?s2 > 0"
        using that ok2 by (intro less.hyps) (simp_all del: of_nat_diff, linarith?)
      then show ?thesis
        unfolding response_loop.simps [of now env res code s] using that rx w t h' d(1) by (auto simp: rd_def)
    qed
  qed
  show ?case
  proof (cases "m_rx_data s ! 0 = 0x24 \<or> strstr t header_end = None")
    case True
    then show ?thesis
      unfolding response_loop.simps [of now env res code s] using rx w t less.prems(4) by (auto simp: rd_def)
  qed (use step in auto)
qed

definition received :: "recv_res \<Rightarrow> nat" where
  "received rcv = (case rcv of Recv d \<Rightarrow> length d | _ \<Rightarrow> 0)"

text \<open>
  C32. With the stream received over UDP, the connection past being established, and the client's invariant with the
  receive position inside the buffer, handling a
  response ends without an access outside the receive buffer, whatever the server sends and however
  responses are cut into pieces or glued together, and keeps the invariant and the position inside
  the buffer, under two conditions: \<^verbatim>\<open>recv\<close> gives data or the end of the stream, or fails with something
  already in the buffer; and while a SETUP response is awaited, what is in the buffer and what
  is received are together shorter than 1024 bytes.
\<close>

theorem handleResponse_udp_safe:
  assumes "rtsp_ok s" "live s" "\<not> isTcpData (m_satip_config s)" "0 \<le> m_rx_data_pos s"
    and "(\<exists>d. rcv = Recv d) \<or> 0 < m_rx_data_pos s"
    and "m_rtsp_request s = RTSP_REQUEST_SETUP \<longrightarrow> m_rx_data_pos s + int (received rcv) < 1024"
  shows "\<exists>s' res. handleResponse now env rcv s = Some (s', res) \<and> rtsp_ok s' \<and> 0 \<le> m_rx_data_pos s'"
proof -
  let ?len = "m_rx_data_len s - m_rx_data_pos s - 1"
  have rx: "int (length (m_rx_data s)) = m_rx_data_len s" "m_rx_data_pos s < m_rx_data_len s"
    using assms(1) by (simp_all add: rtsp_ok_defs)
  have loop: "response_loop now env RTSP_ERROR 0 (s\<lparr>m_rx_data := m, m_rx_data_pos := p\<rparr>) \<noteq> None"
    if "length m = length (m_rx_data s)" "0 \<le> p" "p < m_rx_data_len s" "p \<le> m_rx_data_pos s + int (received rcv)" for m p
  proof -
    have "rtsp_ok (s\<lparr>m_rx_data := m, m_rx_data_pos := p\<rparr>)" using assms(1,2) that rx by (simp add: rtsp_ok_defs live_def)
    then show ?thesis using assms(2,3,6) that by (intro response_loop_udp) (auto simp: live_def)
  qed
  have "handleResponse now env rcv s \<noteq> None"
  proof (cases "\<exists>d. rcv = Recv d")
    case True
    then obtain d0 where d0: "rcv = Recv d0" by blast
    let ?d = "take (nat ?len) d0" and ?p = "nat (m_rx_data_pos s)"
    have n: "int (length ?d) \<le> ?len" using rx by simp
    then have "length (take ?p (m_rx_data s) @ ?d @ drop (?p + length ?d) (m_rx_data s)) = length (m_rx_data s)"
      using rx assms(4) by simp
    then have "response_loop now env RTSP_ERROR 0 (s\<lparr>m_rx_data := take ?p (m_rx_data s) @ ?d @ drop (?p + length ?d) (m_rx_data s),
        m_rx_data_pos := m_rx_data_pos s + int (length ?d)\<rparr>) \<noteq> None"
      using n assms(4) by (intro loop) (simp_all add: received_def d0)
    then show ?thesis using rx assms(4) by (auto simp: handleResponse_def Let_def d0)
  next
    case False
    then have "response_loop now env RTSP_ERROR 0 (s\<lparr>m_rx_data := m_rx_data s, m_rx_data_pos := m_rx_data_pos s - 1\<rparr>) \<noteq> None"
      using assms(5) rx by (intro loop) (auto simp: received_def)
    then show ?thesis using rx assms(4) False by (cases rcv) (auto simp: handleResponse_def Let_def)
  qed
  then obtain s' res where h: "handleResponse now env rcv s = Some (s', res)" by (cases "handleResponse now env rcv s") auto
  then show ?thesis
    using handleResponse_ok [OF assms(1,2) h] handleResponse_pos [OF assms(4,5) h] by (auto simp: handled_def)
qed

theorem handleResponse_udp_safe_witness:
  "\<exists>s' res. handleResponse \<lparr>tv_sec = 1, tv_nsec = 0\<rparr> undefined (Recv (replicate 5000 0x41))
     (awaiting RTSP_STATUS_SESSION_PLAYING RTSP_REQUEST_PLAY sample_rtsp) = Some (s', res) \<and> rtsp_ok s' \<and> 0 \<le> m_rx_data_pos s'"
  by (rule handleResponse_udp_safe)
    (simp_all add: sample_awaiting_ok live_def isTcpData_def sample_fields blank_config_def)

section \<open>Where the code goes wrong\<close>

text \<open>
  C33. The header behind the session identifier is copied into a local array of 1024 characters
  without a check: a SETUP response with 1024 or more characters from there to the end of the
  received text overflows the array.
\<close>

theorem setup_session_overflow:
  assumes "rtsp_ok s" "m_rtsp_request s = RTSP_REQUEST_SETUP" "m_rx_data_pos s = 0"
    and "CHR 0x00 \<notin> set long" "1024 \<le> length (c # long)" "\<not> isspace c" "c \<noteq> CHR 0x00"
    and "rx = ''RTSP/1.0 200 OK'' @ crlf @ ''Session: '' @ c # long @ header_end" "int (length rx) < m_rx_data_len s"
  shows "handleResponse now env (Recv (bytes rx)) s = None"
proof -
  have rx: "rx \<noteq> []" "hd rx \<noteq> CHR ''$''" "CHR 0x00 \<notin> set rx"
    using assms(4,7) by (simp_all add: assms(8) crlf_def header_end_def)
  obtain j junk where j: "handleResponse now env (Recv (bytes rx)) s =
      response_loop now env RTSP_ERROR 0 (s\<lparr>m_rx_data := bytes rx @ j # junk, m_rx_data_pos := int (length rx)\<rparr>)"
    using handleResponse_text [OF assms(1,3) _ rx(1), of "[]" now env] assms(9) by auto
  let ?s = "s\<lparr>m_rx_data := bytes rx @ j # junk, m_rx_data_pos := int (length rx)\<rparr>"
  have w: "wr (m_rx_data ?s) (m_rx_data_pos ?s) 0 = Some (bytes rx @ 0 # junk)"
    by (simp add: wr_def list_update_append)
  have cs: "c_string (bytes rx @ 0 # junk) = Some rx" by (rule c_string_text [OF rx(3)])
  have "rx = (''RTSP/1.0 200 OK'' @ crlf @ ''Session: '' @ c # long) @ header_end @ []"
    unfolding assms(8) by simp
  then have "strstr rx header_end \<noteq> None" using strstr_found by metis
  then obtain p where p: "strstr rx header_end = Some p" by blast
  have "strstr rx ''Session'' = Some (''Session: '' @ c # long @ header_end)"
    by (simp add: assms(8) crlf_def)
  moreover have "skip_space (CHR '' '' # c # long @ header_end) = c # long @ header_end"
    using assms(6) by (simp add: skip_space_def isspace_def)
  moreover have "scan_status rx 0 = 200" using status_200 by (simp add: assms(8) crlf_def)
  ultimately have "response_header now rx RTSP_ERROR 0 (?s\<lparr>m_rx_data := bytes rx @ 0 # junk\<rparr>) = None"
    using assms(2,5) by (simp add: response_header_def response_by_kind_def handleResponseSetup_def Let_def)
  moreover have "rd (m_rx_data ?s) 0 = Some (char_byte CHR ''R'')" "char_byte CHR ''R'' \<noteq> 0x24"
    by (simp_all add: assms(8) bytes_def rd_def char_byte_def)
  ultimately show ?thesis
    unfolding j response_loop.simps [of now env RTSP_ERROR 0 ?s] using w cs p by simp
qed

theorem setup_session_overflow_witness:
  "handleResponse \<lparr>tv_sec = 1, tv_nsec = 0\<rparr> undefined
     (Recv (bytes (''RTSP/1.0 200 OK'' @ crlf @ ''Session: '' @ CHR ''1'' # replicate 1100 CHR ''2'' @ header_end)))
     (awaiting RTSP_STATUS_SESSION_ESTABLISHING RTSP_REQUEST_SETUP sample_rtsp) = None"
proof -
  have "rtsp_ok (awaiting RTSP_STATUS_SESSION_ESTABLISHING RTSP_REQUEST_SETUP sample_rtsp)" by (simp add: sample_awaiting_ok)
  then show ?thesis
    by (intro setup_session_overflow [where c = "CHR ''1''" and long = "replicate 1100 CHR ''2''", OF _ _ _ _ _ _ _ refl])
      (simp_all add: sample_fields isspace_def crlf_def header_end_def rtsp_ok_defs)
qed

lemma response_loop_interleaved:
  assumes "isTcpData (m_satip_config s)" "m_rx_data s = 0x24 # m" "m_rx_data_pos s < 4"
  shows "response_loop now env res code s = Some (s, RTSP_OK)"
  using assms by (simp add: response_loop.simps [of now env res code s] rd_def)

text \<open>
  C35. When data comes interleaved in the RTSP connection, a response that is followed in the same
  receive call by the first bytes of a data frame, at most its \<^verbatim>\<open>$\<close> and two more, is consumed, but
  reported as incomplete: the client stays in the state it was in. For the plain response to an outstanding TEARDOWN,
  received with the buffer empty, this means that the client
  does not end the connection by itself: no timer runs, the status call and the timer dispatch change
  nothing, and the end of the stream is ignored. Only what arrives on the connection can end
  the state: further data, or an error event of \<^verbatim>\<open>poll\<close>, which resets the connection.
\<close>

theorem teardown_response_lost:
  assumes "rtsp_ok s" "m_rtsp_status s = RTSP_STATUS_SESSION_TEARDOWNING" "m_rtsp_request s = RTSP_REQUEST_TEARDOWN"
    and "isTcpData (m_satip_config s)" "m_rx_data_pos s = 0" "length tail < 3"
  shows "\<exists>s'. handlePollEvents now env (Recv (bytes (''RTSP/1.0 200 OK'' @ header_end) @ 0x24 # tail)) {POLLIN} s = Some s' \<and>
    m_rtsp_status s' = RTSP_STATUS_SESSION_TEARDOWNING \<and> \<not> m_wait_response s' \<and> m_fd s' \<noteq> -1 \<and>
    (\<forall>i < 3. \<not> timer_active i s') \<and>
    handleRTSPStatus now' addrs ok s' = s' \<and> handleNextTimer now' ok s' = s' \<and>
    handlePollEvents now' env' (Recv []) {POLLIN} s' = Some s' \<and>
    (POLLHUP \<in> events \<or> POLLERR \<in> events \<or> POLLNVAL \<in> events \<longrightarrow>
       (\<exists>s''. handlePollEvents now' env' rcv events s' = Some s'' \<and> m_rtsp_status s'' = RTSP_STATUS_CONFIG_WAITING))"
proof -
  let ?rx = "''RTSP/1.0 200 OK'' @ header_end" and ?e = "0x24 # tail"
  have rx: "?rx \<noteq> []" "hd ?rx \<noteq> CHR ''$''" "CHR 0x00 \<notin> set ?rx" "strstr ?rx header_end = Some header_end"
    by (simp_all add: header_end_def crlf_def)
  have len: "int (length ?rx + length ?e) < m_rx_data_len s" "length (m_timer_list s) = 3"
    using assms(1,6) by (simp_all add: rtsp_ok_defs header_end_def crlf_def)
  obtain j junk where j: "handleResponse now env (Recv (bytes ?rx @ ?e)) s =
      response_loop now env RTSP_ERROR 0 (s\<lparr>m_rx_data := bytes ?rx @ ?e @ j # junk, m_rx_data_pos := int (length ?rx + length ?e)\<rparr>)"
    "length (bytes ?rx @ ?e @ j # junk) = length (m_rx_data s)"
    using handleResponse_text [OF assms(1,5) len(1) rx(1), of now env] by auto
  let ?s = "s\<lparr>m_rx_data := bytes ?rx @ ?e @ j # junk, m_rx_data_pos := int (length ?rx + length ?e)\<rparr>"
  let ?m = "bytes ?rx @ ?e @ 0 # junk"
  let ?s1 = "stopTimerResetConnect (?s\<lparr>m_rx_data := ?m, m_wait_response := False\<rparr>)"
  define s' where "s' = ?s1\<lparr>m_rx_data := ?e @ drop (length ?e) ?m, m_rx_data_pos := int (length ?e),
      m_rtsp_request := RTSP_REQUEST_NONE\<rparr>"
  have "scan_status (?rx @ u) 0 = 200" for u using status_200 by (simp add: header_end_def crlf_def)
  then have "response_header now (?rx @ map byte_char (takeWhile (\<lambda>b. b \<noteq> 0) ?e)) RTSP_ERROR 0 (?s\<lparr>m_rx_data := ?m\<rparr>) =
      Some (?s1, RTSP_RESPONSE_COMPLETE, 200, True)"
    using assms(3) by (simp add: response_header_def response_by_kind_def handleResponseTeardown_def Let_def)
  then have "response_loop now env RTSP_ERROR 0 ?s = response_loop now env RTSP_RESPONSE_COMPLETE 200 s'"
    using response_loop_text [of ?s ?rx ?e j junk, OF _ _ rx(3,1,2,4) _ s'_def] by simp
  also have "\<dots> = Some (s', RTSP_OK)"
    by (rule response_loop_interleaved) (use assms(4,6) in \<open>simp_all add: s'_def timer_ops\<close>)
  finally have h: "handleResponse now env (Recv (bytes ?rx @ ?e)) s = Some (s', RTSP_OK)" using j(1) by simp
  have f: "m_rtsp_status s' = RTSP_STATUS_SESSION_TEARDOWNING" "\<not> m_wait_response s'" "m_fd s' = m_fd s"
    by (simp_all add: s'_def timer_ops assms(2))
  have run: "handlePollEvents now env (Recv (bytes ?rx @ ?e)) {POLLIN} s = Some s'"
    using h by (simp add: handlePollEvents_def assms(2))
  have ok': "rtsp_ok s'" using handlePollEvents_ok [OF assms(1) run] .
  have off: "\<not> timer_active i s'" if "i < 3" for i
  proof -
    have "i = T_RESET \<or> i = T_KEEP \<or> i = T_RECONNECT" using that by auto
    then show ?thesis
      using assms(1,2) len(2) by (auto simp: s'_def timer_ops rtsp_ok_defs)
  qed
  have "handleNextTimer now' ok s' = s'"
    unfolding handleNextTimer_def
    by (rule callNextTimer_idle) (use off ok' in \<open>auto simp: in_set_conv_nth timer_due_def timer_active_def rtsp_ok_def\<close>)
  moreover have "handlePollEvents now' env' (Recv []) {POLLIN} s' = Some s'"
  proof -
    have "handleResponse now' env' (Recv []) s' = Some (s', RTSP_ERROR)"
    proof -
      have "m_rx_data_pos s' < 4" "0 \<le> m_rx_data_pos s'" "2048 \<le> m_rx_data_len s'"
        using assms(6) ok' by (simp_all add: s'_def rtsp_ok_defs)
      then show ?thesis by (simp add: handleResponse_def Let_def)
    qed
    then show ?thesis by (simp add: handlePollEvents_def f(1))
  qed
  moreover have "m_fd s' \<noteq> -1" using f(3) assms(1,2) by (auto simp: rtsp_ok_defs)
  moreover have "\<exists>s''. handlePollEvents now' env' rcv events s' = Some s'' \<and> m_rtsp_status s'' = RTSP_STATUS_CONFIG_WAITING"
    if "POLLHUP \<in> events \<or> POLLERR \<in> events \<or> POLLNVAL \<in> events"
    using that by (simp add: handlePollEvents_def resetConnect_state)
  ultimately show ?thesis
    using run f off by (intro exI [of _ s']) (simp add: handleRTSPStatus_def)
qed

theorem teardown_response_lost_witness:
  "\<exists>s s'. handlePollEvents \<lparr>tv_sec = 1, tv_nsec = 0\<rparr> undefined (Recv (bytes (''RTSP/1.0 200 OK'' @ header_end) @ [0x24, 0])) {POLLIN} s = Some s' \<and>
     m_rtsp_status s' = RTSP_STATUS_SESSION_TEARDOWNING \<and> \<not> m_wait_response s'"
proof -
  let ?w = "awaiting RTSP_STATUS_SESSION_TEARDOWNING RTSP_REQUEST_TEARDOWN sample_rtsp"
  let ?c = "m_satip_config sample_rtsp"
  let ?s = "?w\<lparr>m_satip_config := ?c\<lparr>m_settings := (m_settings ?c)\<lparr>o_tcpdata := True\<rparr>\<rparr>\<rparr>"
  have ok: "rtsp_ok ?w" by (simp add: sample_awaiting_ok)
  have "same_pid_state ?c (?c\<lparr>m_settings := (m_settings ?c)\<lparr>o_tcpdata := True\<rparr>\<rparr>)" by (simp add: same_pid_state_def)
  then have "config_ok (?c\<lparr>m_settings := (m_settings ?c)\<lparr>o_tcpdata := True\<rparr>\<rparr>)"
    using ok same_pid_state_inv(1) by (auto simp: rtsp_ok_def)
  then have "rtsp_ok ?s" using ok by (simp add: rtsp_ok_defs)
  moreover have "m_rx_data_pos ?s = 0" by (simp add: sample_fields)
  ultimately have "\<exists>s'. handlePollEvents \<lparr>tv_sec = 1, tv_nsec = 0\<rparr> undefined (Recv (bytes (''RTSP/1.0 200 OK'' @ header_end) @ [0x24, 0])) {POLLIN} ?s = Some s' \<and>
     m_rtsp_status s' = RTSP_STATUS_SESSION_TEARDOWNING \<and> \<not> m_wait_response s'"
    using teardown_response_lost [of ?s "[0]" "\<lparr>tv_sec = 1, tv_nsec = 0\<rparr>" undefined undefined None True undefined "{}"]
    by (auto simp: isTcpData_def simp del: append.simps)
  then show ?thesis by blast
qed

text \<open>
  C34. A failing \<^verbatim>\<open>recv\<close>, for example on a connection the server has reset, makes the client leave its
  receive buffer when the buffer is empty: the result -1 is added to the position, and either this call
  writes in front of the buffer, or it returns with the position -1 and every later call receives to
  the byte in front of the buffer.
\<close>

theorem recv_failure_leaves_buffer:
  assumes "rtsp_ok s" "m_rx_data_pos s = 0"
  shows "handleResponse now env Recv_error s = None \<or>
    (\<exists>s' res. handleResponse now env Recv_error s = Some (s', res) \<and> m_rx_data_pos s' = -1 \<and>
       (\<forall>now' env' rcv. handleResponse now' env' rcv s' = None))"
proof -
  let ?s = "s\<lparr>m_rx_data_pos := -1\<rparr>"
  have len: "2048 \<le> m_rx_data_len s" using assms(1) by (simp add: rtsp_ok_defs)
  then have call: "handleResponse now env Recv_error s = response_loop now env RTSP_ERROR 0 ?s"
    using assms(2) by (simp add: handleResponse_def Let_def)
  have "handleResponse now' env' rcv ?s = None" for now' env' rcv
    using len by (simp add: handleResponse_def Let_def)
  moreover have "response_loop now env RTSP_ERROR 0 ?s = None \<or>
      (\<exists>res. response_loop now env RTSP_ERROR 0 ?s = Some (?s, res))"
    by (cases "rd (m_rx_data s) 0") (simp_all add: response_loop.simps [of now env RTSP_ERROR 0 ?s] wr_def)
  ultimately show ?thesis unfolding call by (elim disjE exE) auto
qed

theorem recv_failure_leaves_buffer_witness:
  "\<exists>s. m_rtsp_status s = RTSP_STATUS_SESSION_ESTABLISHING \<and> (\<forall>now env. handleResponse now env Recv_error s = None \<or>
    (\<exists>s' res. handleResponse now env Recv_error s = Some (s', res) \<and> m_rx_data_pos s' = -1))"
proof -
  let ?s = "awaiting RTSP_STATUS_SESSION_ESTABLISHING RTSP_REQUEST_SETUP sample_rtsp"
  have "rtsp_ok ?s" by (simp add: sample_awaiting_ok)
  moreover have "m_rx_data_pos ?s = 0" "m_rtsp_status ?s = RTSP_STATUS_SESSION_ESTABLISHING"
    by (simp_all add: awaiting_def timer_ops sample_fields)
  ultimately show ?thesis using recv_failure_leaves_buffer [of ?s] by blast
qed

end
