(* ===== verification/Session_Start.thy ===== *)
theory Session_Start
  imports Session Rtsp_Response
begin

text \<open>
  A session against a server that answers: three turns of the session's loop lead from a tuned channel
  to the running stream, and the server then has exactly the pids that the kernel and the tap
  want; a change of the pids while the stream runs wakes the loop and reaches the server; and when the
  kernel makes the channel invalid, a pending change of the pids is told, and the turn after ends the session
  and leaves nothing open or running.
\<close>

section \<open>One turn without the kernel\<close>

text \<open>
  The timers are looked at less than four seconds after the status call, \<^verbatim>\<open>poll\<close> reports \<open>evs\<close> at
  the connection and nothing at the device, and sending works.
\<close>

definition smooth :: "loop_env \<Rightarrow> poll_flag set \<Rightarrow> bool" where
  "smooth e evs \<longleftrightarrow> l_ok0 e \<and> tv_sec (l_now1 e) < tv_sec (l_now0 e) + 4 \<and>
     (\<forall>fd p r t. \<exists>pin. l_poll e fd p r t = Poll_ready False pin evs)"

lemma smooth_time: "smooth e evs \<Longrightarrow> tv_sec (l_now1 e) < tv_sec (l_now0 e) + 4"
  by (simp add: smooth_def)

lemma smooth_run:
  assumes "smooth e evs" "evs \<noteq> {}" "y = handleRTSPStatus (l_now0 e) (l_addrs e) True (ss_rtsp s)"
    and "getPollEvent y \<noteq> {}" "handleNextTimer (l_now1 e) (l_ok1 e) y = y"
    and "handlePollEvents (l_now3 e) (l_frames e) (l_recv e) evs y = Some z"
  obtains n where "loop_turn H e s = Some (s\<lparr>ss_rtsp := z, ss_drained := n\<rparr>, True)"
    "s\<lparr>ss_rtsp := y, ss_drained := n\<rparr> = loop_status e s \<or> s\<lparr>ss_rtsp := y, ss_drained := n\<rparr> = loop_drain (loop_status e s)"
proof -
  let ?s = "s\<lparr>ss_rtsp := y\<rparr>"
  have st: "loop_status e s = ?s" using assms(1,3) by (simp add: loop_status_def smooth_def)
  have tm: "loop_timer e ?s = ?s" using assms(5) by (simp add: loop_timer_def)
  have "\<exists>pin. l_poll e (v_fd (ss_vtuner s)) (if ss_pipe0 s \<noteq> -1 then Some (ss_pipe0 s) else None)
      (Some (getRtspSocketFd y, getPollEvent y)) (getPollTimeout (l_now_poll e) y) = Poll_ready False pin evs"
    using assms(1) unfolding smooth_def by blast
  then obtain pin where p: "l_poll e (v_fd (ss_vtuner s)) (if ss_pipe0 s \<noteq> -1 then Some (ss_pipe0 s) else None)
      (Some (getRtspSocketFd y, getPollEvent y)) (getPollTimeout (l_now_poll e) y) = Poll_ready False pin evs" by blast
  define n where "n = (if ss_pipe0 s \<noteq> -1 \<and> pin then m_wakeups (cfg y) else ss_drained s)"
  let ?d = "if ss_pipe0 s \<noteq> -1 \<and> pin then loop_drain ?s else ?s"
  have d: "?d = s\<lparr>ss_rtsp := y, ss_drained := n\<rparr>" by (simp add: n_def loop_drain_def)
  have "loop_server e evs ?d = Some (s\<lparr>ss_rtsp := z, ss_drained := n\<rparr>)"
    unfolding d using assms(6) by (simp add: loop_server_def)
  then have "loop_turn H e s = Some (s\<lparr>ss_rtsp := z, ss_drained := n\<rparr>, True)"
    using p assms(2,4) tm by (simp add: loop_turn_def st Let_def cong: if_cong)
  moreover have "s\<lparr>ss_rtsp := y, ss_drained := n\<rparr> = loop_status e s \<or> s\<lparr>ss_rtsp := y, ss_drained := n\<rparr> = loop_drain (loop_status e s)"
    unfolding st by (simp add: n_def loop_drain_def)
  ultimately show thesis by (rule that)
qed

lemma smooth_turn:
  assumes "smooth e evs" "evs \<noteq> {}" "y = handleRTSPStatus (l_now0 e) (l_addrs e) True (ss_rtsp s)"
    and "getPollEvent y \<noteq> {}" "handleNextTimer (l_now1 e) (l_ok1 e) y = y"
    and "handlePollEvents (l_now3 e) (l_frames e) (l_recv e) evs y = Some z" "session_reach H d s"
  shows "\<exists>s'. loop_turn H e s = Some (s', True) \<and> ss_rtsp s' = z \<and> ss_running s' = ss_running s \<and>
    session_reach H (d \<and> \<not> retold (ss_rtsp s) y) s'"
proof -
  obtain n where turn: "loop_turn H e s = Some (s\<lparr>ss_rtsp := z, ss_drained := n\<rparr>, True)"
    "s\<lparr>ss_rtsp := y, ss_drained := n\<rparr> = loop_status e s \<or> s\<lparr>ss_rtsp := y, ss_drained := n\<rparr> = loop_drain (loop_status e s)"
    by (rule smooth_run [OF assms(1-6)])
  let ?d = "s\<lparr>ss_rtsp := y, ss_drained := n\<rparr>" and ?flag = "d \<and> \<not> retold (ss_rtsp s) y"
  have "ss_rtsp (loop_status e s) = y" using assms(1,3) by (simp add: loop_status_def smooth_def)
  then have s: "session_reach H ?flag (loop_status e s)" using session_reach.status [OF assms(7), of e] by simp
  have "session_reach H ?flag ?d" using turn(2) s session_reach.drain [OF s] by metis
  moreover have "loop_server e evs ?d = Some (s\<lparr>ss_rtsp := z, ss_drained := n\<rparr>)"
    using assms(6) by (simp add: loop_server_def)
  ultimately have "session_reach H ?flag (s\<lparr>ss_rtsp := z, ss_drained := n\<rparr>)" by (rule session_reach.server)
  with turn(1) show ?thesis by (intro exI [of _ "s\<lparr>ss_rtsp := z, ss_drained := n\<rparr>"]) simp
qed

lemma only_watchdog:
  assumes "length (m_timer_list x) = 3" "\<not> timer_active T_KEEP x" "\<not> timer_active T_RECONNECT x"
    and "tv_sec now' < tv_sec now + n div 1000" "0 \<le> n"
  shows "handleNextTimer now' ok (startTimerResetConnect now n x) = startTimerResetConnect now n x"
proof -
  have "\<not> timer_due now' (m_timer_list (startTimerResetConnect now n x) ! i)" if "i < 3" for i
  proof -
    have "i = 0 \<or> i = 1 \<or> i = 2" using that by auto
    then show ?thesis
      using assms
      by (auto simp: startTimerResetConnect_def with_timer_def timer_due_def timer_active_def timer_start_def
          ts_after_def deadline_def Let_def sdiv_nonneg)
  qed
  then show ?thesis
    unfolding handleNextTimer_def
    by (intro callNextTimer_idle) (use assms(1) in \<open>auto simp: in_set_conv_nth timer_ops\<close>)
qed

lemma connect_found:
  assumes "Connecting fd \<in> set addrs"
  shows "snd (connectToServer (Some addrs) s) = RTSP_OK"
proof -
  have "\<exists>s1 fd'. connect_loop addrs s = (s1, Some fd')"
    using assms by (induction addrs s rule: connect_loop.induct) auto
  then show ?thesis by (auto simp: connectToServer_def)
qed

section \<open>The three turns at the client\<close>

text \<open>Between two turns: nothing outstanding, nothing received and no timer running.\<close>

definition calm :: "rtsp_status \<Rightarrow> config \<Rightarrow> rtsp \<Rightarrow> bool" where
  "calm st c x \<longleftrightarrow> m_rtsp_status x = st \<and> cfg x = c \<and> \<not> m_wait_response x \<and> m_rx_data_pos x = 0 \<and>
     length (m_timer_list x) = 3 \<and> \<not> timer_active T_KEEP x \<and> \<not> timer_active T_RECONNECT x"

lemma turn_connect:
  assumes "rtsp_ok x" "m_rtsp_status x = RTSP_STATUS_CONFIG_WAITING" "chan x = CONFIG_STATUS_CHANNEL_CHANGED"
    and "m_tune_generation (cfg x) > m_attempted_generation x \<or> \<not> timer_active T_RECONNECT x"
    and "Connecting fd \<in> set addrs" "tv_sec now1 < tv_sec now + 4"
  obtains z where "calm RTSP_STATUS_SESSION_ESTABLISHING (cfg x) z"
    "handlePollEvents now' env rcv {POLLOUT} (handleRTSPStatus now (Some addrs) True x) = Some z"
    "getPollEvent (handleRTSPStatus now (Some addrs) True x) \<noteq> {}"
    "handleNextTimer now1 ok (handleRTSPStatus now (Some addrs) True x) = handleRTSPStatus now (Some addrs) True x"
proof -
  have x: "length (m_timer_list x) = 3" "\<not> timer_active T_KEEP x" "\<not> m_wait_response x" "m_rx_data_pos x = 0"
    using assms(1,2) by (auto simp: rtsp_ok_defs)
  have a: "length (m_timer_list (attempting x)) = 3" "\<not> timer_active T_KEEP (attempting x)" "\<not> timer_active T_RECONNECT (attempting x)"
    "m_rx_data_pos (attempting x) = 0" "\<not> m_wait_response (attempting x)"
    using x assms(4) by (auto simp: attempting_def resetReconnectBackoff_def timer_ops)
  obtain w where w: "handleRTSPStatus now (Some addrs) True x = startTimerResetConnect now 5000 w"
    "calm RTSP_STATUS_SERVER_CONNECTING (cfg x) w"
  proof (cases rule: waiting_run [OF assms(2,3), of "Some addrs" now True])
    case (1 fd')
    show ?thesis by (rule that [OF 1(2)]) (use a in \<open>simp add: calm_def\<close>)
  next
    case 2
    then show ?thesis using connect_found [OF assms(5), of "attempting x"] by simp
  qed
  have st: "m_rtsp_status (startTimerResetConnect now 5000 w) = RTSP_STATUS_SERVER_CONNECTING"
    using w(2) by (simp add: calm_def timer_ops)
  show thesis
  proof (rule that [unfolded w(1)])
    show "handleNextTimer now1 ok (startTimerResetConnect now 5000 w) = startTimerResetConnect now 5000 w"
      using w(2) assms(6) by (intro only_watchdog) (simp_all add: calm_def)
    show "getPollEvent (startTimerResetConnect now 5000 w) \<noteq> {}" by (simp add: getPollEvent_def st)
    show "handlePollEvents now' env rcv {POLLOUT} (startTimerResetConnect now 5000 w) =
        Some ((stopTimerResetConnect (startTimerResetConnect now 5000 w))\<lparr>m_rtsp_status := RTSP_STATUS_SESSION_ESTABLISHING\<rparr>)"
      by (simp add: handlePollEvents_def st)
    show "calm RTSP_STATUS_SESSION_ESTABLISHING (cfg x)
        ((stopTimerResetConnect (startTimerResetConnect now 5000 w))\<lparr>m_rtsp_status := RTSP_STATUS_SESSION_ESTABLISHING\<rparr>)"
      using w(2) by (simp add: calm_def timer_ops)
  qed
qed

lemma turn_request:
  assumes "calm st c x" "handleRTSPStatus now addrs True x = fst (sendRequest now True rq x)"
    and "rq = RTSP_REQUEST_SETUP \<or> rq = RTSP_REQUEST_PLAY" "rq = RTSP_REQUEST_PLAY \<Longrightarrow> \<not> no_session x"
    and "tv_sec now1 < tv_sec now + 4"
  shows "handleNextTimer now1 ok (handleRTSPStatus now addrs True x) = handleRTSPStatus now addrs True x"
    "handleRTSPStatus now addrs True x = startTimerResetConnect now 4000
       ((sent_with (request_text rq (stopTimerKeepAliveMessage x)) (query_cfg rq c) (stopTimerKeepAliveMessage x))
         \<lparr>m_wait_response := True, m_rtsp_request := rq\<rparr>)"
proof -
  have "no_session (stopTimerKeepAliveMessage x) = no_session x" "cfg (stopTimerKeepAliveMessage x) = c"
    using assms(1) by (simp_all add: no_session_def timer_ops calm_def)
  then have "send_by_kind True rq (stopTimerKeepAliveMessage x) =
      (sent_with (request_text rq (stopTimerKeepAliveMessage x)) (query_cfg rq c) (stopTimerKeepAliveMessage x), RTSP_OK)"
    using assms(3,4) by (auto simp: send_by_kind_eq send_msg_def next_cseq_def sent_with_def)
  then show eq: "handleRTSPStatus now addrs True x = startTimerResetConnect now 4000
       ((sent_with (request_text rq (stopTimerKeepAliveMessage x)) (query_cfg rq c) (stopTimerKeepAliveMessage x))
         \<lparr>m_wait_response := True, m_rtsp_request := rq\<rparr>)"
    using assms(1) by (simp add: assms(2) sendRequest_def calm_def)
  show "handleNextTimer now1 ok (handleRTSPStatus now addrs True x) = handleRTSPStatus now addrs True x"
    unfolding eq using assms(1,5) by (intro only_watchdog) (simp_all add: calm_def sent_with_def timer_ops)
qed

text \<open>A request is out, with its watchdog running.\<close>

lemma requested_state:
  assumes "y = startTimerResetConnect now 4000 ((sent_with tx c' (stopTimerKeepAliveMessage x))\<lparr>m_wait_response := True, m_rtsp_request := rq\<rparr>)"
    and "calm st c x"
  shows "m_rtsp_status y = st" "m_rtsp_request y = rq" "m_rx_data_pos y = 0" "cfg y = c'" "k_sent y = k_sent x @ [tx]"
    "m_rtsp_session_id y = m_rtsp_session_id x" "length (m_timer_list y) = 3" "\<not> timer_active T_KEEP y" "\<not> timer_active T_RECONNECT y"
    "m_rtsp_stream_id y = m_rtsp_stream_id x"
  using assms(2) by (simp_all add: assms(1) calm_def sent_with_def timer_ops)

lemma turn_setup:
  assumes "rtsp_ok x" "calm RTSP_STATUS_SESSION_ESTABLISHING c x" "tv_sec now1 < tv_sec now + 4"
    and "hex_text sid" "0 < tmo" "tmo < 2 ^ 31" "0 < stream" "stream < 2 ^ 31"
    and "length (setup_response cseq sid tmo port stream) < 1024"
  obtains z where "calm RTSP_STATUS_SESSION_PLAYING (fst (getSetupData c)) z" "m_rtsp_session_id z = sid" "m_rtsp_stream_id z = int stream"
    "handlePollEvents now' env (Recv (bytes (setup_response cseq sid tmo port stream))) {POLLIN} (handleRTSPStatus now addrs True x) = Some z"
    "getPollEvent (handleRTSPStatus now addrs True x) \<noteq> {}"
    "handleNextTimer now1 ok (handleRTSPStatus now addrs True x) = handleRTSPStatus now addrs True x"
    "retold x (handleRTSPStatus now addrs True x)"
proof -
  let ?y = "handleRTSPStatus now addrs True x"
  have run: "?y = fst (sendRequest now True RTSP_REQUEST_SETUP x)"
    using assms(2) by (simp add: handleRTSPStatus_def calm_def)
  have idle: "handleNextTimer now1 ok ?y = ?y" by (rule turn_request(1) [OF assms(2) run _ _ assms(3)]) simp_all
  note y = requested_state [OF turn_request(2) [OF assms(2) run disjI1 [OF refl] _ assms(3), simplified] assms(2)]
  have told: "retold x ?y" using y(2,5) by (simp add: retold_def)
  obtain d where z: "handlePollEvents now' env (Recv (bytes (setup_response cseq sid tmo port stream))) {POLLIN} ?y =
    Some ((stopTimerResetConnect ?y)\<lparr>m_rtsp_session_id := sid, m_rtsp_timeout := int tmo, m_rtsp_stream_id := int stream,
      m_rx_data := d, m_rx_data_pos := 0, m_wait_response := False, m_rtsp_request := RTSP_REQUEST_NONE,
      m_rtsp_status := RTSP_STATUS_SESSION_PLAYING\<rparr>)" (is "_ = Some ?z")
    by (rule setup_response_run [OF handleRTSPStatus_ok [OF assms(1)] y(1-3) assms(4-9)])
  have "calm RTSP_STATUS_SESSION_PLAYING (fst (getSetupData c)) ?z"
    using y(4,7-9) by (simp add: calm_def timer_ops query_cfg_def)
  then show thesis by (rule that) (use z idle told y(1) in \<open>simp_all add: getPollEvent_def\<close>)
qed

lemma turn_play:
  assumes "rtsp_ok x" "calm RTSP_STATUS_SESSION_PLAYING c x" "tv_sec now1 < tv_sec now + 4" "\<not> no_session x" "ok_response rx"
  obtains z where "calm RTSP_STATUS_SESSION_TRANSMITTING (fst (getPlayData c)) z" "m_rtsp_session_id z = m_rtsp_session_id x"
    "m_rtsp_stream_id z = m_rtsp_stream_id x" "k_sent z = k_sent x @ [request_text RTSP_REQUEST_PLAY (stopTimerKeepAliveMessage x)]"
    "handlePollEvents now' env (Recv (bytes rx)) {POLLIN} (handleRTSPStatus now addrs True x) = Some z"
    "getPollEvent (handleRTSPStatus now addrs True x) \<noteq> {}"
    "handleNextTimer now1 ok (handleRTSPStatus now addrs True x) = handleRTSPStatus now addrs True x"
proof -
  let ?y = "handleRTSPStatus now addrs True x"
  have run: "?y = fst (sendRequest now True RTSP_REQUEST_PLAY x)"
    using assms(2) by (simp add: handleRTSPStatus_def calm_def)
  have idle: "handleNextTimer now1 ok ?y = ?y" by (rule turn_request(1) [OF assms(2) run _ assms(4,3)]) simp
  note y = requested_state [OF turn_request(2) [OF assms(2) run disjI2 [OF refl] assms(4,3)] assms(2)]
  have "m_rtsp_request ?y = RTSP_REQUEST_PLAY \<or> m_rtsp_request ?y = RTSP_REQUEST_TEARDOWN \<or> m_rtsp_request ?y = RTSP_REQUEST_OPTION"
    using y(2) by simp
  then obtain d where "handleResponse now' env (Recv (bytes rx)) ?y =
    Some ((stopTimerResetConnect ?y)\<lparr>m_rx_data := d, m_rx_data_pos := 0, m_wait_response := False,
      m_rtsp_request := RTSP_REQUEST_NONE\<rparr>, RTSP_RESPONSE_COMPLETE)"
    by (rule ok_response_run [OF handleRTSPStatus_ok [OF assms(1)] y(3) assms(5)])
  then have z: "handlePollEvents now' env (Recv (bytes rx)) {POLLIN} ?y =
    Some (resetReconnectBackoff (stopTimerReconnect ((stopTimerResetConnect ?y)\<lparr>m_rx_data := d, m_rx_data_pos := 0,
      m_wait_response := False, m_rtsp_request := RTSP_REQUEST_NONE, m_rtsp_status := RTSP_STATUS_SESSION_TRANSMITTING\<rparr>)))"
    (is "_ = Some ?z") using y(1) by (simp add: handlePollEvents_def)
  have "calm RTSP_STATUS_SESSION_TRANSMITTING (fst (getPlayData c)) ?z"
    using y(4,7-9) by (simp add: calm_def timer_ops query_cfg_def resetReconnectBackoff_def)
  then show thesis
    by (rule that) (use z idle y(1,5,6,10) in \<open>simp_all add: getPollEvent_def timer_ops resetReconnectBackoff_def\<close>)
qed

text \<open>After SETUP and PLAY the record holds what was wanted, and the channel counts as tuned.\<close>

lemma both_told:
  assumes "config_ok c" "m_status c = CONFIG_STATUS_CHANNEL_CHANGED"
  defines "d \<equiv> fst (getPlayData (fst (getSetupData c)))"
  shows "m_requested_pids d = all_wanted c" "m_status d = CONFIG_STATUS_CHANNEL_STABLE" "getPidStatus d = CONFIG_STATUS_PID_STATIONARY"
    "wanted_pids (m_pid_list d) = wanted_pids (m_pid_list c)" "told_pids (m_pid_list d) = wanted_pids (m_pid_list c)"
    "m_ca_pids d = m_ca_pids c"
proof -
  define e where "e = requested (tuned c)"
  note q = requested_ok [OF tuned_ok(1) [OF assms(1)], folded e_def]
  have c: "m_status e = CONFIG_STATUS_CHANNEL_STABLE" "m_requested_pids e = all_wanted c" "m_ca_pids e = m_ca_pids c"
    "m_pid_list (tuned c) = m_pid_list c"
    using tuned_ok(2) [OF assms(1)] by (simp_all add: e_def requested_def tuned_def assms(2) set_pilots_def)
  have "fst (getSetupData c) = e" by (simp add: getSetupData_eq [OF assms(1)] e_def)
  then have "d = (tuned e)\<lparr>m_requested_pids := m_requested_pids e\<rparr>"
    unfolding d_def by (simp add: getPlayData_eq [OF q(1)] q(2) c(1))
  then have "d = e" by (simp add: tuned_def c(1))
  then show "m_requested_pids d = all_wanted c" "m_status d = CONFIG_STATUS_CHANNEL_STABLE" "getPidStatus d = CONFIG_STATUS_PID_STATIONARY"
    "wanted_pids (m_pid_list d) = wanted_pids (m_pid_list c)" "told_pids (m_pid_list d) = wanted_pids (m_pid_list c)"
    "m_ca_pids d = m_ca_pids c"
    using c q(2-4) by (simp_all add: c(4))
qed

section \<open>From a tuned channel to the stream\<close>

lemma reach_rtsp: "session_reach H d s \<Longrightarrow> rtsp_ok (ss_rtsp s) \<and> config_ok (cfg (ss_rtsp s))"
  using session_reach_ok by (auto simp: client_ok_def rtsp_ok_def)

lemma session_connects:
  assumes "session_reach H d s" "x = ss_rtsp s"
    and "m_rtsp_status x = RTSP_STATUS_CONFIG_WAITING" "chan x = CONFIG_STATUS_CHANNEL_CHANGED"
    and "m_tune_generation (cfg x) > m_attempted_generation x \<or> \<not> timer_active T_RECONNECT x"
    and "smooth e {POLLOUT}" "l_addrs e = Some addrs" "Connecting fd \<in> set addrs"
  obtains d' s' where "loop_turn H e s = Some (s', True)" "session_reach H d' s'" "ss_running s' = ss_running s"
    "calm RTSP_STATUS_SESSION_ESTABLISHING (cfg x) (ss_rtsp s')"
proof -
  let ?y = "handleRTSPStatus (l_now0 e) (l_addrs e) True (ss_rtsp s)"
  obtain z where z: "calm RTSP_STATUS_SESSION_ESTABLISHING (cfg x) z"
    "handlePollEvents (l_now3 e) (l_frames e) (l_recv e) {POLLOUT} ?y = Some z"
    "getPollEvent ?y \<noteq> {}" "handleNextTimer (l_now1 e) (l_ok1 e) ?y = ?y"
    using turn_connect [OF _ assms(3-5,8) smooth_time [OF assms(6)]] reach_rtsp [OF assms(1)] assms(7)
    unfolding assms(2) by metis
  have "\<exists>s'. loop_turn H e s = Some (s', True) \<and> ss_rtsp s' = z \<and> ss_running s' = ss_running s \<and>
      session_reach H (d \<and> \<not> retold (ss_rtsp s) ?y) s'"
    by (rule smooth_turn [OF assms(6) _ refl z(3,4,2) assms(1)]) simp
  then show thesis using z(1) that by blast
qed

lemma session_sets_up:
  assumes "session_reach H d s" "calm RTSP_STATUS_SESSION_ESTABLISHING c (ss_rtsp s)"
    and "smooth e {POLLIN}" "l_recv e = Recv (bytes (setup_response cseq sid tmo port stream))"
    and "hex_text sid" "0 < tmo" "tmo < 2 ^ 31" "0 < stream" "stream < 2 ^ 31" "length (setup_response cseq sid tmo port stream) < 1024"
  obtains s' where "loop_turn H e s = Some (s', True)" "session_reach H False s'" "ss_running s' = ss_running s"
    "calm RTSP_STATUS_SESSION_PLAYING (fst (getSetupData c)) (ss_rtsp s')"
    "m_rtsp_session_id (ss_rtsp s') = sid" "m_rtsp_stream_id (ss_rtsp s') = int stream"
proof -
  let ?y = "handleRTSPStatus (l_now0 e) (l_addrs e) True (ss_rtsp s)"
  obtain z where z: "calm RTSP_STATUS_SESSION_PLAYING (fst (getSetupData c)) z" "m_rtsp_session_id z = sid" "m_rtsp_stream_id z = int stream"
    "handlePollEvents (l_now3 e) (l_frames e) (l_recv e) {POLLIN} ?y = Some z"
    "getPollEvent ?y \<noteq> {}" "handleNextTimer (l_now1 e) (l_ok1 e) ?y = ?y" "retold (ss_rtsp s) ?y"
    using turn_setup [OF _ assms(2) smooth_time [OF assms(3)] assms(5-10)] reach_rtsp [OF assms(1)]
    unfolding assms(4) by metis
  have "\<exists>s'. loop_turn H e s = Some (s', True) \<and> ss_rtsp s' = z \<and> ss_running s' = ss_running s \<and>
      session_reach H (d \<and> \<not> retold (ss_rtsp s) ?y) s'"
    by (rule smooth_turn [OF assms(3) _ refl z(5,6,4) assms(1)]) simp
  with z(7) have "\<exists>s'. loop_turn H e s = Some (s', True) \<and> ss_rtsp s' = z \<and> ss_running s' = ss_running s \<and> session_reach H False s'"
    by simp
  then show thesis using z(1-3) that by blast
qed

lemma session_plays:
  assumes "session_reach H False s" "calm RTSP_STATUS_SESSION_PLAYING c (ss_rtsp s)" "\<not> no_session (ss_rtsp s)"
    and "smooth e {POLLIN}" "l_recv e = Recv (bytes rx)" "ok_response rx"
  obtains s' where "loop_turn H e s = Some (s', True)" "session_reach H False s'" "ss_running s' = ss_running s"
    "calm RTSP_STATUS_SESSION_TRANSMITTING (fst (getPlayData c)) (ss_rtsp s')" "k_sent (ss_rtsp s') \<noteq> []"
    "m_rtsp_session_id (ss_rtsp s') = m_rtsp_session_id (ss_rtsp s)" "m_rtsp_stream_id (ss_rtsp s') = m_rtsp_stream_id (ss_rtsp s)"
proof -
  let ?y = "handleRTSPStatus (l_now0 e) (l_addrs e) True (ss_rtsp s)"
  obtain z where z: "calm RTSP_STATUS_SESSION_TRANSMITTING (fst (getPlayData c)) z" "k_sent z \<noteq> []"
    "m_rtsp_session_id z = m_rtsp_session_id (ss_rtsp s)" "m_rtsp_stream_id z = m_rtsp_stream_id (ss_rtsp s)"
    "handlePollEvents (l_now3 e) (l_frames e) (l_recv e) {POLLIN} ?y = Some z"
    "getPollEvent ?y \<noteq> {}" "handleNextTimer (l_now1 e) (l_ok1 e) ?y = ?y"
    using turn_play [OF _ assms(2) smooth_time [OF assms(4)] assms(3,6)] reach_rtsp [OF assms(1)]
    unfolding assms(5) by (metis append_is_Nil_conv not_Cons_self2)
  have "\<exists>s'. loop_turn H e s = Some (s', True) \<and> ss_rtsp s' = z \<and> ss_running s' = ss_running s \<and>
      session_reach H (False \<and> \<not> retold (ss_rtsp s) ?y) s'"
    by (rule smooth_turn [OF assms(4) _ refl z(6,7,5) assms(1)]) simp
  then show thesis using z(1-4) that by simp blast
qed

lemma three_turns:
  assumes "session_reach H d s" "x = ss_rtsp s" "ss_running s"
    and "m_rtsp_status x = RTSP_STATUS_CONFIG_WAITING" "chan x = CONFIG_STATUS_CHANNEL_CHANGED"
    and "m_tune_generation (cfg x) > m_attempted_generation x \<or> \<not> timer_active T_RECONNECT x"
    and con: "smooth e1 {POLLOUT}" "l_addrs e1 = Some addrs" "Connecting fd \<in> set addrs"
    and ans: "smooth e2 {POLLIN}" "l_recv e2 = Recv (bytes (setup_response cseq sid tmo port stream))"
      "hex_text sid" "0 < tmo" "tmo < 2 ^ 31" "0 < stream" "stream < 2 ^ 31" "length (setup_response cseq sid tmo port stream) < 1024"
    and run: "smooth e3 {POLLIN}" "l_recv e3 = Recv (bytes rx)" "ok_response rx"
  obtains s' where "satipMainLoop H [e1, e2, e3] s = Some (s', False)" "session_reach H False s'" "ss_running s'"
    "calm RTSP_STATUS_SESSION_TRANSMITTING (fst (getPlayData (fst (getSetupData (cfg x))))) (ss_rtsp s')" "k_sent (ss_rtsp s') \<noteq> []"
    "m_rtsp_session_id (ss_rtsp s') = sid" "m_rtsp_stream_id (ss_rtsp s') = int stream"
proof -
  obtain d1 s1 where s1: "loop_turn H e1 s = Some (s1, True)" "session_reach H d1 s1" "ss_running s1 = ss_running s"
    "calm RTSP_STATUS_SESSION_ESTABLISHING (cfg x) (ss_rtsp s1)"
    by (rule session_connects [OF assms(1,2,4-6) con])
  obtain s2 where s2: "loop_turn H e2 s1 = Some (s2, True)" "session_reach H False s2" "ss_running s2 = ss_running s1"
    "calm RTSP_STATUS_SESSION_PLAYING (fst (getSetupData (cfg x))) (ss_rtsp s2)"
    "m_rtsp_session_id (ss_rtsp s2) = sid" "m_rtsp_stream_id (ss_rtsp s2) = int stream"
    by (rule session_sets_up [OF s1(2,4) ans])
  have "\<not> no_session (ss_rtsp s2)" using s2(5,6) ans(3) by (simp add: no_session_def hex_text_def)
  then obtain s3 where s3: "loop_turn H e3 s2 = Some (s3, True)" "session_reach H False s3" "ss_running s3 = ss_running s2"
    "calm RTSP_STATUS_SESSION_TRANSMITTING (fst (getPlayData (fst (getSetupData (cfg x))))) (ss_rtsp s3)" "k_sent (ss_rtsp s3) \<noteq> []"
    "m_rtsp_session_id (ss_rtsp s3) = m_rtsp_session_id (ss_rtsp s2)" "m_rtsp_stream_id (ss_rtsp s3) = m_rtsp_stream_id (ss_rtsp s2)"
    by (rule session_plays [OF s2(2,4) _ run])
  show thesis
    by (rule that [OF _ s3(2) _ s3(4,5)]) (use s1(1,3) s2(1,3,5,6) s3(1,3,6,7) assms(3) in simp_all)
qed

text \<open>
  C4. The session gets going. Take any reachable state of the running session, whatever the kernel did before
  (a clear with \<^verbatim>\<open>DTV_CLEAR\<close> included), that waits with a newly tuned channel, and whose reconnect timer is off or
  whose tuning is newer than the last attempt; take three turns of the loop in which sending works, the timers are
  looked at less than four seconds after the status call, and \<^verbatim>\<open>poll\<close> reports nothing at the device and at the connection
  that it can be written in the first turn, that it can be read in the others. If one of the addresses accepts the connection,
  the second turn receives a SETUP response of the usual form with a hexadecimal identifier, a timeout and a stream number
  above 0 and below 2^31, complete, alone and shorter than 1024 bytes, and the third a response with status 200, complete, alone, shorter
  than 2048 bytes and without a body, then the loop ends up streaming: the session has the server's identifiers, nothing is outstanding, the
  channel counts as tuned, the record is not stale, and the server has exactly the pids of the kernel and of the tap.
\<close>

theorem session_establishes:
  assumes "session_reach H d s" "x = ss_rtsp s" "ss_running s"
    and "m_rtsp_status x = RTSP_STATUS_CONFIG_WAITING" "chan x = CONFIG_STATUS_CHANNEL_CHANGED"
    and "m_tune_generation (cfg x) > m_attempted_generation x \<or> \<not> timer_active T_RECONNECT x"
    and con: "smooth e1 {POLLOUT}" "l_addrs e1 = Some addrs" "Connecting fd \<in> set addrs"
    and ans: "smooth e2 {POLLIN}" "l_recv e2 = Recv (bytes (setup_response cseq sid tmo port stream))"
      "hex_text sid" "0 < tmo" "tmo < 2 ^ 31" "0 < stream" "stream < 2 ^ 31" "length (setup_response cseq sid tmo port stream) < 1024"
    and run: "smooth e3 {POLLIN}" "l_recv e3 = Recv (bytes rx)" "ok_response rx"
  shows "\<exists>s'. satipMainLoop H [e1, e2, e3] s = Some (s', False) \<and> session_reach H False s' \<and>
    m_rtsp_status (ss_rtsp s') = RTSP_STATUS_SESSION_TRANSMITTING \<and> \<not> m_wait_response (ss_rtsp s') \<and>
    m_rtsp_session_id (ss_rtsp s') = sid \<and> m_rtsp_stream_id (ss_rtsp s') = int stream \<and>
    chan (ss_rtsp s') = CONFIG_STATUS_CHANNEL_STABLE \<and> getPidStatus (cfg (ss_rtsp s')) = CONFIG_STATUS_PID_STATIONARY \<and>
    server_of (k_sent (ss_rtsp s')) = wanted_pids (m_pid_list (cfg x)) \<union> m_ca_pids (cfg x)"
proof -
  have x: "config_ok (cfg x)" using reach_rtsp [OF assms(1)] by (simp add: assms(2))
  obtain s' where s': "satipMainLoop H [e1, e2, e3] s = Some (s', False)" "session_reach H False s'" "ss_running s'"
    "calm RTSP_STATUS_SESSION_TRANSMITTING (fst (getPlayData (fst (getSetupData (cfg x))))) (ss_rtsp s')" "k_sent (ss_rtsp s') \<noteq> []"
    "m_rtsp_session_id (ss_rtsp s') = sid" "m_rtsp_stream_id (ss_rtsp s') = int stream"
    by (rule three_turns [OF assms])
  note c = both_told [OF x assms(5)]
  have "in_step False (ss_rtsp s')" using session_reach_ok [OF s'(2)] by (simp add: client_ok_def synced_def)
  then have "server_of (k_sent (ss_rtsp s')) = all_wanted (cfg x)" using s'(4,5) c(1) by (simp add: in_step_def calm_def)
  then show ?thesis
    using s' c(2,3) by (intro exI [of _ s']) (simp add: all_wanted_def calm_def)
qed

text \<open>A server for the sample session.\<close>

definition sample_turns :: "loop_env list" where
  "sample_turns = [sample_loop\<lparr>l_poll := \<lambda>_ _ _ _. Poll_ready False False {POLLOUT}\<rparr>,
     sample_loop\<lparr>l_poll := \<lambda>_ _ _ _. Poll_ready False True {POLLIN}, l_recv := Recv (bytes (setup_response 1 ''21a15c02'' 60 1400 5))\<rparr>,
     sample_loop\<lparr>l_poll := \<lambda>_ _ _ _. Poll_ready False False {POLLIN}, l_recv := Recv (bytes (''RTSP/1.0 200 OK'' @ header_end))\<rparr>]"

lemma sample_ready:
  "session_reach sample_abi False (session_start sample_session)" "ss_running (session_start sample_session)"
  "m_rtsp_status (ss_rtsp (session_start sample_session)) = RTSP_STATUS_CONFIG_WAITING"
  "chan (ss_rtsp (session_start sample_session)) = CONFIG_STATUS_CHANNEL_CHANGED"
  "\<not> timer_active T_RECONNECT (ss_rtsp (session_start sample_session))"
  "cfg (ss_rtsp (session_start sample_session)) = cfg (ss_rtsp sample_session)"
proof -
  have "\<not> timer_active T_RECONNECT (satipRTSP raw now mem t0 ts0 c host port r)" for raw now mem t0 ts0 c host port r
    by (simp add: satipRTSP_def resetConnect_def close_fd_def Let_def timer_ops resetReconnectBackoff_def timer_create_def)
  then show "\<not> timer_active T_RECONNECT (ss_rtsp (session_start sample_session))"
    by (simp add: sample_session_def sample_device session_start_def session_run_def satipSession_def Let_def)
qed (use session_reach.start [OF sample_session_reach] sample_session_tuned in \<open>simp_all add: session_start_def session_run_def\<close>)

lemma sample_answers:
  "smooth (sample_turns ! 0) {POLLOUT}" "l_addrs (sample_turns ! 0) = Some [Connecting 7]"
  "smooth (sample_turns ! 1) {POLLIN}" "l_recv (sample_turns ! 1) = Recv (bytes (setup_response 1 ''21a15c02'' 60 1400 5))"
  "hex_text ''21a15c02''" "length (setup_response 1 ''21a15c02'' 60 1400 5) < 1024"
  "smooth (sample_turns ! 2) {POLLIN}" "l_recv (sample_turns ! 2) = Recv (bytes (''RTSP/1.0 200 OK'' @ header_end))"
  "ok_response (''RTSP/1.0 200 OK'' @ header_end)" "[sample_turns ! 0, sample_turns ! 1, sample_turns ! 2] = sample_turns"
proof -
  show "length (setup_response 1 ''21a15c02'' 60 1400 5) < 1024"
    by (simp add: setup_response_def crlf_def header_end_def dec_nat_def digits.simps)
  show "hex_text ''21a15c02''" by (simp add: hex_text_def is_digit_of_def hex_val_def)
  show "ok_response (''RTSP/1.0 200 OK'' @ header_end)" by (simp add: ok_response_def header_end_def crlf_def)
qed (simp_all add: sample_turns_def smooth_def sample_loop_def ex_bool_eq)

theorem session_establishes_witness:
  "\<exists>s'. satipMainLoop sample_abi sample_turns (session_start sample_session) = Some (s', False) \<and>
     m_rtsp_status (ss_rtsp s') = RTSP_STATUS_SESSION_TRANSMITTING \<and> m_rtsp_session_id (ss_rtsp s') = ''21a15c02''"
  using session_establishes [OF sample_ready(1) refl sample_ready(2-4) disjI2 [OF sample_ready(5)] sample_answers(1,2) _
      sample_answers(3-5) _ _ _ _ sample_answers(6-9), of 7]
  unfolding sample_answers(10) by auto

section \<open>A change of the pids while the stream runs\<close>

text \<open>
  C5. No wake-up is lost: in any reachable state with a wakeup pipe, whatever the receiving thread does between two
  handlers of the loop, if the tap's pids change, a byte waits in the pipe, so that \<^verbatim>\<open>poll\<close> returns. And the next status
  call, with the stream playing, the session's identifiers known, no response awaited, sending possible and any change of pids pending, the tap's or
  the kernel's, brings the server all pids of the kernel and the tap. It has exactly these if the channel is newly tuned,
  or if the record is not stale. Otherwise, after \<^verbatim>\<open>DTV_CLEAR\<close> on the playing session, the client has forgotten
  what it asked for, and exactly the pids that the server had and the client's record has not stay with the server.
\<close>

theorem ca_change_reaches_server:
  assumes "session_reach H stale s" "receives s s'" "ss_pipe1 s \<ge> 0" "x = ss_rtsp s'"
  shows "(m_ca_pids (cfg x) \<noteq> m_ca_pids (cfg (ss_rtsp s)) \<longrightarrow> ss_drained s' < m_wakeups (cfg x)) \<and>
    (m_rtsp_status x = RTSP_STATUS_SESSION_TRANSMITTING \<and> \<not> m_wait_response x \<and> \<not> no_session x \<and>
       getPidStatus (cfg x) = CONFIG_STATUS_PID_CHANGED \<and> l_ok0 e \<longrightarrow>
     server_of (k_sent (ss_rtsp (loop_status e s'))) = wanted_pids (m_pid_list (cfg x)) \<union> m_ca_pids (cfg x) \<union>
       (if stale \<and> chan x \<noteq> CONFIG_STATUS_CHANNEL_CHANGED then server_of (k_sent x) - m_requested_pids (cfg x) else {}))"
proof (intro conjI impI)
  note r = receives_woken [OF assms(2)]
  assume "m_ca_pids (cfg x) \<noteq> m_ca_pids (cfg (ss_rtsp s))"
  then show "ss_drained s' < m_wakeups (cfg x)"
    using r(1,2) assms(3,4) session_piped [OF assms(1)] by (auto simp: woken_def piped_def)
next
  assume a: "m_rtsp_status x = RTSP_STATUS_SESSION_TRANSMITTING \<and> \<not> m_wait_response x \<and> \<not> no_session x \<and>
    getPidStatus (cfg x) = CONFIG_STATUS_PID_CHANGED \<and> l_ok0 e"
  have "client_ok stale x"
    unfolding assms(4) using receives_woken(3) [OF assms(2,1)] by (rule session_reach_ok)
  then show "server_of (k_sent (ss_rtsp (loop_status e s'))) = wanted_pids (m_pid_list (cfg x)) \<union> m_ca_pids (cfg x) \<union>
      (if stale \<and> chan x \<noteq> CONFIG_STATUS_CHANNEL_CHANGED then server_of (k_sent x) - m_requested_pids (cfg x) else {})"
    using a play_tells(1,2) [of stale x] play_tells(3) [of stale x "l_now0 e" "l_addrs e"] assms(4)
    by (auto simp: loop_status_def all_wanted_def)
qed

text \<open>The kernel's pid list arrives while the stream runs.\<close>

definition sample_pidlist :: loop_env where
  "sample_pidlist = sample_loop\<lparr>l_get := \<lambda>_. Some (sample_message\<lparr>v_type := 14, b_pidlist := [256]\<rparr>)\<rparr>"

lemma sample_pidlist_device:
  "loop_device sample_abi sample_pidlist s = s\<lparr>ss_rtsp := (ss_rtsp s)\<lparr>m_satip_config := updatePidList [256] (cfg (ss_rtsp s))\<rparr>\<rparr>"
  "\<not> clears sample_abi sample_pidlist s"
  by (simp_all add: loop_device_def sample_pidlist_def vtunerEvent_def msg_type_of_def setPidList_def clears_def Let_def)

lemma sample_playing:
  obtains s where "session_reach sample_abi False s" "ss_pipe1 s = 5" "\<not> no_session (ss_rtsp s)" "\<not> m_wait_response (ss_rtsp s)"
    "m_rtsp_status (ss_rtsp s) = RTSP_STATUS_SESSION_TRANSMITTING" "used_pids (m_pid_list (cfg (ss_rtsp s))) = {}"
    "ss_running s" "m_rx_data_pos (ss_rtsp s) = 0"
proof -
  let ?c = "cfg (ss_rtsp sample_session)" and ?d = "fst (getPlayData (fst (getSetupData (cfg (ss_rtsp sample_session)))))"
  have ready: "Connecting 7 \<in> set [Connecting 7]" "0 < (60 :: nat)" "60 < (2 :: nat) ^ 31" "0 < (5 :: nat)" "5 < (2 :: nat) ^ 31"
    by simp_all
  obtain s where s: "session_reach sample_abi False s" "calm RTSP_STATUS_SESSION_TRANSMITTING ?d (ss_rtsp s)"
    "m_rtsp_session_id (ss_rtsp s) = ''21a15c02''" "m_rtsp_stream_id (ss_rtsp s) = int 5"
    "ss_running s"
    by (rule three_turns [OF sample_ready(1) refl sample_ready(2-4) disjI2 [OF sample_ready(5)] sample_answers(1,2) ready(1)
        sample_answers(3-5) ready(2-5) sample_answers(6-9)]) (simp add: sample_ready(6))
  have c: "config_ok ?c" "m_status ?c = CONFIG_STATUS_CHANNEL_CHANGED"
    using reach_rtsp [OF sample_session_reach] sample_session_tuned(2) by simp_all
  have "m_pid_list ?c = m_pid_list (satipConfig (e_raw_config sample_env) (fe_kind_of 0) (m_settings blank_config))"
    by (simp add: sample_session_def sample_device satipSession_def setChannelChanged_def setWakeupFd_def Let_def)
  then have "wanted_pids (m_pid_list ?c) = {}"
    using satipConfig_empty_table [of "e_raw_config sample_env" "fe_kind_of 0" "m_settings blank_config"] used_pids_split by auto
  then have used: "used_pids (m_pid_list ?d) = {}" unfolding used_pids_split both_told [OF c] by simp
  have "ss_pipe1 sample_session = 5"
    by (simp add: sample_session_def sample_device satipSession_def sample_env_def Let_def)
  then have "m_wakeup_fd ?c = 5" using session_piped [OF sample_session_reach] by (simp add: piped_def)
  moreover have "config_ok (fst (getSetupData ?c))" using query_cfg_ok(1) [OF c(1), of RTSP_REQUEST_SETUP] by (simp add: query_cfg_def)
  ultimately have "m_wakeup_fd ?d = 5"
    using flow_query [OF c(1), of RTSP_REQUEST_SETUP] flow_query [of "fst (getSetupData ?c)" RTSP_REQUEST_PLAY]
    by (simp add: query_cfg_def flow_def)
  then have "ss_pipe1 s = 5" using session_piped [OF s(1)] s(2) by (simp add: piped_def calm_def)
  then show thesis by (rule that [OF s(1)]) (use s(2-5) used both_told(3) [OF c] in \<open>simp_all add: calm_def no_session_def\<close>)
qed

theorem ca_change_reaches_server_witness:
  "\<exists>s. session_reach sample_abi False s \<and> m_rtsp_status (ss_rtsp s) = RTSP_STATUS_SESSION_TRANSMITTING \<and>
     getPidStatus (cfg (ss_rtsp s)) = CONFIG_STATUS_PID_CHANGED \<and>
     server_of (k_sent (ss_rtsp (loop_status sample_loop s))) = {256} \<union> m_ca_pids (cfg (ss_rtsp s))"
proof -
  obtain s where s: "session_reach sample_abi False s" "ss_pipe1 s = 5" "\<not> no_session (ss_rtsp s)" "\<not> m_wait_response (ss_rtsp s)"
    "m_rtsp_status (ss_rtsp s) = RTSP_STATUS_SESSION_TRANSMITTING" "used_pids (m_pid_list (cfg (ss_rtsp s))) = {}"
    by (rule sample_playing)
  let ?s = "loop_device sample_abi sample_pidlist s" and ?c = "updatePidList [256] (cfg (ss_rtsp s))"
  have r: "session_reach sample_abi False ?s"
    using session_reach.device [OF s(1), of sample_pidlist] by (simp add: sample_pidlist_device)
  have n: "new_pids [256] = {256}" by (auto simp: new_pids_def listed_def MAX_PIDS_def)
  have "config_ok (cfg (ss_rtsp s))" using reach_rtsp [OF s(1)] by simp
  from updatePidList_run [OF this, of "[256]"]
  have w: "wanted_pids (m_pid_list ?c) = {256}" "m_pid_status ?c = CONFIG_STATUS_PID_CHANGED"
    using s(6) unfolding n by (auto simp: MAX_PIDS_def used_pids_split)
  have x: "l_ok0 sample_loop" "ss_pipe1 ?s \<ge> 0" using s(2) by (simp_all add: sample_loop_def sample_pidlist_device)
  have "m_rtsp_status (ss_rtsp ?s) = RTSP_STATUS_SESSION_TRANSMITTING \<and> \<not> m_wait_response (ss_rtsp ?s) \<and>
      \<not> no_session (ss_rtsp ?s) \<and> getPidStatus (cfg (ss_rtsp ?s)) = CONFIG_STATUS_PID_CHANGED"
    using s(3-5) w(2) by (simp add: sample_pidlist_device getPidStatus_def no_session_def)
  with ca_change_reaches_server [OF r receives.none x(2) refl, of sample_loop] x(1) w(1) r
  show ?thesis by (intro exI [of _ ?s]) (simp add: sample_pidlist_device)
qed

section \<open>From the stream to rest\<close>

text \<open>The stream runs, and the kernel has made the channel invalid.\<close>

lemma teardown_sent:
  assumes "calm RTSP_STATUS_SESSION_TRANSMITTING c (stopTimerKeepAliveMessage x)" "\<not> no_session x"
    and "m_status c = CONFIG_STATUS_CHANNEL_INVALID" "getPidStatus c = CONFIG_STATUS_PID_STATIONARY"
    and "tv_sec now1 < tv_sec now + 4" "y = handleRTSPStatus now addrs True x"
  shows "handleNextTimer now1 ok y = y" "m_rtsp_status y = RTSP_STATUS_SESSION_TEARDOWNING" "m_rtsp_request y = RTSP_REQUEST_TEARDOWN"
    "m_rx_data_pos y = 0" "cfg y = c" "length (m_timer_list y) = 3" "k_sent y = k_sent x @ [request_text RTSP_REQUEST_TEARDOWN x]"
proof -
  let ?x = "stopTimerKeepAliveMessage x"
  let ?w = "(sent_with (request_text RTSP_REQUEST_TEARDOWN ?x) c ?x)\<lparr>m_wait_response := True, m_rtsp_request := RTSP_REQUEST_TEARDOWN,
    m_rtsp_status := RTSP_STATUS_SESSION_TEARDOWNING\<rparr>"
  have x: "m_rtsp_status x = RTSP_STATUS_SESSION_TRANSMITTING" "cfg x = c" "\<not> m_wait_response x"
    using assms(1) by (simp_all add: calm_def timer_ops)
  have "\<not> no_session ?x" using assms(2) by (simp add: no_session_def timer_ops)
  then have send: "send_by_kind True RTSP_REQUEST_TEARDOWN ?x = (sent_with (request_text RTSP_REQUEST_TEARDOWN ?x) c ?x, RTSP_OK)"
    using assms(1) by (simp add: send_by_kind_eq send_msg_def next_cseq_def sent_with_def query_cfg_def calm_def)
  have y: "y = startTimerResetConnect now 4000 ?w"
    using x assms(3,4) send
    by (simp add: assms(6) handleRTSPStatus_def sendRequest_def getChannelStatus_def startTimerResetConnect_def with_timer_def)
  have w: "length (m_timer_list ?w) = 3" "\<not> timer_active T_KEEP ?w" "\<not> timer_active T_RECONNECT ?w" "m_rx_data_pos ?w = 0" "cfg ?w = c"
    using assms(1) by (simp_all add: calm_def sent_with_def timer_active_def)
  show "handleNextTimer now1 ok y = y"
    unfolding y using w assms(5) by (intro only_watchdog) simp_all
  show "m_rtsp_status y = RTSP_STATUS_SESSION_TEARDOWNING" "m_rtsp_request y = RTSP_REQUEST_TEARDOWN" "m_rx_data_pos y = 0"
    "cfg y = c" "length (m_timer_list y) = 3"
    using w by (simp_all add: y timer_ops)
  have "request_text RTSP_REQUEST_TEARDOWN ?x = request_text RTSP_REQUEST_TEARDOWN x"
    by (simp add: request_text_def teardown_text_def base_url_def cseq_line_def session_line_def timer_ops)
  then show "k_sent y = k_sent x @ [request_text RTSP_REQUEST_TEARDOWN x]" by (simp add: y timer_ops sent_with_def)
qed

lemma reset_idle:
  assumes "length (m_timer_list q) = 3"
  shows "m_rtsp_status (resetConnect now False q) = RTSP_STATUS_CONFIG_WAITING" "cfg (resetConnect now False q) = cfg q"
    "m_rtsp_session_id (resetConnect now False q) = []"
    "\<not> timer_active T_RESET (resetConnect now False q)" "\<not> timer_active T_KEEP (resetConnect now False q)"
    "\<not> timer_active T_RECONNECT (resetConnect now False q)" "m_reconnect_attempts (resetConnect now False q) = 0"
    "length (m_timer_list (resetConnect now False q)) = 3"
  using assms by (simp_all add: resetConnect_def Let_def close_fd_def timer_ops resetReconnectBackoff_def)

text \<open>Nothing open, nothing running, nothing to come before the next tuning.\<close>

definition at_rest :: "rtsp \<Rightarrow> bool" where
  "at_rest x \<longleftrightarrow> m_rtsp_status x = RTSP_STATUS_CONFIG_WAITING \<and> m_fd x = -1 \<and> k_open x = [] \<and> m_rtsp_session_id x = [] \<and>
     \<not> timer_active T_RESET x \<and> \<not> timer_active T_KEEP x \<and> \<not> timer_active T_RECONNECT x"

lemma rest_stays:
  assumes "at_rest x" "chan x = CONFIG_STATUS_CHANNEL_INVALID" "m_reconnect_attempts x = 0" "length (m_timer_list x) = 3"
  shows "handleRTSPStatus now addrs ok x = x" "handleNextTimer now ok x = x"
proof -
  show "handleRTSPStatus now addrs ok x = x"
    using assms by (cases x) (simp add: at_rest_def handleRTSPStatus_def getChannelStatus_def resetReconnectBackoff_def)
  have "\<not> timer_due now (m_timer_list x ! i)" if "i < 3" for i
  proof -
    have "i = 0 \<or> i = 1 \<or> i = 2" using that by auto
    then show ?thesis using assms(1) by (auto simp: at_rest_def timer_due_def timer_active_def)
  qed
  then show "handleNextTimer now ok x = x"
    unfolding handleNextTimer_def using assms(4) by (intro callNextTimer_idle) (auto simp: in_set_conv_nth)
qed

lemma turn_to_rest:
  fixes now1 :: timespec
  assumes "rtsp_ok x" "calm RTSP_STATUS_SESSION_TRANSMITTING c (stopTimerKeepAliveMessage x)" "\<not> no_session x"
    and "m_status c = CONFIG_STATUS_CHANNEL_INVALID" "getPidStatus c = CONFIG_STATUS_PID_STATIONARY"
    and "tv_sec now1 < tv_sec now + 4" "ok_response rx" "y = handleRTSPStatus now addrs True x"
  obtains z where "handlePollEvents now' env (Recv (bytes rx)) {POLLIN} y = Some z" "at_rest z" "chan z = CONFIG_STATUS_CHANNEL_INVALID"
    "m_reconnect_attempts z = 0" "length (m_timer_list z) = 3"
proof -
  note y = teardown_sent [OF assms(2-6,8)]
  have ok: "rtsp_ok y" unfolding assms(8) by (rule handleRTSPStatus_ok [OF assms(1)])
  have "m_rtsp_request y = RTSP_REQUEST_PLAY \<or> m_rtsp_request y = RTSP_REQUEST_TEARDOWN \<or> m_rtsp_request y = RTSP_REQUEST_OPTION"
    using y(3) by simp
  then obtain d where h: "handleResponse now' env (Recv (bytes rx)) y =
    Some ((stopTimerResetConnect y)\<lparr>m_rx_data := d, m_rx_data_pos := 0, m_wait_response := False,
      m_rtsp_request := RTSP_REQUEST_NONE\<rparr>, RTSP_RESPONSE_COMPLETE)"
    by (rule ok_response_run [OF ok y(4) assms(7)])
  let ?r = "(stopTimerResetConnect y)\<lparr>m_rx_data := d, m_rx_data_pos := 0, m_wait_response := False, m_rtsp_request := RTSP_REQUEST_NONE\<rparr>"
  have run: "handlePollEvents now' env (Recv (bytes rx)) {POLLIN} y = Some (resetConnect now' False ?r)"
    using y(2) h by (simp add: handlePollEvents_def)
  have "rtsp_ok (resetConnect now' False ?r)" by (rule handlePollEvents_ok [OF ok run])
  then have link: "link_ok (resetConnect now' False ?r)" by (simp add: rtsp_ok_def)
  have "length (m_timer_list ?r) = 3" using y(6) by (simp add: timer_ops)
  note r = reset_idle [OF this, of now']
  show thesis
    by (rule that [OF run])
      (use r link y(5) assms(4) in \<open>simp_all add: at_rest_def link_ok_def timer_ops\<close>)
qed

text \<open>With a change of the pids pending, the client tells it to the server first.\<close>

lemma turn_change:
  assumes "rtsp_ok x" "calm RTSP_STATUS_SESSION_TRANSMITTING c (stopTimerKeepAliveMessage x)" "\<not> no_session x"
    and "getPidStatus c = CONFIG_STATUS_PID_CHANGED" "tv_sec now1 < tv_sec now + 4" "ok_response rx"
  obtains z where "calm RTSP_STATUS_SESSION_TRANSMITTING (fst (getPlayData c)) z" "\<not> no_session z"
    "k_sent z = k_sent x @ [request_text RTSP_REQUEST_PLAY (stopTimerKeepAliveMessage x)]"
    "handlePollEvents now' env (Recv (bytes rx)) {POLLIN} (handleRTSPStatus now addrs True x) = Some z"
    "getPollEvent (handleRTSPStatus now addrs True x) \<noteq> {}"
    "handleNextTimer now1 ok (handleRTSPStatus now addrs True x) = handleRTSPStatus now addrs True x"
proof -
  let ?k = "stopTimerKeepAliveMessage x"
  let ?p = "?k\<lparr>m_rtsp_status := RTSP_STATUS_SESSION_PLAYING\<rparr>"
  have x: "m_rtsp_status x = RTSP_STATUS_SESSION_TRANSMITTING" "cfg x = c" "\<not> m_wait_response x"
    using assms(2) by (simp_all add: calm_def timer_ops)
  have len: "length (m_timer_list x) = 3" using assms(1) by (simp add: rtsp_ok_def)
  have twice: "stopTimerKeepAliveMessage ?p = ?p"
    using len by (cases x) (simp add: stopTimerKeepAliveMessage_def with_timer_def timer_stop_def)
  have sid: "\<not> no_session ?k" "\<not> no_session ?p" using assms(3) by (simp_all add: no_session_def timer_ops)
  have same_text: "request_text RTSP_REQUEST_PLAY ?p = request_text RTSP_REQUEST_PLAY ?k"
    by (simp add: request_text_def play_text_def base_url_def cseq_line_def session_line_def)
  have same: "handleRTSPStatus now addrs True x = handleRTSPStatus now addrs True ?p"
    using x assms(4) sid
    by (simp add: handleRTSPStatus_def sendRequest_def twice send_by_kind_eq send_msg_def same_text next_cseq_def
        startTimerResetConnect_def with_timer_def Let_def) (simp add: timer_ops)?
  have ok: "rtsp_ok ?p" using assms(1) x(1,3) by (auto simp: rtsp_ok_defs timer_ops)
  have calm: "calm RTSP_STATUS_SESSION_PLAYING c ?p" using assms(2) by (simp add: calm_def)
  obtain z where z: "calm RTSP_STATUS_SESSION_TRANSMITTING (fst (getPlayData c)) z" "m_rtsp_session_id z = m_rtsp_session_id ?p"
    "m_rtsp_stream_id z = m_rtsp_stream_id ?p" "k_sent z = k_sent ?p @ [request_text RTSP_REQUEST_PLAY (stopTimerKeepAliveMessage ?p)]"
    "handlePollEvents now' env (Recv (bytes rx)) {POLLIN} (handleRTSPStatus now addrs True ?p) = Some z"
    "getPollEvent (handleRTSPStatus now addrs True ?p) \<noteq> {}"
    "handleNextTimer now1 ok (handleRTSPStatus now addrs True ?p) = handleRTSPStatus now addrs True ?p"
    by (rule turn_play [OF ok calm assms(5) sid(2) assms(6)])
  have k: "k_sent z = k_sent x @ [request_text RTSP_REQUEST_PLAY ?k]"
    using z(4) unfolding twice same_text by (simp add: timer_ops)
  show thesis
    by (rule that [OF z(1) _ k z(5-7) [folded same]]) (use z(2,3) sid(1) in \<open>simp add: no_session_def\<close>)
qed

lemma play_settles:
  assumes "config_ok c" "getPidStatus c = CONFIG_STATUS_PID_CHANGED" "m_status c = CONFIG_STATUS_CHANNEL_INVALID"
  shows "getPidStatus (fst (getPlayData c)) = CONFIG_STATUS_PID_STATIONARY" "m_status (fst (getPlayData c)) = CONFIG_STATUS_CHANNEL_INVALID"
  using requested_ok(2) [OF tuned_ok(1) [OF assms(1)]] query_config(4) [OF assms(1)] assms(2,3)
  by (simp_all add: getPlayData_eq [OF assms(1)])

text \<open>The turn that ends the session.\<close>

lemma last_turn:
  assumes "rtsp_ok x" "x = ss_rtsp s" "ss_running s"
    and "calm RTSP_STATUS_SESSION_TRANSMITTING (cfg x) (stopTimerKeepAliveMessage x)" "\<not> no_session x"
    and "chan x = CONFIG_STATUS_CHANNEL_INVALID" "getPidStatus (cfg x) = CONFIG_STATUS_PID_STATIONARY"
    and ans: "smooth e {POLLIN}" "l_recv e = Recv (bytes rx)" "ok_response rx"
  shows "k_sent (ss_rtsp (loop_status e s)) = k_sent x @ [teardown_text x] \<and>
    (\<exists>s'. satipMainLoop H [e] s = Some (s', False) \<and> at_rest (ss_rtsp s') \<and>
       (\<forall>now addrs ok. handleRTSPStatus now addrs ok (ss_rtsp s') = ss_rtsp s' \<and>
          handleNextTimer now ok (ss_rtsp s') = ss_rtsp s'))"
proof -
  define y where "y = handleRTSPStatus (l_now0 e) (l_addrs e) True x"
  note t = teardown_sent [OF assms(4-7) smooth_time [OF ans(1)] y_def]
  obtain z where z: "handlePollEvents (l_now3 e) (l_frames e) (l_recv e) {POLLIN} y = Some z" "at_rest z"
    "chan z = CONFIG_STATUS_CHANNEL_INVALID" "m_reconnect_attempts z = 0" "length (m_timer_list z) = 3"
    unfolding ans(2) by (rule turn_to_rest [OF assms(1,4-7) smooth_time [OF ans(1)] ans(3) y_def])
  have poll: "getPollEvent y \<noteq> {}" using t(2) by (simp add: getPollEvent_def)
  obtain n where "loop_turn H e s = Some (s\<lparr>ss_rtsp := z, ss_drained := n\<rparr>, True)"
    by (rule smooth_run [OF ans(1) _ y_def [unfolded assms(2)] poll t(1) z(1)]) simp_all
  then have loop: "satipMainLoop H [e] s = Some (s\<lparr>ss_rtsp := z, ss_drained := n\<rparr>, False)" using assms(3) by simp
  have "ss_rtsp (loop_status e s) = y" using ans(1) by (simp add: loop_status_def smooth_def y_def assms(2))
  moreover have "request_text RTSP_REQUEST_TEARDOWN x = teardown_text x" by (simp add: request_text_def)
  ultimately show ?thesis
    using t(7) loop z(2) rest_stays [OF z(2-5)] by (intro conjI exI [of _ "s\<lparr>ss_rtsp := z, ss_drained := n\<rparr>"]) simp_all
qed

text \<open>
  C6. The session comes to rest. Take any reachable state of the running session with the stream running, the session's
  identifiers known, no response awaited, nothing left in the receive buffer and the channel made invalid by the kernel, and turns of the loop in which
  sending works, the timers are looked at less than four seconds after the status call, \<^verbatim>\<open>poll\<close> reports nothing at
  the device and something to read at the connection, and what is read is a response with status 200, complete, alone, shorter than 2048 bytes and without a body. If
  a change of the pids is pending, the first turn tells it to the server with PLAY, and the session still streams; otherwise that
  turn is left out. The next turn sends TEARDOWN for the session and ends with the connection closed, the session's
  identifier forgotten and no timer running; without a new tuning nothing happens after that.
\<close>

theorem session_comes_to_rest:
  assumes "session_reach H d s" "x = ss_rtsp s" "ss_running s"
    and "m_rtsp_status x = RTSP_STATUS_SESSION_TRANSMITTING" "\<not> m_wait_response x" "\<not> no_session x"
    and "m_rx_data_pos x = 0" "chan x = CONFIG_STATUS_CHANNEL_INVALID"
    and told: "smooth e0 {POLLIN}" "l_recv e0 = Recv (bytes rx0)" "ok_response rx0"
    and ans: "smooth e {POLLIN}" "l_recv e = Recv (bytes rx)" "ok_response rx"
  shows "\<exists>s1 s'. satipMainLoop H (if getPidStatus (cfg x) = CONFIG_STATUS_PID_CHANGED then [e0] else []) s = Some (s1, False) \<and>
      k_sent (ss_rtsp s1) = k_sent x @ (if getPidStatus (cfg x) = CONFIG_STATUS_PID_CHANGED
         then [request_text RTSP_REQUEST_PLAY (stopTimerKeepAliveMessage x)] else []) \<and>
      m_rtsp_status (ss_rtsp s1) = RTSP_STATUS_SESSION_TRANSMITTING \<and>
    k_sent (ss_rtsp (loop_status e s1)) = k_sent (ss_rtsp s1) @ [teardown_text (ss_rtsp s1)] \<and>
    satipMainLoop H [e] s1 = Some (s', False) \<and> at_rest (ss_rtsp s') \<and>
      (\<forall>now addrs ok. handleRTSPStatus now addrs ok (ss_rtsp s') = ss_rtsp s' \<and>
         handleNextTimer now ok (ss_rtsp s') = ss_rtsp s')"
proof -
  have x: "rtsp_ok x" "config_ok (cfg x)" "length (m_timer_list x) = 3" "\<not> timer_active T_RECONNECT x"
    using reach_rtsp [OF assms(1)] assms(4) by (auto simp: assms(2) rtsp_ok_def sched_ok_def)
  have calm: "calm RTSP_STATUS_SESSION_TRANSMITTING (cfg x) (stopTimerKeepAliveMessage x)"
    using assms(4,5,7) x(3,4) by (simp add: calm_def timer_ops)
  show ?thesis
  proof (cases "getPidStatus (cfg x) = CONFIG_STATUS_PID_CHANGED")
    case False
    then have "getPidStatus (cfg x) = CONFIG_STATUS_PID_STATIONARY" by (cases "getPidStatus (cfg x)") simp_all
    from last_turn [OF x(1) assms(2,3) calm assms(6,8) this ans, of H] show ?thesis
      using False assms(2-4) by auto
  next
    case True
    let ?y = "handleRTSPStatus (l_now0 e0) (l_addrs e0) True (ss_rtsp s)"
    obtain z where z: "calm RTSP_STATUS_SESSION_TRANSMITTING (fst (getPlayData (cfg x))) z" "\<not> no_session z"
      "k_sent z = k_sent x @ [request_text RTSP_REQUEST_PLAY (stopTimerKeepAliveMessage x)]"
      "handlePollEvents (l_now3 e0) (l_frames e0) (l_recv e0) {POLLIN} ?y = Some z"
      "getPollEvent ?y \<noteq> {}" "handleNextTimer (l_now1 e0) (l_ok1 e0) ?y = ?y"
      using turn_change [OF x(1) calm assms(6) True smooth_time [OF told(1)] told(3)] told(2) unfolding assms(2) by metis
    have "\<exists>s1. loop_turn H e0 s = Some (s1, True) \<and> ss_rtsp s1 = z \<and> ss_running s1 = ss_running s \<and>
        session_reach H (d \<and> \<not> retold (ss_rtsp s) ?y) s1"
      by (rule smooth_turn [OF told(1) _ refl z(5,6,4) assms(1)]) simp
    then obtain s1 where s1: "loop_turn H e0 s = Some (s1, True)" "z = ss_rtsp s1" "ss_running s1"
      "session_reach H (d \<and> \<not> retold (ss_rtsp s) ?y) s1"
      using assms(3) by auto
    have z': "rtsp_ok z" using reach_rtsp [OF s1(4)] by (simp add: s1(2))
    have "cfg z = fst (getPlayData (cfg x))" using z(1) by (simp add: calm_def)
    then have c: "chan z = CONFIG_STATUS_CHANNEL_INVALID" "getPidStatus (cfg z) = CONFIG_STATUS_PID_STATIONARY"
      "calm RTSP_STATUS_SESSION_TRANSMITTING (cfg z) (stopTimerKeepAliveMessage z)"
      using play_settles [OF x(2) True assms(8)] z(1) by (simp_all add: calm_def timer_ops)
    have "satipMainLoop H [e0] s = Some (s1, False)" using s1(1,3) assms(3) by simp
    moreover have "m_rtsp_status z = RTSP_STATUS_SESSION_TRANSMITTING" using z(1) by (simp add: calm_def)
    ultimately show ?thesis
      using last_turn [OF z' s1(2,3) c(3) z(2) c(1,2) ans, of H] z(3) True s1(2) by auto
  qed
qed

text \<open>The kernel switches the voltage off while the stream runs.\<close>

definition sample_standby :: loop_env where
  "sample_standby = sample_loop\<lparr>l_get := \<lambda>_. Some (sample_message\<lparr>v_type := 9\<rparr>)\<rparr>"

lemma sample_standby_device:
  "loop_device sample_abi sample_standby s = s\<lparr>ss_rtsp := (ss_rtsp s)\<lparr>m_satip_config := setVoltage SEC_VOLTAGE_OFF (cfg (ss_rtsp s))\<rparr>\<rparr>"
  by (simp add: loop_device_def sample_standby_def vtunerEvent_def msg_type_of_def sample_message_def Let_def)

theorem session_comes_to_rest_witness:
  "\<exists>s s1 s'. (\<exists>d. session_reach sample_abi d s) \<and> getPidStatus (cfg (ss_rtsp s)) = CONFIG_STATUS_PID_CHANGED \<and>
     satipMainLoop sample_abi [sample_turns ! 2] s = Some (s1, False) \<and>
     satipMainLoop sample_abi [sample_turns ! 2] s1 = Some (s', False) \<and> at_rest (ss_rtsp s')"
proof -
  obtain s where s: "session_reach sample_abi False s" "ss_pipe1 s = 5" "\<not> no_session (ss_rtsp s)" "\<not> m_wait_response (ss_rtsp s)"
    "m_rtsp_status (ss_rtsp s) = RTSP_STATUS_SESSION_TRANSMITTING" "used_pids (m_pid_list (cfg (ss_rtsp s))) = {}"
    "ss_running s" "m_rx_data_pos (ss_rtsp s) = 0"
    by (rule sample_playing)
  let ?s1 = "loop_device sample_abi sample_pidlist s"
  let ?s = "loop_device sample_abi sample_standby ?s1" and ?c = "updatePidList [256] (cfg (ss_rtsp s))"
  let ?v = "setVoltage SEC_VOLTAGE_OFF ?c"
  have n: "new_pids [256] = {256}" by (auto simp: new_pids_def listed_def MAX_PIDS_def)
  have "config_ok (cfg (ss_rtsp s))" using reach_rtsp [OF s(1)] by simp
  from updatePidList_run [OF this, of "[256]"] have "m_pid_status ?c = CONFIG_STATUS_PID_CHANGED"
    using s(6) unfolding n by (auto simp: MAX_PIDS_def used_pids_split)
  then have v: "m_status ?v = CONFIG_STATUS_CHANNEL_INVALID" "getPidStatus ?v = CONFIG_STATUS_PID_CHANGED"
    by (simp_all add: setVoltage_def getPidStatus_def)
  have r: "session_reach sample_abi ((False \<or> clears sample_abi sample_pidlist s) \<or> clears sample_abi sample_standby ?s1) ?s"
    by (rule session_reach.device [OF session_reach.device [OF s(1)]])
  have run: "ss_running ?s" and st: "m_rtsp_status (ss_rtsp ?s) = RTSP_STATUS_SESSION_TRANSMITTING" "\<not> m_wait_response (ss_rtsp ?s)"
    "\<not> no_session (ss_rtsp ?s)" "m_rx_data_pos (ss_rtsp ?s) = 0" "chan (ss_rtsp ?s) = CONFIG_STATUS_CHANNEL_INVALID"
    and p: "getPidStatus (cfg (ss_rtsp ?s)) = CONFIG_STATUS_PID_CHANGED"
    using s v by (simp_all add: sample_standby_device sample_pidlist_device no_session_def)
  from session_comes_to_rest [OF r refl run st sample_answers(7-9) sample_answers(7-9)]
  have "\<exists>s1 s'. satipMainLoop sample_abi [sample_turns ! 2] ?s = Some (s1, False) \<and>
      satipMainLoop sample_abi [sample_turns ! 2] s1 = Some (s', False) \<and> at_rest (ss_rtsp s')"
    unfolding p by (simp only: simp_thms if_True) blast
  with r p show ?thesis by blast
qed

end
