(* ===== verification/Options.thy ===== *)
theory Options
  imports C_Scan Config "HOL-Library.Mapping"
begin

text \<open>
  The settings file, \<^verbatim>\<open>optParser\<close> of \<^verbatim>\<open>src/option.h\<close> and \<^verbatim>\<open>src/option.cpp\<close>: one line per virtual tuner, an
  index and comma-separated attributes. Shown: a file that was written in this format is read
  back exactly, and a misspelt tuner type silently becomes satellite.
\<close>

section \<open>Reading\<close>

text \<open>
  The pieces that \<^verbatim>\<open>std::getline\<close> delivers: nothing for an empty text, and no empty piece behind a
  trailing delimiter.
\<close>

function (sequential) opt_split :: "char \<Rightarrow> string \<Rightarrow> string list" where
  "opt_split delim [] = []"
| "opt_split delim (c # cs) =
     takeWhile (\<lambda>x. x \<noteq> delim) (c # cs) # opt_split delim (drop 1 (dropWhile (\<lambda>x. x \<noteq> delim) (c # cs)))"
  by pat_completeness auto
termination
  by (relation "measure (\<lambda>(d, s). length s)") (auto simp: less_Suc_eq_le intro: le_trans [OF diff_le_self length_dropWhile_le])

definition vtunerOpt_new :: vtunerOpt where
  "vtunerOpt_new = \<lparr>o_vtuner_type = [], o_ipaddr = [], o_tcpdata = False, o_fe_type = -1, o_fe_number = 0,
     o_force_plts = False, o_port = [], o_ca_pids = False, o_ca_emm = True, o_ca_caids = {}\<rparr>"

definition isAvailable :: "vtunerOpt \<Rightarrow> bool" where
  "isAvailable o0 \<longleftrightarrow> \<not> (o_vtuner_type o0 \<noteq> ''satip_client'' \<or> o_fe_type o0 = -1 \<or> o_ipaddr o0 = [])"

text \<open>The table of the tuner types; \<^verbatim>\<open>operator[]\<close> gives 0 for a name that is not in it.\<close>

definition tuner_type_table :: "string \<Rightarrow> int" where
  "tuner_type_table s = (if s = ''DVB-S'' then 0 else if s = ''DVB-C'' then 1 else if s = ''DVB-T'' then 2 else 0)"

definition add_caid :: "string \<Rightarrow> int set \<Rightarrow> int set" where
  "add_caid t A = (if t = [] then A else
     (let caid = strtol 16 (c_str t) in if caid > 0 \<and> caid \<le> 0xffff then insert caid A else A))"

definition load_attr :: "string \<Rightarrow> vtunerOpt \<Rightarrow> vtunerOpt" where
  "load_attr item o0 =
     (let attr = opt_split CHR '':'' item in
      if length attr < 2 then o0
      else let key = attr ! 0; val = attr ! 1 in
      if key = ''vtuner_type'' then o0\<lparr>o_vtuner_type := val\<rparr>
      else if key = ''ipaddr'' then o0\<lparr>o_ipaddr := val\<rparr>
      else if key = ''tcpdata'' \<and> val = ''1'' then o0\<lparr>o_tcpdata := True\<rparr>
      else if key = ''tuner_type'' then o0\<lparr>o_fe_type := tuner_type_table val\<rparr>
      else if key = ''force_plts'' \<and> val = ''1'' then o0\<lparr>o_force_plts := True\<rparr>
      else if key = ''fe'' then o0\<lparr>o_fe_number := atoi (c_str val)\<rparr>
      else if key = ''port'' then o0\<lparr>o_port := val\<rparr>
      else if key = ''ca_pids'' then o0\<lparr>o_ca_pids := (val = ''1'')\<rparr>
      else if key = ''ca_emm'' then o0\<lparr>o_ca_emm := (val = ''1'')\<rparr>
      else if key = ''ca_caids'' then o0\<lparr>o_ca_caids := fold add_caid (opt_split CHR '';'' val) (o_ca_caids o0)\<rparr>
      else o0)"

type_synonym settings = "(int, vtunerOpt) mapping"

definition load_line :: "string \<Rightarrow> settings \<Rightarrow> settings" where
  "load_line line m =
     (let data = opt_split CHR ''='' line in
      if length data \<noteq> 2 then m
      else (let index = atoi (c_str (data ! 0));
                m = (if Mapping.lookup m index = None then Mapping.update index vtunerOpt_new m else m) in
            fold (\<lambda>item. Mapping.map_entry index (load_attr item)) (opt_split CHR '','' (data ! 1)) m))"

text \<open>The file's text, or \<open>None\<close> when it cannot be opened.\<close>

definition load :: "string option \<Rightarrow> settings \<Rightarrow> settings" where
  "load in_file m = (case in_file of None \<Rightarrow> m | Some s \<Rightarrow> fold load_line (opt_split CHR 0x0A s) m)"

definition optParser :: "string option \<Rightarrow> settings" where
  "optParser in_file = load in_file Mapping.empty"

definition opt_isEmpty :: "settings \<Rightarrow> bool" where
  "opt_isEmpty m \<longleftrightarrow> Mapping.is_empty m"

section \<open>Splitting and numbers\<close>

lemma opt_split_last: "delim \<notin> set x \<Longrightarrow> x \<noteq> [] \<Longrightarrow> opt_split delim x = [x]"
proof -
  assume d: "delim \<notin> set x" "x \<noteq> []"
  then have "takeWhile (\<lambda>c. c \<noteq> delim) (x @ []) = x \<and> dropWhile (\<lambda>c. c \<noteq> delim) (x @ []) = []"
    by (intro takeWhile_stop) auto
  moreover obtain c cs where "x = c # cs" using d(2) by (cases x) auto
  ultimately show ?thesis by (metis opt_split.simps drop_Nil append_Nil2)
qed

lemma opt_split_step: "delim \<notin> set x \<Longrightarrow> opt_split delim (x @ delim # rest) = x # opt_split delim rest"
proof -
  assume d: "delim \<notin> set x"
  have "takeWhile (\<lambda>c. c \<noteq> delim) (x @ delim # rest) = x \<and> dropWhile (\<lambda>c. c \<noteq> delim) (x @ delim # rest) = delim # rest"
    using d by (intro takeWhile_stop) auto
  moreover obtain c cs where "x @ delim # rest = c # cs" by (cases "x @ delim # rest") auto
  ultimately show ?thesis by (metis opt_split.simps(2) drop_Suc_Cons drop0 One_nat_def)
qed

lemma opt_split_join:
  "\<forall>x \<in> set xs. delim \<notin> set x \<and> x \<noteq> [] \<Longrightarrow> opt_split delim (join_with delim xs) = xs"
  by (induction delim xs rule: join_with.induct) (auto simp: opt_split_last opt_split_step)

lemma opt_split_pair:
  "delim \<notin> set k \<Longrightarrow> delim \<notin> set v \<Longrightarrow> opt_split delim (k @ delim # v) = (if v = [] then [k] else [k, v])"
  by (simp add: opt_split_step opt_split_last)

lemma opt_split_lines:
  "\<forall>x \<in> set xs. delim \<notin> set x \<Longrightarrow> opt_split delim (concat (map (\<lambda>x. x @ [delim]) xs)) = xs"
  by (induction xs) (simp_all add: opt_split_step)

lemma is_digit_zero [simp]: "\<not> is_digit CHR 0x00" by (simp add: is_digit_def)

lemma c_str_dec [simp]: "c_str (dec n) = dec n"
  using dec_chars [of "CHR 0x00" n] by (intro c_str_plain) auto

lemma atoi_dec:
  assumes "- (2 ^ 31) \<le> n" "n < 2 ^ 31"
  shows "atoi (dec n) = n"
proof (cases "n < 0")
  case True
  let ?m = "nat (- n)"
  have m: "?m < 2 ^ 63" using assms(1) by simp
  have sg: "split_sign (skip_space (dec n)) = (-1, dec_nat ?m)"
    using True by (simp add: dec_def skip_space_def split_sign_def isspace_def)
  have tw: "takeWhile (is_digit_of 10) (dec_nat ?m) = dec_nat ?m"
    using dec_nat_digits by (auto simp: takeWhile_eq_all_conv is_digit_of_10)
  have dv: "digits_value 10 (dec_nat ?m) = ?m" by (simp add: digits_value_10 dec_nat_digits)
  have "strtol 10 (dec n) = n"
    using True assms(1) by (simp add: strtol_def split_base_def clamp64_def sg tw dv Let_def)
  then show ?thesis using assms by (simp add: atoi_def s32_id)
next
  case False
  then show ?thesis
    using strtol_10_dec_nat [of "nat n" "[]"] assms by (simp add: atoi_def dec_def s32_id)
qed

lemma hex_digit_char: "d < 16 \<Longrightarrow> hex_val (digit_char d) = Some d"
  by (simp add: hex_val_def digit_char_def Let_def)

lemma hex_digits:
  "list_all (is_digit_of 16) (digits 16 n) \<and> digits_value 16 (digits 16 n) = n \<and> digits 16 n \<noteq> []"
proof (induction n rule: less_induct)
  case (less n)
  show ?case
  proof (cases "n < 16")
    case True
    then show ?thesis by (simp add: digits.simps [of 16 n] is_digit_of_def digits_value_def hex_digit_char)
  next
    case False
    then have "digits 16 n = digits 16 (n div 16) @ [digit_char (n mod 16)]" by (simp add: digits.simps [of 16 n])
    then show ?thesis
      using less.IH [of "n div 16"] False by (simp add: is_digit_of_def digits_value_def hex_digit_char)
  qed
qed

lemma hex_digit_plain: "c \<in> set (digits 16 n) \<Longrightarrow> is_digit_of 16 c"
  using hex_digits [of n] by (simp add: list_all_iff)

lemma not_hex_digit [simp]:
  "\<not> is_digit_of 16 CHR 0x00" "\<not> is_digit_of 16 CHR ''x''" "\<not> is_digit_of 16 CHR ''X''" "\<not> is_digit_of 16 CHR ''-''"
  "\<not> is_digit_of 16 CHR ''+''" "\<not> is_digit_of 16 CHR '';''" "\<not> is_digit_of 16 CHR '':''" "\<not> is_digit_of 16 CHR '',''"
  "\<not> is_digit_of 16 CHR ''=''" "\<not> is_digit_of 16 CHR 0x0A"
  by (simp_all add: is_digit_of_def hex_val_def)

lemma strtol_16_digits:
  assumes "n < 2 ^ 63"
  shows "strtol 16 (digits 16 n) = int n"
proof -
  let ?s = "digits 16 n"
  obtain c cs where c: "?s = c # cs" using hex_digits [of n] by (cases ?s) auto
  have "is_digit_of 16 c" using hex_digit_plain [of c n] c by simp
  then have "\<not> isspace c" "c \<noteq> CHR ''-''" "c \<noteq> CHR ''+''"
    by (auto simp: is_digit_of_def hex_val_def isspace_def Let_def split: if_splits)
  then have sg: "split_sign (skip_space ?s) = (1, ?s)" by (simp add: c skip_space_def split_sign_def)
  have sb: "split_base 16 ?s = (16, ?s)"
  proof -
    have "?s ! Suc 0 \<in> set ?s" if "length ?s > 2" using that by simp
    then have "?s ! Suc 0 \<noteq> CHR ''x''" "?s ! Suc 0 \<noteq> CHR ''X''" if "length ?s > 2"
      using hex_digit_plain [of "?s ! Suc 0" n] that by auto
    then show ?thesis by (auto simp: split_base_def)
  qed
  have tw: "takeWhile (is_digit_of 16) ?s = ?s" using hex_digits [of n] by (simp add: takeWhile_eq_all_conv list_all_iff)
  show ?thesis using hex_digits [of n] assms by (simp add: strtol_def clamp64_def sg sb tw Let_def)
qed

section \<open>A written file is read back\<close>

definition type_name :: "int \<Rightarrow> string" where
  "type_name n = (if n = 0 then ''DVB-S'' else if n = 1 then ''DVB-C'' else ''DVB-T'')"

definition flag :: "bool \<Rightarrow> string" where
  "flag b = (if b then ''1'' else ''0'')"

definition attr_text :: "string \<Rightarrow> string \<Rightarrow> string" where
  "attr_text k v = k @ CHR '':'' # v"

definition caids_text :: "int set \<Rightarrow> string" where
  "caids_text A = join_with CHR '';'' (map (\<lambda>n. digits 16 (nat n)) (sorted_list_of_set A))"

definition opt_attrs :: "vtunerOpt \<Rightarrow> (string \<times> string) list" where
  "opt_attrs o0 =
     [(''vtuner_type'', o_vtuner_type o0), (''ipaddr'', o_ipaddr o0), (''tcpdata'', flag (o_tcpdata o0)),
      (''tuner_type'', type_name (o_fe_type o0)), (''force_plts'', flag (o_force_plts o0)),
      (''fe'', dec (o_fe_number o0)), (''port'', o_port o0), (''ca_pids'', flag (o_ca_pids o0)),
      (''ca_emm'', flag (o_ca_emm o0)), (''ca_caids'', caids_text (o_ca_caids o0))]"

definition opt_line :: "int \<times> vtunerOpt \<Rightarrow> string" where
  "opt_line io = dec (fst io) @ CHR ''='' # join_with CHR '','' (map (\<lambda>(k, v). attr_text k v) (opt_attrs (snd io)))"

definition plain_value :: "string \<Rightarrow> bool" where
  "plain_value s \<longleftrightarrow> CHR ''='' \<notin> set s \<and> CHR '','' \<notin> set s \<and> CHR '':'' \<notin> set s \<and> CHR 0x0A \<notin> set s"

definition opt_ok :: "int \<times> vtunerOpt \<Rightarrow> bool" where
  "opt_ok io \<longleftrightarrow> (case io of (i, o0) \<Rightarrow> - (2 ^ 31) \<le> i \<and> i < 2 ^ 31 \<and>
     plain_value (o_vtuner_type o0) \<and> plain_value (o_ipaddr o0) \<and> plain_value (o_port o0) \<and>
     o_fe_type o0 \<in> {0, 1, 2} \<and> - (2 ^ 31) \<le> o_fe_number o0 \<and> o_fe_number o0 < 2 ^ 31 \<and>
     o_ca_caids o0 \<subseteq> {1..0xffff})"

lemma plain_value_dec [simp]: "plain_value (dec n)"
  by (simp add: plain_value_def not_in_dec is_digit_def)

lemma not_in_hex_digits: "\<not> is_digit_of 16 c \<Longrightarrow> c \<notin> set (digits 16 n)"
  using hex_digit_plain by blast

lemma not_in_caids: "\<not> is_digit_of 16 c \<Longrightarrow> c \<noteq> CHR '';'' \<Longrightarrow> c \<notin> set (caids_text A)"
  unfolding caids_text_def using join_with_chars hex_digit_plain by fastforce

lemma plain_value_simps [simp]: "plain_value (flag b)" "plain_value (type_name n)" "plain_value (caids_text A)"
  by (auto simp: plain_value_def flag_def type_name_def not_in_caids)

lemma opt_attrs_plain:
  assumes "opt_ok (i, o0)" "(k, v) \<in> set (opt_attrs o0)"
  shows "plain_value k \<and> plain_value v"
  using assms by (auto simp: opt_attrs_def opt_ok_def) (auto simp: plain_value_def)

lemma load_attr_text:
  assumes "plain_value k" "plain_value v"
  shows "load_attr (attr_text k v) o0 = (if v = [] then o0 else
      if k = ''vtuner_type'' then o0\<lparr>o_vtuner_type := v\<rparr>
      else if k = ''ipaddr'' then o0\<lparr>o_ipaddr := v\<rparr>
      else if k = ''tcpdata'' \<and> v = ''1'' then o0\<lparr>o_tcpdata := True\<rparr>
      else if k = ''tuner_type'' then o0\<lparr>o_fe_type := tuner_type_table v\<rparr>
      else if k = ''force_plts'' \<and> v = ''1'' then o0\<lparr>o_force_plts := True\<rparr>
      else if k = ''fe'' then o0\<lparr>o_fe_number := atoi (c_str v)\<rparr>
      else if k = ''port'' then o0\<lparr>o_port := v\<rparr>
      else if k = ''ca_pids'' then o0\<lparr>o_ca_pids := (v = ''1'')\<rparr>
      else if k = ''ca_emm'' then o0\<lparr>o_ca_emm := (v = ''1'')\<rparr>
      else if k = ''ca_caids'' then o0\<lparr>o_ca_caids := fold add_caid (opt_split CHR '';'' v) (o_ca_caids o0)\<rparr>
      else o0)"
proof -
  have "opt_split CHR '':'' (attr_text k v) = (if v = [] then [k] else [k, v])"
    unfolding attr_text_def using assms by (intro opt_split_pair) (simp_all add: plain_value_def)
  then show ?thesis by (simp add: load_attr_def Let_def)
qed

lemma add_caid_digits: "n \<in> {1..0xffff} \<Longrightarrow> add_caid (digits 16 (nat n)) A = insert n A"
proof -
  assume n: "n \<in> {1..0xffff}"
  have "c_str (digits 16 (nat n)) = digits 16 (nat n)" by (simp add: c_str_plain not_in_hex_digits)
  moreover have "strtol 16 (digits 16 (nat n)) = n" using n strtol_16_digits [of "nat n"] by auto
  ultimately show ?thesis using n hex_digits [of "nat n"] by (simp add: add_caid_def)
qed

lemma caids_read:
  assumes "A \<subseteq> {1..0xffff}"
  shows "fold add_caid (opt_split CHR '';'' (caids_text A)) {} = A"
proof -
  let ?xs = "sorted_list_of_set A"
  have fin: "finite A" using assms finite_subset by blast
  have "opt_split CHR '';'' (caids_text A) = map (\<lambda>n. digits 16 (nat n)) ?xs"
    unfolding caids_text_def using hex_digits by (intro opt_split_join) (auto simp: not_in_hex_digits)
  moreover have "fold add_caid (map (\<lambda>n. digits 16 (nat n)) xs) B = set xs \<union> B" if "set xs \<subseteq> {1..0xffff}" for xs B
    using that by (induction xs arbitrary: B) (auto simp: add_caid_digits)
  ultimately show ?thesis using fin assms by simp
qed

lemma caids_text_empty: "A \<subseteq> {1..0xffff} \<Longrightarrow> caids_text A = [] \<Longrightarrow> A = {}"
  using caids_read [of A] by simp

text \<open>What each attribute does to settings that have the default value for it.\<close>

lemma load_attr_steps:
  "plain_value v \<Longrightarrow> o_vtuner_type o0 = [] \<Longrightarrow> load_attr (attr_text ''vtuner_type'' v) o0 = o0\<lparr>o_vtuner_type := v\<rparr>"
  "plain_value v \<Longrightarrow> o_ipaddr o0 = [] \<Longrightarrow> load_attr (attr_text ''ipaddr'' v) o0 = o0\<lparr>o_ipaddr := v\<rparr>"
  "\<not> o_tcpdata o0 \<Longrightarrow> load_attr (attr_text ''tcpdata'' (flag b)) o0 = o0\<lparr>o_tcpdata := b\<rparr>"
  "n \<in> {0, 1, 2} \<Longrightarrow> load_attr (attr_text ''tuner_type'' (type_name n)) o0 = o0\<lparr>o_fe_type := n\<rparr>"
  "\<not> o_force_plts o0 \<Longrightarrow> load_attr (attr_text ''force_plts'' (flag b)) o0 = o0\<lparr>o_force_plts := b\<rparr>"
  "atoi (dec n) = n \<Longrightarrow> load_attr (attr_text ''fe'' (dec n)) o0 = o0\<lparr>o_fe_number := n\<rparr>"
  "plain_value v \<Longrightarrow> o_port o0 = [] \<Longrightarrow> load_attr (attr_text ''port'' v) o0 = o0\<lparr>o_port := v\<rparr>"
  "load_attr (attr_text ''ca_pids'' (flag b)) o0 = o0\<lparr>o_ca_pids := b\<rparr>"
  "load_attr (attr_text ''ca_emm'' (flag b)) o0 = o0\<lparr>o_ca_emm := b\<rparr>"
  "A \<subseteq> {1..0xffff} \<Longrightarrow> o_ca_caids o0 = {} \<Longrightarrow> load_attr (attr_text ''ca_caids'' (caids_text A)) o0 = o0\<lparr>o_ca_caids := A\<rparr>"
proof -
  have k: "plain_value ''vtuner_type''" "plain_value ''ipaddr''" "plain_value ''tcpdata''" "plain_value ''tuner_type''"
    "plain_value ''force_plts''" "plain_value ''fe''" "plain_value ''port''" "plain_value ''ca_pids''"
    "plain_value ''ca_emm''" "plain_value ''ca_caids''"
    by (simp_all add: plain_value_def)
  have "load_attr (attr_text ''vtuner_type'' v) o0 = (if v = [] then o0 else o0\<lparr>o_vtuner_type := v\<rparr>)"
    "load_attr (attr_text ''ipaddr'' v) o0 = (if v = [] then o0 else o0\<lparr>o_ipaddr := v\<rparr>)"
    "load_attr (attr_text ''port'' v) o0 = (if v = [] then o0 else o0\<lparr>o_port := v\<rparr>)" if "plain_value v" for v
    using load_attr_text [OF k(1) that] load_attr_text [OF k(2) that] load_attr_text [OF k(7) that] by simp_all
  then show "plain_value v \<Longrightarrow> o_vtuner_type o0 = [] \<Longrightarrow> load_attr (attr_text ''vtuner_type'' v) o0 = o0\<lparr>o_vtuner_type := v\<rparr>"
    "plain_value v \<Longrightarrow> o_ipaddr o0 = [] \<Longrightarrow> load_attr (attr_text ''ipaddr'' v) o0 = o0\<lparr>o_ipaddr := v\<rparr>"
    "plain_value v \<Longrightarrow> o_port o0 = [] \<Longrightarrow> load_attr (attr_text ''port'' v) o0 = o0\<lparr>o_port := v\<rparr>"
    by auto
  have f: "flag b \<noteq> []" "(flag b = ''1'') = b" for b by (simp_all add: flag_def)
  have fl: "plain_value (flag b)" for b by simp
  show "\<not> o_tcpdata o0 \<Longrightarrow> load_attr (attr_text ''tcpdata'' (flag b)) o0 = o0\<lparr>o_tcpdata := b\<rparr>"
    using load_attr_text [OF k(3) fl] by (simp add: f)
  show "\<not> o_force_plts o0 \<Longrightarrow> load_attr (attr_text ''force_plts'' (flag b)) o0 = o0\<lparr>o_force_plts := b\<rparr>"
    using load_attr_text [OF k(5) fl] by (simp add: f)
  show "load_attr (attr_text ''ca_pids'' (flag b)) o0 = o0\<lparr>o_ca_pids := b\<rparr>"
    using load_attr_text [OF k(8) fl] by (simp add: f)
  show "load_attr (attr_text ''ca_emm'' (flag b)) o0 = o0\<lparr>o_ca_emm := b\<rparr>"
    using load_attr_text [OF k(9) fl] by (simp add: f)
  have t: "type_name n \<noteq> []" "plain_value (type_name n)" for n by (simp_all add: type_name_def plain_value_def)
  have "tuner_type_table (type_name n) = n" if "n \<in> {0, 1, 2}"
    using that by (auto simp: tuner_type_table_def type_name_def)
  then show "n \<in> {0, 1, 2} \<Longrightarrow> load_attr (attr_text ''tuner_type'' (type_name n)) o0 = o0\<lparr>o_fe_type := n\<rparr>"
    using load_attr_text [OF k(4) t(2)] t(1) by simp
  show "atoi (dec n) = n \<Longrightarrow> load_attr (attr_text ''fe'' (dec n)) o0 = o0\<lparr>o_fe_number := n\<rparr>"
    using load_attr_text [OF k(6) plain_value_dec] by simp
  show "A \<subseteq> {1..0xffff} \<Longrightarrow> o_ca_caids o0 = {} \<Longrightarrow> load_attr (attr_text ''ca_caids'' (caids_text A)) o0 = o0\<lparr>o_ca_caids := A\<rparr>"
    using caids_text_empty [of A] caids_read [of A] load_attr_text [OF k(10) plain_value_simps(3), of A o0]
    by (cases "caids_text A = []") simp_all
qed

lemma load_attrs:
  assumes "opt_ok (i, o0)"
  shows "fold load_attr (map (\<lambda>(k, v). attr_text k v) (opt_attrs o0)) vtunerOpt_new = o0"
proof -
  have a: "plain_value (o_vtuner_type o0)" "plain_value (o_ipaddr o0)" "plain_value (o_port o0)"
    "o_fe_type o0 \<in> {0, 1, 2}" "o_ca_caids o0 \<subseteq> {1..0xffff}" "atoi (dec (o_fe_number o0)) = o_fe_number o0"
    using assms by (auto simp: opt_ok_def intro: atoi_dec)
  show ?thesis
    by (simp add: opt_attrs_def vtunerOpt_new_def load_attr_steps a del: insert_iff)
qed

lemma fold_map_entry:
  "Mapping.lookup m i = Some x \<Longrightarrow> fold (\<lambda>a. Mapping.map_entry i (f a)) xs m = Mapping.update i (fold f xs x) m"
proof (induction xs arbitrary: m x)
  case Nil
  then show ?case by (intro mapping_eqI) (auto simp: lookup_update')
next
  case (Cons a xs)
  have "Mapping.update i y (Mapping.map_entry i (f a) m) = Mapping.update i y m" for y
    by (intro mapping_eqI) (simp add: lookup_update' lookup_map_entry')
  then show ?case using Cons by (simp add: lookup_map_entry')
qed

lemma attr_text_plain:
  assumes "opt_ok (i, o0)" "t \<in> set (map (\<lambda>(k, v). attr_text k v) (opt_attrs o0))"
  shows "CHR ''='' \<notin> set t" "CHR '','' \<notin> set t" "CHR 0x0A \<notin> set t" "t \<noteq> []"
  using assms opt_attrs_plain [OF assms(1)] by (auto simp: attr_text_def plain_value_def)

lemma load_line_text:
  assumes "opt_ok (i, o0)" "Mapping.lookup m i = None"
  shows "load_line (opt_line (i, o0)) m = Mapping.update i o0 m"
proof -
  let ?ts = "map (\<lambda>(k, v). attr_text k v) (opt_attrs o0)"
  note p = attr_text_plain [OF assms(1)]
  have "CHR ''='' \<notin> set (join_with CHR '','' ?ts)" using join_with_chars [of "CHR ''=''" "CHR '',''" ?ts] p(1) by auto
  moreover have "join_with CHR '','' ?ts \<noteq> []"
    using join_with_eq_Nil [of ?ts] p(4) by (simp add: opt_attrs_def attr_text_def)
  ultimately have "opt_split CHR ''='' (opt_line (i, o0)) = [dec i, join_with CHR '','' ?ts]"
    by (simp add: opt_line_def opt_split_pair not_in_dec)
  moreover have "opt_split CHR '','' (join_with CHR '','' ?ts) = ?ts" using p(2,4) by (intro opt_split_join) blast
  moreover have "atoi (dec i) = i" using assms(1) by (intro atoi_dec) (simp_all add: opt_ok_def)
  ultimately have "load_line (opt_line (i, o0)) m =
      fold (\<lambda>item. Mapping.map_entry i (load_attr item)) ?ts (Mapping.update i vtunerOpt_new m)"
    using assms(2) by (simp add: load_line_def)
  also have "\<dots> = Mapping.update i (fold load_attr ?ts vtunerOpt_new) (Mapping.update i vtunerOpt_new m)"
    by (intro fold_map_entry) (simp add: lookup_update)
  also have "\<dots> = Mapping.update i o0 m"
    unfolding load_attrs [OF assms(1)] by (intro mapping_eqI) (simp add: lookup_update')
  finally show ?thesis .
qed

lemma load_lines_text:
  "distinct (map fst os) \<Longrightarrow> \<forall>io \<in> set os. opt_ok io \<Longrightarrow> \<forall>io \<in> set os. Mapping.lookup m (fst io) = None \<Longrightarrow>
   Mapping.lookup (fold load_line (map opt_line os) m) = Mapping.lookup m ++ map_of os"
proof (induction os arbitrary: m)
  case (Cons io os)
  obtain i o0 where io: "io = (i, o0)" by (cases io)
  have step: "load_line (opt_line io) m = Mapping.update i o0 m"
    unfolding io using Cons.prems by (intro load_line_text) (simp_all add: io)
  have "\<forall>io \<in> set os. Mapping.lookup (Mapping.update i o0 m) (fst io) = None"
    using Cons.prems by (auto simp: io lookup_update' rev_image_eqI)
  then have "Mapping.lookup (fold load_line (map opt_line os) (Mapping.update i o0 m)) =
      Mapping.lookup (Mapping.update i o0 m) ++ map_of os"
    using Cons.IH [of "Mapping.update i o0 m"] Cons.prems by simp
  moreover have "Mapping.lookup (Mapping.update i o0 m) ++ map_of os = Mapping.lookup m ++ map_of (io # os)"
  proof (rule ext)
    fix j
    have "map_of os i = None" using Cons.prems(1) by (simp add: io map_of_eq_None_iff)
    then show "(Mapping.lookup (Mapping.update i o0 m) ++ map_of os) j = (Mapping.lookup m ++ map_of (io # os)) j"
      by (auto simp: io map_add_def lookup_update' split: option.split)
  qed
  ultimately show ?case by (simp only: list.map fold_simps step)
qed simp

definition file_text :: "(int \<times> vtunerOpt) list \<Rightarrow> string" where
  "file_text os = concat (map (\<lambda>io. opt_line io @ [CHR 0x0A]) os)"

lemma optParser_written:
  assumes "distinct (map fst os)" "\<forall>io \<in> set os. opt_ok io"
  shows "Mapping.lookup (optParser (Some (file_text os))) = map_of os"
proof -
  have "CHR 0x0A \<notin> set (opt_line io)" if "io \<in> set os" for io
  proof -
    obtain i o0 where io: "io = (i, o0)" by (cases io)
    let ?ts = "map (\<lambda>(k, v). attr_text k v) (opt_attrs o0)"
    have "CHR 0x0A \<notin> set (join_with CHR '','' ?ts)"
      using assms(2) that attr_text_plain(3) [of i o0] join_with_chars [of "CHR 0x0A" "CHR '',''" ?ts] by (auto simp: io)
    then show ?thesis by (simp add: io opt_line_def not_in_dec is_digit_def)
  qed
  then have "opt_split CHR 0x0A (concat (map (\<lambda>x. x @ [CHR 0x0A]) (map opt_line os))) = map opt_line os"
    by (intro opt_split_lines) auto
  then show ?thesis
    using load_lines_text [OF assms, of Mapping.empty]
    by (auto simp: file_text_def optParser_def load_def map_add_def fun_eq_iff comp_def split: option.splits)
qed

text \<open>
  C40. The settings file round trip: settings written in the file's format, one line per tuner, are
  read back exactly, every attribute and no other index.
\<close>

theorem optParser_round_trip:
  assumes "distinct (map fst os)" "\<forall>io \<in> set os. opt_ok io"
  shows "Mapping.lookup (optParser (Some (file_text os))) = map_of os"
  by (rule optParser_written [OF assms])

theorem optParser_round_trip_witness:
  "Mapping.lookup (optParser (Some (opt_line (1, vtunerOpt_new\<lparr>o_vtuner_type := ''satip_client'', o_ipaddr := ''192.168.0.1'',
     o_fe_type := 0, o_ca_caids := {0x1833, 0x09c4}\<rparr>) @ [CHR 0x0A]))) 1 =
   Some (vtunerOpt_new\<lparr>o_vtuner_type := ''satip_client'', o_ipaddr := ''192.168.0.1'', o_fe_type := 0,
     o_ca_caids := {0x1833, 0x09c4}\<rparr>)"
  using optParser_round_trip [of "[(1, vtunerOpt_new\<lparr>o_vtuner_type := ''satip_client'', o_ipaddr := ''192.168.0.1'',
     o_fe_type := 0, o_ca_caids := {0x1833, 0x09c4}\<rparr>)]"]
  by (simp add: file_text_def opt_ok_def vtunerOpt_new_def plain_value_def)

section \<open>Any file\<close>

text \<open>
  What the rest of the program may rely on in an entry, whatever the file holds: the tuner type is
  unset or one of the three, the numbers fit their types, the conditional access systems are 16-bit
  numbers other than 0, and the texts have no separator of the format in them.
\<close>

definition plain_text :: "string \<Rightarrow> bool" where
  "plain_text s \<longleftrightarrow> set s \<inter> {CHR 0x0A, CHR ''='', CHR '','', CHR '':''} = {}"

definition opt_typed :: "vtunerOpt \<Rightarrow> bool" where
  "opt_typed o0 \<longleftrightarrow> o_fe_type o0 \<in> {-1, 0, 1, 2} \<and> o_fe_number o0 \<in> {-(2 ^ 31)..<2 ^ 31} \<and>
     o_ca_caids o0 \<subseteq> {1..0xffff} \<and> plain_text (o_vtuner_type o0) \<and> plain_text (o_ipaddr o0) \<and> plain_text (o_port o0)"

definition settings_typed :: "settings \<Rightarrow> bool" where
  "settings_typed m \<longleftrightarrow> (\<forall>i o0. Mapping.lookup m i = Some o0 \<longrightarrow> i \<in> {-(2 ^ 31)..<2 ^ 31} \<and> opt_typed o0)"

lemma opt_split_parts: "x \<in> set (opt_split d s) \<Longrightarrow> set x \<subseteq> set s - {d}"
proof (induction d s rule: opt_split.induct)
  case (2 d c cs)
  let ?s = "c # cs"
  have "set (takeWhile (\<lambda>x. x \<noteq> d) ?s) \<subseteq> set ?s - {d}" using set_takeWhileD [of _ "\<lambda>x. x \<noteq> d" ?s] by blast
  moreover have "set (drop 1 (dropWhile (\<lambda>x. x \<noteq> d) ?s)) \<subseteq> set ?s"
    using set_drop_subset [of 1 "dropWhile (\<lambda>x. x \<noteq> d) ?s"] set_dropWhileD [of _ "\<lambda>x. x \<noteq> d" ?s] by blast
  ultimately show ?case using 2 by auto
qed simp

lemma atoi_range: "atoi s \<in> {-(2 ^ 31)..<2 ^ 31}"
  using s32_range by (simp add: atoi_def)

lemma add_caids_typed: "A \<subseteq> {1..0xffff} \<Longrightarrow> fold add_caid ts A \<subseteq> {1..0xffff}"
  by (induction ts arbitrary: A) (auto simp: add_caid_def Let_def)

lemma opt_typed_update:
  assumes "opt_typed o0"
  shows "plain_text v \<Longrightarrow> opt_typed (o0\<lparr>o_vtuner_type := v\<rparr>)" "plain_text v \<Longrightarrow> opt_typed (o0\<lparr>o_ipaddr := v\<rparr>)"
    "plain_text v \<Longrightarrow> opt_typed (o0\<lparr>o_port := v\<rparr>)" "opt_typed (o0\<lparr>o_tcpdata := b\<rparr>)" "opt_typed (o0\<lparr>o_force_plts := b\<rparr>)"
    "opt_typed (o0\<lparr>o_ca_pids := b\<rparr>)" "opt_typed (o0\<lparr>o_ca_emm := b\<rparr>)" "opt_typed (o0\<lparr>o_fe_type := tuner_type_table v\<rparr>)"
    "opt_typed (o0\<lparr>o_fe_number := atoi v\<rparr>)" "opt_typed (o0\<lparr>o_ca_caids := fold add_caid ts (o_ca_caids o0)\<rparr>)"
  using assms atoi_range [of v] add_caids_typed [of "o_ca_caids o0" ts]
  by (simp_all add: opt_typed_def tuner_type_table_def)

lemma load_attr_typed:
  assumes "opt_typed o0" "set item \<inter> {CHR 0x0A, CHR ''='', CHR '',''} = {}"
  shows "opt_typed (load_attr item o0)"
proof (cases "length (opt_split CHR '':'' item) < 2")
  case False
  then have "opt_split CHR '':'' item ! 1 \<in> set (opt_split CHR '':'' item)" by simp
  then have "plain_text (opt_split CHR '':'' item ! 1)"
    using assms(2) opt_split_parts [of _ "CHR '':''" item] by (fastforce simp: plain_text_def)
  then show ?thesis
    unfolding load_attr_def Let_def using opt_typed_update [OF assms(1)] assms(1) False by (simp del: One_nat_def)
qed (simp add: load_attr_def assms(1))

lemma settings_typed_attrs:
  assumes "settings_typed m" "\<forall>x \<in> set xs. set x \<inter> {CHR 0x0A, CHR ''='', CHR '',''} = {}"
  shows "settings_typed (fold (\<lambda>item. Mapping.map_entry i (load_attr item)) xs m)"
  using assms
proof (induction xs arbitrary: m)
  case (Cons x xs)
  have "settings_typed (Mapping.map_entry i (load_attr x) m)"
    using Cons.prems load_attr_typed [of _ x] by (auto simp: settings_typed_def lookup_map_entry' split: if_splits)
  then show ?case using Cons by simp
qed simp

lemma load_line_typed:
  assumes "settings_typed m" "CHR 0x0A \<notin> set line"
  shows "settings_typed (load_line line m)"
proof -
  let ?d = "opt_split CHR ''='' line"
  let ?i = "atoi (c_str (?d ! 0))"
  let ?m = "if Mapping.lookup m ?i = None then Mapping.update ?i vtunerOpt_new m else m"
  have "opt_typed vtunerOpt_new" by (simp add: opt_typed_def vtunerOpt_new_def plain_text_def)
  then have "settings_typed (Mapping.update ?i vtunerOpt_new m)"
    using assms(1) atoi_range by (simp add: settings_typed_def lookup_update')
  then have m: "settings_typed ?m" using assms(1) by simp
  have "\<forall>x \<in> set (opt_split CHR '','' (?d ! 1)). set x \<inter> {CHR 0x0A, CHR ''='', CHR '',''} = {}" if "length ?d = 2"
  proof -
    have "?d ! 1 \<in> set ?d" using that by simp
    then have "set (?d ! 1) \<subseteq> set line - {CHR ''=''}" by (rule opt_split_parts)
    then show ?thesis using opt_split_parts [of _ "CHR '',''" "?d ! 1"] assms(2) by blast
  qed
  then have "settings_typed (fold (\<lambda>item. Mapping.map_entry ?i (load_attr item)) (opt_split CHR '','' (?d ! 1)) ?m)" if "length ?d = 2"
    using that by (intro settings_typed_attrs [OF m]) blast
  then show ?thesis using assms(1) by (cases "length ?d = 2") (simp_all only: load_line_def Let_def if_True if_False simp_thms)
qed

lemma load_lines_typed:
  assumes "settings_typed m" "\<forall>x \<in> set xs. CHR 0x0A \<notin> set x"
  shows "settings_typed (fold load_line xs m)"
  using assms
proof (induction xs arbitrary: m)
  case (Cons x xs)
  have "settings_typed (load_line x m)" by (rule load_line_typed) (use Cons.prems in simp_all)
  from Cons.IH [OF this] Cons.prems(2) show ?case by simp
qed simp

text \<open>
  C39. The settings are well typed: whatever text is in the file, also if it is not in the format at
  all, every entry has a tuner type that is unset or one of the three, numbers that fit their
  types, conditional access systems in the range of their 16 bits, and texts without a
  separator; and the index of an entry is a 32-bit number.
\<close>

theorem optParser_typed: "settings_typed (optParser in_file)"
proof (cases in_file)
  case None
  then show ?thesis by (simp add: optParser_def load_def settings_typed_def)
next
  case (Some s)
  have "settings_typed Mapping.empty" by (simp add: settings_typed_def)
  moreover have "\<forall>x \<in> set (opt_split CHR 0x0A s). CHR 0x0A \<notin> set x" using opt_split_parts by blast
  ultimately have "settings_typed (fold load_line (opt_split CHR 0x0A s) Mapping.empty)" by (rule load_lines_typed)
  then show ?thesis by (simp add: optParser_def load_def Some)
qed

text \<open>A tuner type that is none of the three names, for example a misspelt one, is taken as satellite.\<close>

lemma unknown_tuner_type:
  assumes "plain_value v" "v \<noteq> []" "v \<notin> {''DVB-S'', ''DVB-C'', ''DVB-T''}"
  shows "o_fe_type (load_attr (attr_text ''tuner_type'' v) o0) = 0"
  using load_attr_text [of "''tuner_type''" v o0] assms by (simp add: plain_value_def tuner_type_table_def)

end
