(* ===== verification/Manager.thy ===== *)
theory Manager
  imports Session Options
begin

text \<open>
  The manager of \<^verbatim>\<open>src/manager.h\<close> and \<^verbatim>\<open>src/manager.cpp\<close>, which reads the settings file and keeps one
  session per configured virtual tuner, and the part of \<^verbatim>\<open>src/main.cpp\<close> that starts and stops it.
  Shown: a settings file starts exactly the sessions it asks for, in the order of their indices, and a
  failed one does not keep the others from starting.
\<close>

section \<open>Manager\<close>

record manager =
  mg_opt :: settings
  mg_sessions :: "session list"

definition default_port :: string where "default_port = ''554''"

definition sessionManager :: "string option \<Rightarrow> manager" where
  "sessionManager in_file = \<lparr>mg_opt = optParser in_file, mg_sessions = []\<rparr>"

definition addSession :: "session \<Rightarrow> manager \<Rightarrow> manager" where
  "addSession s m = m\<lparr>mg_sessions := mg_sessions m @ [s]\<rparr>"

text \<open>The session is started after it has been entered into the list of pointers.\<close>

definition satipSessionCreate ::
  "frontend_abi \<Rightarrow> session_env \<Rightarrow> string \<Rightarrow> int \<Rightarrow> string \<Rightarrow> vtunerOpt \<Rightarrow> manager \<Rightarrow> manager \<times> int" where
  "satipSessionCreate H e ipaddr fe_type port opt m =
     (case satipSession H e ipaddr (if port = [] then default_port else port) fe_type opt of (s, ok) \<Rightarrow>
        if \<not> ok then (m, -1) else (addSession (session_start s) m, 0))"

definition start_tuner :: "frontend_abi \<Rightarrow> (int \<Rightarrow> session_env) \<Rightarrow> int \<Rightarrow> manager \<Rightarrow> manager" where
  "start_tuner H env i m =
     (case Mapping.lookup (mg_opt m) i of None \<Rightarrow> m
      | Some opt \<Rightarrow>
          (if isAvailable opt
           then fst (satipSessionCreate H (env i) (o_ipaddr opt) (o_fe_type opt) (o_port opt) opt m) else m))"

definition satipStart :: "frontend_abi \<Rightarrow> (int \<Rightarrow> session_env) \<Rightarrow> manager \<Rightarrow> manager \<times> int" where
  "satipStart H env m =
     (if opt_isEmpty (mg_opt m) then (m, -1)
      else (fold (start_tuner H env) (Mapping.ordered_keys (mg_opt m)) m, 0))"

definition sessionStart :: "manager \<Rightarrow> manager" where
  "sessionStart m = m\<lparr>mg_sessions := map session_start (mg_sessions m)\<rparr>"

definition sessionJoin :: "manager \<Rightarrow> manager" where
  "sessionJoin m = m\<lparr>mg_sessions := map session_join (mg_sessions m)\<rparr>"

definition sessionStop :: "manager \<Rightarrow> manager" where
  "sessionStop m = m\<lparr>mg_sessions := map session_stop (mg_sessions m)\<rparr>"

definition manager_delete :: "manager \<Rightarrow> int list" where
  "manager_delete m = concat (map session_delete (mg_sessions m))"

section \<open>The main program\<close>

text \<open>
  \<^verbatim>\<open>shutdown_signo\<close> after a signal; \<open>None\<close> when the signal is raised again with its default
  disposition, which ends the process.
\<close>

definition sigint_handler :: "int \<Rightarrow> int \<Rightarrow> int option" where
  "sigint_handler signo shutdown_signo = (if shutdown_signo \<noteq> 0 then None else Some signo)"

text \<open>
  The part of \<^verbatim>\<open>main\<close> that runs the sessions. \<open>lives\<close> is what their threads make of them until
  the first signal is delivered.
\<close>

definition main_sessions ::
  "frontend_abi \<Rightarrow> (int \<Rightarrow> session_env) \<Rightarrow> string option \<Rightarrow> (session list \<Rightarrow> session list) \<Rightarrow> manager" where
  "main_sessions H env in_file lives =
     (case satipStart H env (sessionManager in_file) of (m, res) \<Rightarrow>
        if res = 0 then sessionJoin (sessionStop (m\<lparr>mg_sessions := lives (mg_sessions m)\<rparr>)) else m)"

lemma main_sessions_stopped:
  assumes "\<not> opt_isEmpty (optParser in_file)" "s \<in> set (mg_sessions (main_sessions H env in_file lives))"
  shows "\<not> ss_running s \<and> \<not> ss_thread s \<and> \<not> m_rtp_running (m_rtp (ss_rtsp s)) \<and> \<not> m_thread (m_rtp (ss_rtsp s))"
  using assms
  by (auto simp: main_sessions_def satipStart_def sessionManager_def sessionJoin_def sessionStop_def
      session_join_def session_stop_def rtp_stop_def)

section \<open>Starting what the file asks for\<close>

definition tuner_session :: "frontend_abi \<Rightarrow> (int \<Rightarrow> session_env) \<Rightarrow> int \<times> vtunerOpt \<Rightarrow> session \<times> bool" where
  "tuner_session H env io = satipSession H (env (fst io)) (o_ipaddr (snd io))
     (if o_port (snd io) = [] then ''554'' else o_port (snd io)) (o_fe_type (snd io)) (snd io)"

definition wanted_sessions :: "frontend_abi \<Rightarrow> (int \<Rightarrow> session_env) \<Rightarrow> (int \<times> vtunerOpt) list \<Rightarrow> session list" where
  "wanted_sessions H env ios = map (\<lambda>p. session_start (fst p))
     (filter snd (map (tuner_session H env) (filter (\<lambda>io. isAvailable (snd io)) ios)))"

lemma start_tuner_adds:
  assumes "Mapping.lookup (mg_opt m) i = Some o0"
  shows "start_tuner H env i m = m\<lparr>mg_sessions := mg_sessions m @ wanted_sessions H env [(i, o0)]\<rparr>"
  using assms
  by (simp add: start_tuner_def satipSessionCreate_def addSession_def tuner_session_def wanted_sessions_def
      default_port_def split: prod.split)

lemma start_tuners_add:
  assumes "\<forall>io \<in> set ios. Mapping.lookup (mg_opt m) (fst io) = Some (snd io)"
  shows "fold (start_tuner H env) (map fst ios) m = m\<lparr>mg_sessions := mg_sessions m @ wanted_sessions H env ios\<rparr>"
  using assms
proof (induction ios arbitrary: m)
  case (Cons io ios)
  have "wanted_sessions H env (io # ios) = wanted_sessions H env [io] @ wanted_sessions H env ios"
    by (simp add: wanted_sessions_def)
  then show ?case using Cons by (simp add: start_tuner_adds)
qed (simp add: wanted_sessions_def)

lemma ordered_keys_of:
  assumes "Mapping.lookup m = map_of os" "distinct (map fst os)"
  shows "Mapping.ordered_keys m = map fst (sort_key fst os)"
proof -
  have keys: "Mapping.keys m = fst ` set os" by (simp add: keys_dom_lookup assms(1) dom_map_of_conv_image_fst)
  have "sorted_list_of_set (fst ` set os) = map fst (sort_key fst os)"
    using assms(2) by (intro sorted_distinct_set_unique) (simp_all add: distinct_map)
  then show ?thesis by (simp add: Mapping.ordered_keys_def keys)
qed

text \<open>
  C8. From the settings file to the sessions: with a file in the documented format, the program starts
  exactly the sessions of the tuners that are set up for it and whose device and ports could be
  opened, in the order of their indices, with the port 554 where none is given, each with its own
  settings, running, and with device and receiver open; a tuner that fails does not keep
  the others from starting.
\<close>

theorem satipStart_sessions:
  assumes "distinct (map fst os)" "\<forall>io \<in> set os. opt_ok io" "os \<noteq> []"
    and "satipStart H env (sessionManager (Some (file_text os))) = (m, res)"
  shows "res = 0 \<and> mg_sessions m = wanted_sessions H env (sort_key fst os) \<and>
    (\<forall>s \<in> set (mg_sessions m). ss_running s \<and> v_openok (ss_vtuner s) \<and> m_openok (m_rtp (ss_rtsp s)))"
proof -
  let ?m = "sessionManager (Some (file_text os))"
  have look: "Mapping.lookup (mg_opt ?m) = map_of os"
    using optParser_written [OF assms(1,2)] by (simp add: sessionManager_def)
  have "\<not> opt_isEmpty (mg_opt ?m)"
    using assms(3) by (simp add: opt_isEmpty_def Mapping.is_empty_def keys_dom_lookup look)
  moreover have "\<forall>io \<in> set (sort_key fst os). Mapping.lookup (mg_opt ?m) (fst io) = Some (snd io)"
    using assms(1) by (simp add: look)
  ultimately have "(m, res) = (?m\<lparr>mg_sessions := mg_sessions ?m @ wanted_sessions H env (sort_key fst os)\<rparr>, 0)"
    using assms(4) start_tuners_add [of "sort_key fst os" ?m H env]
    by (simp add: satipStart_def ordered_keys_of [OF look assms(1)])
  then have m: "res = 0" "mg_sessions m = wanted_sessions H env (sort_key fst os)" by (simp_all add: sessionManager_def)
  have "ss_running s \<and> v_openok (ss_vtuner s) \<and> m_openok (m_rtp (ss_rtsp s))"
    if "s \<in> set (wanted_sessions H env ios)" for s ios
    using that by (auto simp: wanted_sessions_def tuner_session_def session_start_def session_run_def satipSession_def
        rtp_run_def Let_def)
  then show ?thesis using m by simp
qed

definition sample_opt :: vtunerOpt where
  "sample_opt = vtunerOpt_new\<lparr>o_vtuner_type := ''satip_client'', o_ipaddr := ''192.168.0.1'', o_fe_type := 0, o_tcpdata := True\<rparr>"

lemma satipConfig_fe_type: "m_fe_type (setWakeupFd fd (satipConfig raw fe o0)) = fe"
  by (simp add: setWakeupFd_def satipConfig_def clearProperty_def clearPidList_def Let_def)

lemma sample_tuner:
  "fe_kind_of n = FE_TYPE_SAT \<Longrightarrow> o_tcpdata o0 \<Longrightarrow> snd (satipSession sample_abi sample_env host port n o0)"
  by (simp add: satipSession_def satipVtuner_def openVtuner_def sample_env_def satipRTP_def rtp_setPSI_def
      satipConfig_fe_type fe_description_def Let_def)

theorem satipStart_sessions_witness:
  "\<exists>m. satipStart sample_abi (\<lambda>_. sample_env) (sessionManager
       (Some (file_text [(1, sample_opt), (0, sample_opt\<lparr>o_port := ''8554''\<rparr>), (2, vtunerOpt_new\<lparr>o_fe_type := 1\<rparr>)]))) = (m, 0) \<and>
     length (mg_sessions m) = 2"
proof -
  let ?os = "[(1, sample_opt), (0, sample_opt\<lparr>o_port := ''8554''\<rparr>), (2, vtunerOpt_new\<lparr>o_fe_type := 1\<rparr>)]"
  obtain m res where r: "satipStart sample_abi (\<lambda>_. sample_env) (sessionManager (Some (file_text ?os))) = (m, res)"
    by fastforce
  have "length (wanted_sessions sample_abi (\<lambda>_. sample_env) (sort_key fst ?os)) = 2"
    using sample_tuner [of 0]
    by (simp add: wanted_sessions_def tuner_session_def sample_opt_def vtunerOpt_new_def isAvailable_def fe_kind_of_def)
  moreover have "\<forall>io \<in> set ?os. opt_ok io" by (simp add: opt_ok_def plain_value_def sample_opt_def vtunerOpt_new_def)
  ultimately show ?thesis using satipStart_sessions [OF _ _ _ r] r by simp
qed

end
