(* ===== verification/Logging.thy ===== *)
theory Logging
  imports Timer C_Scan
begin

text \<open>
  Log output, \<^verbatim>\<open>src/log.h\<close> and \<^verbatim>\<open>src/log.cpp\<close>. The text of a message is an argument, as the macros and
  \<^verbatim>\<open>printf\<close> make it. Shown: no message leads out of the two buffers, the buffer of the thread is
  empty again after every message, and a message goes, cut to 1022 characters, to exactly one
  place.
\<close>

section \<open>State\<close>

definition MAX_MSGSIZE :: nat where "MAX_MSGSIZE = 1024"

definition MSG_MAIN :: u32 where "MSG_MAIN = 1"
definition MSG_NET :: u32 where "MSG_NET = 2"
definition MSG_HW :: u32 where "MSG_HW = 4"
definition MSG_SRV :: u32 where "MSG_SRV = 8"
definition MSG_DATA :: u32 where "MSG_DATA = 16"
definition MSG_CA :: u32 where "MSG_CA = 32"

definition MSG_ERROR :: int where "MSG_ERROR = 1"
definition MSG_WARN :: int where "MSG_WARN = 2"
definition MSG_INFO :: int where "MSG_INFO = 3"
definition MSG_DEBUG :: int where "MSG_DEBUG = 4"

text \<open>
  The variables of the log and, of one thread, its buffer \<^verbatim>\<open>msg\<close>. \<open>k_files\<close> are the files that are
  open.
\<close>

record log_state =
  dbg_level :: int
  dbg_mask :: u32
  use_syslog :: int
  log_file :: "int option"
  msg :: string
  k_files :: "int list"

text \<open>The values at the start of the program.\<close>

definition log_init :: log_state where
  "log_init = \<lparr>dbg_level = MSG_ERROR, dbg_mask = MSG_MAIN OR MSG_NET OR MSG_HW OR MSG_SRV OR MSG_CA, use_syslog = 0,
     log_file = None, msg = replicate MAX_MSGSIZE CHR 0x00, k_files = []\<rparr>"

section \<open>Messages\<close>

text \<open>What the macros \<^verbatim>\<open>ERROR\<close>, \<^verbatim>\<open>WARN\<close>, \<^verbatim>\<open>INFO\<close> and \<^verbatim>\<open>DEBUG\<close> put in front of the text.\<close>

definition pad_right :: "nat \<Rightarrow> string \<Rightarrow> string" where
  "pad_right n s = s @ replicate (n - length s) CHR '' ''"

definition pad_left :: "nat \<Rightarrow> char \<Rightarrow> string \<Rightarrow> string" where
  "pad_left n c s = replicate (n - length s) c @ s"

definition level_text :: "int \<Rightarrow> string" where
  "level_text level = (if level = MSG_ERROR then '' error: '' else if level = MSG_WARN then ''  warn: ''
     else if level = MSG_INFO then ''  info: '' else '' debug: '')"

definition log_text :: "int \<Rightarrow> int \<Rightarrow> string \<Rightarrow> nat \<Rightarrow> string \<Rightarrow> string \<Rightarrow> string" where
  "log_text level pid file line func body =
     ''['' @ dec pid @ '' '' @ pad_right 20 file @ '':'' @ pad_left 4 CHR '' '' (dec_nat line) @ ''][''
       @ pad_right 25 func @ '']'' @ [CHR 0x09] @ level_text level @ body"

text \<open>\<^verbatim>\<open>strncat\<close>; writing behind the destination is undefined.\<close>

definition strncat :: "string \<Rightarrow> string \<Rightarrow> nat \<Rightarrow> string option" where
  "strncat dest src n =
     (let d = c_str dest; s = take n (c_str src) in
      if length d + length s < length dest then Some (d @ s @ CHR 0x00 # drop (length d + length s + 1) dest) else None)"

datatype priority = LOG_ERR | LOG_WARNING | LOG_INFO | LOG_DEBUG

datatype log_out = To_file int string | To_syslog priority string | To_stderr string

definition syslog_priority :: "int \<Rightarrow> priority" where
  "syslog_priority level = (if level = 1 then LOG_ERR else if level = 2 then LOG_WARNING
     else if level = 3 then LOG_INFO else LOG_DEBUG)"

text \<open>\<^verbatim>\<open>[%ld.%03ld]%s\<close>; the nanoseconds of a clock reading are not negative.\<close>

definition stamped :: "timespec \<Rightarrow> string \<Rightarrow> string" where
  "stamped tp s = ''['' @ dec (tv_sec tp) @ ''.'' @ pad_left 3 CHR ''0'' (dec (tv_nsec tp sdiv 1000000)) @ '']'' @ s"

text \<open>
  \<open>text0\<close> is what the format and its arguments give; \<^verbatim>\<open>vsnprintf\<close> puts at most 1022 characters of it
  and the terminating zero in \<^verbatim>\<open>tn\<close>.
\<close>

definition write_message :: "timespec \<Rightarrow> u32 \<Rightarrow> int \<Rightarrow> string \<Rightarrow> log_state \<Rightarrow> (log_state \<times> log_out list) option" where
  "write_message tp mtype level text0 s =
     (if mtype AND dbg_mask s = 0 then Some (s, [])
      else do {
        r \<leftarrow> (if level \<le> dbg_level s then do {
            let tn = take (MAX_MSGSIZE - 2) text0 @ [CHR 0x00];
            m \<leftarrow> strncat (msg s) tn (MAX_MSGSIZE - 1);
            let s1 = s\<lparr>msg := m[MAX_MSGSIZE - 1 := CHR 0x00]\<rparr>;
            let out = c_str (msg s1);
            Some (s1, [case log_file s1 of Some f \<Rightarrow> To_file f (stamped tp out)
              | None \<Rightarrow> if use_syslog s1 \<noteq> 0 then To_syslog (syslog_priority level) out else To_stderr (stamped tp out)])
          } else Some (s, []));
        Some ((fst r)\<lparr>msg := replicate (length (msg (fst r))) CHR 0x00\<rparr>, snd r)
      })"

text \<open>Messages with their clock readings, one after the other.\<close>

fun write_messages :: "(timespec \<times> u32 \<times> int \<times> string) list \<Rightarrow> log_state \<Rightarrow> (log_state \<times> log_out list) option" where
  "write_messages [] s = Some (s, [])"
| "write_messages ((tp, mtype, level, text0) # ms) s = do {
     r \<leftarrow> write_message tp mtype level text0 s;
     q \<leftarrow> write_messages ms (fst r);
     Some (fst q, snd r @ snd q)
   }"

section \<open>What is written\<close>

text \<open>The buffer between two messages.\<close>

definition log_ok :: "log_state \<Rightarrow> bool" where
  "log_ok s \<longleftrightarrow> msg s = replicate MAX_MSGSIZE CHR 0x00 \<and>
     k_files s = (case log_file s of None \<Rightarrow> [] | Some f \<Rightarrow> [f])"

definition log_enabled :: "u32 \<Rightarrow> int \<Rightarrow> log_state \<Rightarrow> bool" where
  "log_enabled mtype level s \<longleftrightarrow> mtype AND dbg_mask s \<noteq> 0 \<and> level \<le> dbg_level s"

definition log_sink :: "timespec \<Rightarrow> int \<Rightarrow> string \<Rightarrow> log_state \<Rightarrow> log_out" where
  "log_sink tp level out s = (case log_file s of Some f \<Rightarrow> To_file f (stamped tp out)
     | None \<Rightarrow> if use_syslog s \<noteq> 0 then To_syslog (syslog_priority level) out else To_stderr (stamped tp out))"

lemma log_init_ok: "log_ok log_init"
  by (simp add: log_ok_def log_init_def)

text \<open>The defaults that the help text names.\<close>

lemma log_init_usage: "dbg_mask log_init = 47" "dbg_level log_init = 1"
  by (simp_all add: log_init_def MSG_MAIN_def MSG_NET_def MSG_HW_def MSG_SRV_def MSG_CA_def MSG_ERROR_def)

lemma c_str_zeros [simp]: "c_str (s @ CHR 0x00 # u) = c_str s" "c_str (replicate n CHR 0x00) = []"
proof -
  show "c_str (s @ CHR 0x00 # u) = c_str s" by (induction s) (simp_all add: c_str_def)
  show "c_str (replicate n CHR 0x00) = []" by (cases n) (simp_all add: c_str_def)
qed

lemma length_c_str: "length (c_str s) \<le> length s"
  by (simp add: c_str_def length_takeWhile_le)

lemma c_str_idem [simp]: "c_str (c_str s) = c_str s"
  by (rule c_str_plain) (auto simp: c_str_def dest: set_takeWhileD)

text \<open>
  A message into an empty buffer: it never leaves the buffers, the buffer is empty again, and the
  text is cut to 1022 characters.
\<close>

lemma write_message_run:
  assumes "log_ok s"
  shows "write_message tp mtype level text0 s =
    Some (s, if log_enabled mtype level s then [log_sink tp level (c_str (take 1022 text0)) s] else [])"
proof -
  have m: "msg s = replicate 1024 CHR 0x00" using assms by (simp add: log_ok_def MAX_MSGSIZE_def)
  have same: "s\<lparr>msg := replicate 1024 CHR 0x00\<rparr> = s" using m by (cases s) simp
  let ?t = "c_str (take 1022 text0)"
  have len: "length ?t \<le> 1022" using length_c_str [of "take 1022 text0"] by simp
  let ?m = "?t @ CHR 0x00 # replicate (1024 - (length ?t + 1)) CHR 0x00"
  have cat: "strncat (msg s) (take 1022 text0 @ [CHR 0x00]) 1023 = Some ?m"
    using len by (simp add: strncat_def m Let_def)
  have lm: "length ?m = 1024" using len by simp
  have "?m[1023 := CHR 0x00] = ?m"
  proof (rule list_update_same_conv [THEN iffD2])
    show "1023 < length ?m" using lm by simp
    show "?m ! 1023 = CHR 0x00" using len by (simp add: nth_append nth_Cons' )
  qed
  then show ?thesis
    using cat lm by (auto simp: write_message_def log_enabled_def log_sink_def MAX_MSGSIZE_def Let_def m same split: option.splits)
qed

lemma write_messages_run:
  "log_ok s \<Longrightarrow> write_messages ms s = Some (s, concat (map (\<lambda>(tp, mtype, level, text0).
     if log_enabled mtype level s then [log_sink tp level (c_str (take 1022 text0)) s] else []) ms))"
proof (induction ms)
  case (Cons x ms)
  obtain tp mtype level text0 where x: "x = (tp, mtype, level, text0)" by (cases x)
  show ?case using Cons by (simp add: x write_message_run)
qed simp

end
