(* ===== verification/Program.thy ===== *)
theory Program
  imports Manager Logging
begin

text \<open>
  The whole program, \<^verbatim>\<open>src/main.cpp\<close>: the command line sets up the log, then the sessions of the
  settings file run until the first signal. Scheduling and the signal masks are left out. Shown: the
  program either ends in the command line, without a session, or ends with status 0 and every
  session stopped.
\<close>

text \<open>
  What \<^verbatim>\<open>getopt\<close> returns: the letter (\<open>?\<close> for an option that is not known), its argument, and for
  \<^verbatim>\<open>-f\<close> what \<^verbatim>\<open>fopen\<close> returns for it.
\<close>

type_synonym main_opt = "char \<times> string \<times> int option"

text \<open>The loop over the options; \<open>None\<close> is \<^verbatim>\<open>exit(1)\<close>.\<close>

fun main_options :: "main_opt list \<Rightarrow> log_state \<Rightarrow> log_state option" where
  "main_options [] s = Some s"
| "main_options ((opt, optarg, f) # opts) s =
     (if opt = CHR ''m'' then main_options opts (s\<lparr>dbg_mask := word_of_int (atoi (c_str optarg))\<rparr>)
      else if opt = CHR ''l'' then main_options opts (s\<lparr>dbg_level := atoi (c_str optarg)\<rparr>)
      else if opt = CHR ''y'' then main_options opts (s\<lparr>use_syslog := 1\<rparr>)
      else if opt = CHR ''f'' then
        (case f of None \<Rightarrow> None
         | Some h \<Rightarrow>
            (let s1 = s\<lparr>k_files := h # k_files s\<rparr>;
                 s2 = (case log_file s1 of None \<Rightarrow> s1 | Some old \<Rightarrow> s1\<lparr>k_files := remove1 old (k_files s1)\<rparr>) in
             main_options opts (s2\<lparr>log_file := Some h\<rparr>)))
      else None)"

text \<open>The exit status with what the sessions have become, none if they were never created.\<close>

definition program_main ::
  "main_opt list \<Rightarrow> frontend_abi \<Rightarrow> (int \<Rightarrow> session_env) \<Rightarrow> string option \<Rightarrow> (session list \<Rightarrow> session list) \<Rightarrow>
   int \<times> (log_state \<times> manager) option" where
  "program_main opts H env in_file lives =
     (case main_options opts log_init of None \<Rightarrow> (1, None)
      | Some s \<Rightarrow> (0, Some (s, main_sessions H env in_file lives)))"

text \<open>At most one log file is open, the one that is written to, and the buffer stays as it was.\<close>

lemma main_options_ok: "log_ok s \<Longrightarrow> main_options opts s = Some s' \<Longrightarrow> log_ok s'"
proof (induction opts s rule: main_options.induct)
  case (2 opt optarg f opts s)
  have opened: "log_ok ((case log_file (s\<lparr>k_files := h # k_files s\<rparr>) of None \<Rightarrow> s\<lparr>k_files := h # k_files s\<rparr>
      | Some old \<Rightarrow> (s\<lparr>k_files := h # k_files s\<rparr>)\<lparr>k_files := remove1 old (k_files (s\<lparr>k_files := h # k_files s\<rparr>))\<rparr>)\<lparr>log_file := Some h\<rparr>)" for h
    using "2.prems"(1) by (auto simp: log_ok_def split: option.splits)
  have plain: "log_ok (s\<lparr>dbg_mask := w\<rparr>)" "log_ok (s\<lparr>dbg_level := n\<rparr>)" "log_ok (s\<lparr>use_syslog := n\<rparr>)" for w n
    using "2.prems"(1) by (simp_all add: log_ok_def)
  show ?case
    using "2.IH" "2.prems"(2) opened plain by (auto simp: Let_def split: if_splits option.splits)
qed simp

lemma program_main_ends:
  assumes "\<not> opt_isEmpty (optParser in_file)"
  shows "(\<exists>s m. program_main opts H env in_file lives = (0, Some (s, m)) \<and> log_ok s \<and>
      (\<forall>x \<in> set (mg_sessions m). \<not> ss_running x \<and> \<not> ss_thread x)) \<or>
    program_main opts H env in_file lives = (1, None)"
  using main_sessions_stopped [OF assms] main_options_ok [OF log_init_ok, of opts]
  by (auto simp: program_main_def split: option.splits)

text \<open>Options in the order of the command line; an unknown one ends the program, whatever follows.\<close>

lemma main_options_append:
  "main_options (os @ ps) s = Option.bind (main_options os s) (main_options ps)"
  by (induction os s rule: main_options.induct) (simp_all add: Let_def split: option.split)

lemma main_options_unknown:
  "opt \<notin> {CHR ''m'', CHR ''l'', CHR ''y'', CHR ''f''} \<Longrightarrow> main_options (os @ (opt, x, f) # ps) s = None"
  by (simp add: main_options_append) (cases "main_options os s"; simp)

end
