(* ===== verification/Spec2Isabelle.thy ===== *)
theory Spec2Isabelle
  imports Psi Session_Start Program
begin

text \<open>
  A verification of the SAT>IP client of \<^verbatim>\<open>src/\<close>: a daemon that gives a set top box virtual
  tuners whose streams come from a SAT>IP server in the network.

  \<^bold>\<open>The program.\<close> \<^verbatim>\<open>main\<close> creates a \<^verbatim>\<open>sessionManager\<close>, which reads the settings file and creates one
  \<^verbatim>\<open>satipSession\<close> per configured tuner. A session owns a \<^verbatim>\<open>satipVtuner\<close> (the kernel's device, which
  sends tuning requests and pid lists), a \<^verbatim>\<open>satipConfig\<close> (what is tuned and which pids are wanted, and
  the queries that tell the server), a \<^verbatim>\<open>satipRTSP\<close> (the session with the server), a \<^verbatim>\<open>satipRTP\<close> (the
  thread that receives the stream and its RTCP reports) and, when pids of the conditional access
  are to be requested as well, a \<^verbatim>\<open>satipPSI\<close>, which reads PAT, CAT and PMT of the stream and reports the
  PMT, ECM and EMM pids to the configuration. The loop of a session polls device, wakeup pipe and
  connection, and calls their handlers; timers drive keep alive messages, the watchdog of a request
  and the retries.

  \<^bold>\<open>Theories and sources.\<close>
  \<^item> \<open>Satip_Prelude\<close>, \<open>C_Strings\<close>, \<open>C_Scan\<close>: memory accesses that can fail, bytes, lists and words; the C
    library's string output (\<^verbatim>\<open>snprintf\<close>, streams) and input (\<^verbatim>\<open>sscanf\<close>, \<^verbatim>\<open>atoi\<close>, \<^verbatim>\<open>strtol\<close>, \<^verbatim>\<open>strstr\<close>)
    as far as the sources use them.
  \<^item> \<open>Psi_Crc\<close>, \<open>Psi_Sections\<close>, \<open>Psi_Tables\<close>, \<open>Psi_Wire\<close>, \<open>Psi\<close>: \<^verbatim>\<open>psi.h\<close>, \<^verbatim>\<open>psi.cpp\<close>. The table-driven
    checksum, the section assembler with its loop \<open>feed_loop\<close>, the three tables, their encodings, and
    the tap \<open>processTS\<close> with its derivation \<open>recompute\<close>. The calls of \<^verbatim>\<open>setCaPids\<close> are a list of reports.
  \<^item> \<open>Timer\<close>: \<^verbatim>\<open>timer.h\<close>, \<^verbatim>\<open>timer.cpp\<close>. Handlers get the host's record through the locale \<open>timer_host\<close>.
  \<^item> \<open>Config\<close>, \<open>Config_Query\<close>: \<^verbatim>\<open>config.h\<close>, \<^verbatim>\<open>config.cpp\<close>. The pid table, the tuning parameters, and the SETUP
    and PLAY queries; \<open>server_pids\<close> is a server that reads them.
  \<^item> \<open>Rtp\<close>: \<^verbatim>\<open>rtp.h\<close>, \<^verbatim>\<open>rtp.cpp\<close>. Ports, the receiving thread, writing to the device, RTCP.
  \<^item> \<open>Rtsp\<close>, \<open>Rtsp_Inv\<close>, \<open>Rtsp_Session\<close>, \<open>Rtsp_Response\<close>, \<open>Rtsp_Server\<close>: \<^verbatim>\<open>rtsp.h\<close>, \<^verbatim>\<open>rtsp.cpp\<close>. The
    definitions, the invariant of every handler, the state machine and its progress, the
    responses as they are read, and the server that reads the requests.
  \<^item> \<open>Vtuner\<close>: \<^verbatim>\<open>vtuner.h\<close>, \<^verbatim>\<open>vtuner.cpp\<close>. Opening the device and the kernel's messages.
  \<^item> \<open>Options\<close>: \<^verbatim>\<open>option.h\<close>, \<^verbatim>\<open>option.cpp\<close>. The settings file.
  \<^item> \<open>Session\<close>, \<open>Session_Start\<close>: \<^verbatim>\<open>session.h\<close>, \<^verbatim>\<open>session.cpp\<close>. The composition and its loop; the loop
    against a server that answers.
  \<^item> \<open>Manager\<close>: \<^verbatim>\<open>manager.h\<close>, \<^verbatim>\<open>manager.cpp\<close> and the part of \<^verbatim>\<open>main.cpp\<close> that runs the sessions.
  \<^item> \<open>Logging\<close>, \<open>Program\<close>: \<^verbatim>\<open>log.h\<close>, \<^verbatim>\<open>log.cpp\<close> and \<^verbatim>\<open>main.cpp\<close>. What a message writes where, the command line, and
    the program from its options to its exit status.

  \<^bold>\<open>State and operations.\<close> A class is a record with the source's member names, an operation is a function
  that returns the changed record. What an operation gets from outside (clock readings, results of
  system calls, received bytes, the numbers of the kernel's frontend header as \<open>frontend_abi\<close>) is an
  argument, so that a theorem holds for everything that can come in. \<open>None\<close> is undefined behaviour: an
  access outside a buffer, a dereferenced null pointer; a theorem that a function returns
  \<open>Some\<close> says that there is none. Errors of the source are values of its result types. Machine integers
  are words, or integers wrapped by \<open>s32\<close> and its relatives where the source computes in \<^verbatim>\<open>int\<close>. Two
  threads share a session: the theorems of \<open>Session\<close> take their handlers in every order, and an
  operation under a lock is one step.

  \<^bold>\<open>What is shown.\<close>
  \<^item> The tap: no access outside the received data or the section buffer, for any input; the
    encodings of the three tables are read back; a section cut into any packets arrives once and
    intact; the checksum is the MPEG-2 CRC-32 and detects every single byte error; the derived pids are
    the specified ones and are reported exactly when they change.
  \<^item> The configuration: \<open>updatePidList\<close> refines a set of wanted pids while the table has room; SETUP and
    PLAY queries keep the server's list and the client's record in step; the scrambling code search
    ends with the least answer.
  \<^item> Timers: the poll timeout ends after the earliest deadline and less than two milliseconds late.
  \<^item> The receiver: data is delivered in order however writes are split; the ports are a free pair;
    the RTCP report is read back; no turn leaves the receive buffer as long as RTCP packets have the usual form.
  \<^item> The RTSP client: an invariant of all reachable states, with the one way the receive position gets
    in front of the buffer; it is never stuck but for one state that
    is characterised; a lost session is retried with a backoff of 1 to 30 seconds; responses are read
    back, and with UDP reception no response leads out of the buffer, but for a \<^verbatim>\<open>recv\<close> that fails on an empty
    buffer and a long SETUP response.
  \<^item> The device: what the kernel tunes arrives unchanged in the SETUP query; both numberings of the
    driver's requests work; the status reported to the kernel.
  \<^item> The settings file is read back; whatever is in it, its entries are well typed; from it exactly
    the sessions asked for are started.
  \<^item> The session: in every interleaving the server has the pids that the client recorded, and exactly the wanted
    ones unless the kernel cleared the record without a complete list being sent since; the loop refines
    that interleaving (\<open>satipMainLoop_reach\<close>); a server that stays silent is given up when the watchdog's time is
    over; with a server that answers, three turns of the loop lead from a tuned channel
    to the stream, and one turn from the stream to rest, after one more if a change of the pids is pending; a change
    on the receiving thread wakes the loop and reaches the server.
  \<^item> The program: no message leaves the log's buffers, and each goes to one place; an unknown option
    ends the program before a session exists, otherwise it ends with every session stopped.

  Some theorems describe behaviour that is not intended: \<open>updatePidList_full_table\<close>,
  \<open>getPlayData_retune_without_pids\<close>, \<open>feed_start_not_resynchronised\<close>, \<open>rtcpData_unchecked_length\<close>,
  \<open>setup_session_overflow\<close>, \<open>recv_failure_leaves_buffer\<close>, \<open>teardown_response_lost\<close>, \<open>unknown_tuner_type\<close>.

  \<^bold>\<open>Interfaces.\<close> The locale \<open>section_sink\<close> is what the assembler needs of the parser of sections, and
  \<open>timer_host\<close> what the timers need of their host; they are interpreted on \<open>handleSection\<close> and on
  the RTSP client's handlers. The step relations \<open>rtsp_step\<close>, \<open>ev\<close>, \<open>config_reach\<close> and \<open>session_reach\<close>
  have their invariants by rule induction.

  \<^bold>\<open>Bounds.\<close> No function has fuel: loops end by a measure on the bytes that are left (\<open>feed_loop\<close>,
  \<open>ts_loop\<close>, \<open>response_loop\<close>, \<open>rtcp_loop\<close>), on the attempts that are left (\<open>openRTP_loop\<close>) or on the counter
  of \<open>root2gold_loop\<close>, which the source stops at 0x3ffff. The endless loops of the receiving
  thread and of the session take a list with the surroundings of each turn, of any length. A write
  loop takes the list of the results of its system calls.

  \<^bold>\<open>Not modelled.\<close> Real-time scheduling, the signal masks and the help text (the rest of \<^verbatim>\<open>main.cpp\<close>),
  which do not act on the sessions, and the calls of the log macros in the other components: each
  would only write text. Failing memory allocation. Data races: the flags that threads read without
  a lock are read at the points the model gives. The reachable states of \<open>Session\<close> and \<open>Rtsp_Session\<close> exclude no
  result of \<^verbatim>\<open>recv\<close>; a step that is undefined, as a read after \<open>recv_failure_leaves_buffer\<close>, leads to no state.
\<close>

end
